theory Spec2Isabelle
  imports Complex_Main "HOL-Library.Product_Lexorder" "HOL-Library.Multiset"
begin

section \<open>Bank queue simulation (Sim.py): the model\<close>

text \<open>
  A Python float is modelled as the \<^typ>\<open>real\<close> number it denotes.  Comparisons of floats
  are exact.  The sum of line 38, on which the index returned by the categorical draw
  depends, is the floating-point addition of the machine: it is the parameter \<open>suma\<close>,
  about which the definitions assume nothing.  The other operations (the clock, the
  waits, the logarithm and the quotient of \<open>expovariate\<close>, the mean) are taken exact:
  their rounding is not part of the model.

  The module constants of Sim.py (lines 16-27) are collected in a record with \<open>suma\<close>, so
  that the functions can be studied for every parameter setting.  \<open>config_fuente\<close> holds
  the constants written in the source, with the exact sum for \<open>suma\<close>; the runs that
  are evaluated on it draw the transaction type with the value 0.1 only, for which
  every addition that rounds gives the index 0 (lemma \<open>generar_tipo_fuente\<close>).
  \<open>NUM_CAJEROS\<close> is a natural number: a negative teller count is excluded by the type.
\<close>

type_synonym tabla = "(real \<times> real) list"

record config =
  LAMBDA_HORA :: real
  NUM_CAJEROS :: nat
  TIEMPO_SIMULACION :: real
  TRANSACCIONES :: tabla
  suma :: "real \<Rightarrow> real \<Rightarrow> real"

definition config_fuente :: config where
  "config_fuente =
     \<lparr>LAMBDA_HORA = 180, NUM_CAJEROS = 6, TIEMPO_SIMULACION = 8 * 60 * 60,
      TRANSACCIONES = [(0.15, 45), (0.29, 75), (0.32, 120), (0.24, 180)],
      suma = (+)\<rparr>"

definition LAMBDA :: "config \<Rightarrow> real" where
  "LAMBDA cfg = LAMBDA_HORA cfg / 3600"

datatype error = ValueError | ZeroDivisionError | IndexError | RuntimeError | Referencia_colgada

subsection \<open>generar_tipo_transaccion (lines 33-41)\<close>

text \<open>
  The loop of lines 37-40 over \<open>enumerate(TRANSACCIONES)\<close>: \<open>mas\<close> is the addition of
  \<open>acum += p\<close>, \<open>acum\<close> the running sum, \<open>i\<close> the index of the entry at the head of the
  remaining table.  \<open>None\<close> means that the loop ended without returning.
\<close>

fun recorrer_tabla ::
  "(real \<Rightarrow> real \<Rightarrow> real) \<Rightarrow> real \<Rightarrow> real \<Rightarrow> int \<Rightarrow> tabla \<Rightarrow> int option" where
  "recorrer_tabla mas r acum i [] = None"
| "recorrer_tabla mas r acum i ((p, m) # resto) =
     (if r \<le> mas acum p then Some i else recorrer_tabla mas r (mas acum p) (i + 1) resto)"

text \<open>\<open>r\<close> is the value that \<open>random.random()\<close> returned on line 35.\<close>

definition generar_tipo_transaccion ::
  "(real \<Rightarrow> real \<Rightarrow> real) \<Rightarrow> tabla \<Rightarrow> real \<Rightarrow> int" where
  "generar_tipo_transaccion mas t r =
     (case recorrer_tabla mas r 0 0 t of Some i \<Rightarrow> i | None \<Rightarrow> int (length t) - 1)"

text \<open>
  The cumulative probability of the entries \<open>0..k\<close> of a table as the loop computes it:
  the value of \<open>acum\<close> after the entry \<open>k\<close> was added.
\<close>

definition acumulada :: "(real \<Rightarrow> real \<Rightarrow> real) \<Rightarrow> tabla \<Rightarrow> nat \<Rightarrow> real" where
  "acumulada mas t k = foldl mas 0 (map fst (take (Suc k) t))"

text \<open>
  What is known of the arithmetic of doubles: a sum is the exact sum rounded, and a
  decimal constant is read as the nearest double, each with a relative error of at most
  \<open>2 ^ -53\<close>.  The bounds below ask for much less: a relative error of at most 1/1000.
\<close>

definition cerca :: "real \<Rightarrow> real \<Rightarrow> bool" where
  "cerca x y \<longleftrightarrow> \<bar>x - y\<bar> \<le> \<bar>y\<bar> / 1000"

definition suma_redondeada :: "(real \<Rightarrow> real \<Rightarrow> real) \<Rightarrow> bool" where
  "suma_redondeada mas \<longleftrightarrow> (\<forall>a b. cerca (mas a b) (a + b))"

definition tabla_cerca :: "tabla \<Rightarrow> tabla \<Rightarrow> bool" where
  "tabla_cerca t t0 \<longleftrightarrow> list_all2 (\<lambda>x y. cerca (fst x) (fst y)) t t0"

text \<open>An addition that is not exact: every sum comes out too large by one part in 2000.\<close>

definition suma_inexacta :: "real \<Rightarrow> real \<Rightarrow> real" where
  "suma_inexacta a b = (a + b) * (2001 / 2000)"

text \<open>
  An addition that rounds every sum down to two decimals, and a table whose
  probabilities sum to 1 exactly but to 0.99 with that addition.
\<close>

definition suma_truncada :: "real \<Rightarrow> real \<Rightarrow> real" where
  "suma_truncada a b = of_int \<lfloor>(a + b) * 100\<rfloor> / 100"

definition tabla_tercios :: tabla where
  "tabla_tercios = [(0.335, 45), (0.335, 75), (0.33, 120)]"

subsection \<open>The shortest queue (line 74)\<close>

text \<open>
  Python's \<open>min(seq, key=f)\<close> keeps the first element and replaces it only by an element
  with a strictly smaller key.  \<open>min_desde b kb j ks\<close> is that loop on the keys: \<open>b\<close> is
  the index of the best element so far, \<open>kb\<close> its key, \<open>j\<close> the index of the head of the
  remaining keys \<open>ks\<close>.  On an empty sequence \<open>min\<close> raises ValueError (\<open>None\<close> here).
\<close>

fun min_desde :: "nat \<Rightarrow> nat \<Rightarrow> nat \<Rightarrow> nat list \<Rightarrow> nat" where
  "min_desde b kb j [] = b"
| "min_desde b kb j (k # ks) =
     (if k < kb then min_desde j k (Suc j) ks else min_desde b kb (Suc j) ks)"

definition min_indice :: "nat list \<Rightarrow> nat option" where
  "min_indice ks = (case ks of [] \<Rightarrow> None | k # resto \<Rightarrow> Some (min_desde 0 k 1 resto))"

subsection \<open>Random numbers (lines 35, 46, 50)\<close>

text \<open>
  The module \<open>random\<close> is one global stream.  \<open>azar\<close> is the sequence of values that
  \<open>random.random()\<close> returns after \<open>random.seed\<close>, and \<open>extraidos\<close> counts the values
  already taken.  The generator behind the stream is not modelled: the stream is a
  parameter of every run.  \<open>random.expovariate(lambd)\<close> is
  \<open>-math.log(1.0 - random()) / lambd\<close>.
\<close>

datatype rutina = Cola_unica | Colas_separadas

datatype proceso = Generador | Cliente rutina nat

text \<open>A Request object is named by the customer process that made it.\<close>

type_synonym peticion = "rutina \<times> nat"

datatype evento =
    Initialize proceso
  | Timeout proceso
  | Request peticion
  | Release nat
  | Process peticion
  | Until

text \<open>A simpy Resource: \<open>queue\<close> is the list of pending requests (\<open>put_queue\<close>).\<close>

record recurso =
  capacity :: nat
  users :: "peticion list"
  queue :: "peticion list"

text \<open>
  The local variables of a customer routine once it has started.  \<open>cajero\<close> is the index
  of the resource that was requested (0 stands for the one shared resource of
  \<open>cliente_cola_unica\<close>); \<open>espera\<close> is unset until line 62 or 77 assigns it.
\<close>

record marco =
  llegada :: real
  tipo :: int
  cajero :: nat
  espera :: "real option"

text \<open>An entry of the event heap of simpy: (time, priority, event id, event).\<close>

type_synonym entrada = "real \<times> nat \<times> nat \<times> evento"

record estado =
  env_now :: real
  env_queue :: "entrada list"
  env_eid :: nat
  cajeros :: "recurso list"
  marcos :: "nat \<Rightarrow> marco option"
  gen_i :: nat
  tiempos_espera :: "real list"
  azar :: "nat \<Rightarrow> real"
  extraidos :: nat

definition ligar :: "error + 'a \<Rightarrow> ('a \<Rightarrow> error + 'b) \<Rightarrow> error + 'b" where
  "ligar x f = (case x of Inl e \<Rightarrow> Inl e | Inr v \<Rightarrow> f v)"

definition random_py :: "estado \<Rightarrow> real \<times> estado" where
  "random_py s = (azar s (extraidos s), s\<lparr>extraidos := Suc (extraidos s)\<rparr>)"

definition expovariate :: "real \<Rightarrow> estado \<Rightarrow> error + real \<times> estado" where
  "expovariate lambd s =
     (case random_py s of (u, s1) \<Rightarrow>
        if 1 - u \<le> 0 then Inl ValueError
        else if lambd = 0 then Inl ZeroDivisionError
        else Inr (- ln (1 - u) / lambd, s1))"

text \<open>Python indexing of a list: a negative index counts from the end.\<close>

definition indice :: "'a list \<Rightarrow> int \<Rightarrow> error + 'a" where
  "indice xs i =
     (if 0 \<le> i \<and> i < int (length xs) then Inr (xs ! nat i)
      else if i < 0 \<and> - int (length xs) \<le> i then Inr (xs ! nat (int (length xs) + i))
      else Inl IndexError)"

definition generar_tiempo_servicio :: "config \<Rightarrow> int \<Rightarrow> estado \<Rightarrow> error + real \<times> estado" where
  "generar_tiempo_servicio cfg tp s =
     ligar (indice (TRANSACCIONES cfg) tp) (\<lambda>(p, media).
       if media = 0 then Inl ZeroDivisionError else expovariate (1 / media) s)"

definition generar_tiempo_llegada :: "config \<Rightarrow> estado \<Rightarrow> error + real \<times> estado" where
  "generar_tiempo_llegada cfg s = expovariate (LAMBDA cfg) s"

subsection \<open>The simpy environment and resources\<close>

text \<open>
  Sim.py runs on the library simpy, which is not part of the repository.  The operations
  that Sim.py calls are modelled after the library (version 4): \<open>Environment\<close> with
  \<open>schedule\<close>, \<open>step\<close>, \<open>run\<close>, \<open>process\<close> and \<open>timeout\<close>, and \<open>Resource\<close> with
  \<open>request\<close> and \<open>release\<close>.  A process is a Python generator; here it is named by the
  events that make it go on, and its local variables are kept in a frame.
\<close>

text \<open>
  \<open>Environment.schedule\<close> pushes (now + delay, priority, next event id, event) on a binary
  heap and \<open>Environment.step\<close> pops the least entry; the event ids are all different, so
  the least entry is the one with the least (time, priority, event id).  The heap is
  modelled as the list of its entries and the pop as the removal of the least one.
\<close>

definition URGENT :: nat where
  "URGENT = 0"

definition NORMAL :: nat where
  "NORMAL = 1"

definition clave :: "entrada \<Rightarrow> real \<times> nat \<times> nat" where
  "clave x = (fst x, fst (snd x), fst (snd (snd x)))"

definition evento_de :: "entrada \<Rightarrow> evento" where
  "evento_de x = snd (snd (snd x))"

definition schedule :: "evento \<Rightarrow> nat \<Rightarrow> real \<Rightarrow> estado \<Rightarrow> estado" where
  "schedule ev prioridad delay s =
     s\<lparr>env_queue := env_queue s @ [(env_now s + delay, prioridad, env_eid s, ev)],
       env_eid := Suc (env_eid s)\<rparr>"

definition heappop :: "entrada list \<Rightarrow> (entrada \<times> entrada list) option" where
  "heappop q =
     (if q = [] then None
      else Some (arg_min_list clave q, remove1 (arg_min_list clave q) q))"

text \<open>\<open>env.timeout(delay)\<close>: a negative delay raises ValueError.\<close>

definition timeout :: "proceso \<Rightarrow> real \<Rightarrow> estado \<Rightarrow> error + estado" where
  "timeout p delay s =
     (if delay < 0 then Inl ValueError else Inr (schedule (Timeout p) NORMAL delay s))"

text \<open>
  \<open>Resource._do_put\<close> on the request at the head of the queue: it is granted when a unit
  is free.  \<open>_trigger_put\<close> looks at the head only, since \<open>_do_put\<close> returns nothing;
  a granted request leaves the queue and its event is scheduled at the current time.
\<close>

definition do_put :: "recurso \<Rightarrow> (peticion \<times> recurso) option" where
  "do_put r =
     (case queue r of
        [] \<Rightarrow> None
      | q # resto \<Rightarrow>
          if length (users r) < capacity r
          then Some (q, r\<lparr>users := users r @ [q], queue := resto\<rparr>)
          else None)"

text \<open>
  Resources are referred to by their index in \<open>cajeros\<close>.  An index outside the list
  gives \<open>Referencia_colgada\<close>; so does a customer without a frame below.  Neither has a
  counterpart in Python, where the objects are held by reference.
\<close>

definition trigger_put :: "nat \<Rightarrow> estado \<Rightarrow> error + estado" where
  "trigger_put k s =
     (if length (cajeros s) \<le> k then Inl Referencia_colgada
      else case do_put (cajeros s ! k) of
             None \<Rightarrow> Inr s
           | Some (q, r) \<Rightarrow>
               Inr (schedule (Request q) NORMAL 0 (s\<lparr>cajeros := (cajeros s)[k := r]\<rparr>)))"

text \<open>\<open>resource.request()\<close>: the request joins the queue, then \<open>_trigger_put\<close> runs.\<close>

definition request :: "nat \<Rightarrow> peticion \<Rightarrow> estado \<Rightarrow> error + estado" where
  "request k q s =
     (if length (cajeros s) \<le> k then Inl Referencia_colgada
      else trigger_put k
             (s\<lparr>cajeros := (cajeros s)[k := (cajeros s ! k)\<lparr>queue := queue (cajeros s ! k) @ [q]\<rparr>]\<rparr>))"

text \<open>
  Leaving the \<open>with\<close> block calls \<open>resource.release(req)\<close>: the request leaves \<open>users\<close> at
  once (a request that is not there is ignored) and a Release event is scheduled, whose
  callback is \<open>_trigger_put\<close>.
\<close>

definition release :: "nat \<Rightarrow> peticion \<Rightarrow> estado \<Rightarrow> error + estado" where
  "release k q s =
     (if length (cajeros s) \<le> k then Inl Referencia_colgada
      else Inr (schedule (Release k) NORMAL 0
             (s\<lparr>cajeros := (cajeros s)[k := (cajeros s ! k)\<lparr>users := remove1 q (users (cajeros s ! k))\<rparr>]\<rparr>)))"

text \<open>\<open>simpy.Resource(env, capacity)\<close> raises ValueError unless the capacity is positive.\<close>

definition Resource :: "nat \<Rightarrow> error + recurso" where
  "Resource n = (if n \<le> 0 then Inl ValueError else Inr \<lparr>capacity = n, users = [], queue = []\<rparr>)"

subsection \<open>The customer routines (lines 56-64 and 70-79)\<close>

text \<open>Line 60 uses the shared resource; line 74 takes the first shortest queue.\<close>

definition elegir_cajero :: "rutina \<Rightarrow> estado \<Rightarrow> error + nat" where
  "elegir_cajero rut s =
     (case rut of
        Cola_unica \<Rightarrow> Inr 0
      | Colas_separadas \<Rightarrow>
          (case min_indice (map (\<lambda>r. length (queue r)) (cajeros s)) of
             None \<Rightarrow> Inl ValueError
           | Some k \<Rightarrow> Inr k))"

text \<open>From the start of the routine to the first \<open>yield req\<close>.\<close>

definition cliente_inicio :: "config \<Rightarrow> peticion \<Rightarrow> estado \<Rightarrow> error + estado" where
  "cliente_inicio cfg q s =
     (case random_py s of (r, s1) \<Rightarrow>
        ligar (elegir_cajero (fst q) s1) (\<lambda>k.
          request k q
            (s1\<lparr>marcos := (marcos s1)(snd q \<mapsto>
               \<lparr>llegada = env_now s, tipo = generar_tipo_transaccion (suma cfg) (TRANSACCIONES cfg) r,
                cajero = k, espera = None\<rparr>)\<rparr>)))"

text \<open>From the grant of the request to \<open>yield env.timeout(...)\<close>.\<close>

definition cliente_atendido :: "config \<Rightarrow> peticion \<Rightarrow> estado \<Rightarrow> error + estado" where
  "cliente_atendido cfg q s =
     (case marcos s (snd q) of
        None \<Rightarrow> Inl Referencia_colgada
      | Some m \<Rightarrow>
          ligar (generar_tiempo_servicio cfg (tipo m)
                  (s\<lparr>tiempos_espera := tiempos_espera s @ [env_now s - llegada m],
                     marcos := (marcos s)(snd q \<mapsto> m\<lparr>espera := Some (env_now s - llegada m)\<rparr>)\<rparr>))
            (\<lambda>(d, s2). timeout (Cliente (fst q) (snd q)) d s2))"

text \<open>
  After the service time: the \<open>with\<close> block releases the resource and the routine ends,
  which schedules the event of the process itself.
\<close>

definition cliente_salida :: "peticion \<Rightarrow> estado \<Rightarrow> error + estado" where
  "cliente_salida q s =
     (case marcos s (snd q) of
        None \<Rightarrow> Inl Referencia_colgada
      | Some m \<Rightarrow> ligar (release (cajero m) q s) (\<lambda>s1. Inr (schedule (Process q) NORMAL 0 s1)))"

subsection \<open>generador_clientes (lines 85-94)\<close>

definition generador_inicio :: "config \<Rightarrow> estado \<Rightarrow> error + estado" where
  "generador_inicio cfg s =
     ligar (generar_tiempo_llegada cfg (s\<lparr>gen_i := 0\<rparr>)) (\<lambda>(d, s1). timeout Generador d s1)"

text \<open>\<open>env.process(...)\<close> schedules the Initialize event of the new process, urgent, now.\<close>

definition lanzar_cliente :: "string \<Rightarrow> estado \<Rightarrow> estado" where
  "lanzar_cliente modo s =
     (if modo = ''cola_unica''
      then schedule (Initialize (Cliente Cola_unica (gen_i s))) URGENT 0 s
      else if modo = ''colas_separadas''
      then schedule (Initialize (Cliente Colas_separadas (gen_i s))) URGENT 0 s
      else s)"

definition generador_despierta :: "config \<Rightarrow> string \<Rightarrow> estado \<Rightarrow> error + estado" where
  "generador_despierta cfg modo s =
     ligar (generar_tiempo_llegada cfg (lanzar_cliente modo (s\<lparr>gen_i := gen_i s + 1\<rparr>)))
       (\<lambda>(d, s1). timeout Generador d s1)"

subsection \<open>Environment.step and Environment.run\<close>

text \<open>The callbacks of an event: the process that waits for it goes on.\<close>

fun despachar :: "config \<Rightarrow> string \<Rightarrow> evento \<Rightarrow> estado \<Rightarrow> error + estado" where
  "despachar cfg modo (Initialize Generador) s = generador_inicio cfg s"
| "despachar cfg modo (Initialize (Cliente rut c)) s = cliente_inicio cfg (rut, c) s"
| "despachar cfg modo (Timeout Generador) s = generador_despierta cfg modo s"
| "despachar cfg modo (Timeout (Cliente rut c)) s = cliente_salida (rut, c) s"
| "despachar cfg modo (Request q) s = cliente_atendido cfg q s"
| "despachar cfg modo (Release k) s = trigger_put k s"
| "despachar cfg modo (Process q) s = Inr s"
| "despachar cfg modo Until s = Inr s"

text \<open>
  One \<open>step\<close>: pop the least entry, set the clock to its time, run its callbacks.  The
  flag is True when the event is the one that \<open>run(until=...)\<close> scheduled, whose callback
  stops the simulation.  An empty heap raises EmptySchedule, which \<open>run\<close> turns into
  another error.
\<close>

definition paso :: "config \<Rightarrow> string \<Rightarrow> estado \<Rightarrow> error + bool \<times> estado" where
  "paso cfg modo s =
     (case heappop (env_queue s) of
        None \<Rightarrow> Inl RuntimeError
      | Some (m, resto) \<Rightarrow>
          if evento_de m = Until
          then Inr (True, s\<lparr>env_now := fst m, env_queue := resto\<rparr>)
          else ligar (despachar cfg modo (evento_de m) (s\<lparr>env_now := fst m, env_queue := resto\<rparr>))
                 (\<lambda>s1. Inr (False, s1)))"

text \<open>
  The loop \<open>while True: self.step()\<close> of \<open>run\<close>.  It may go on for ever, so it carries
  fuel: \<open>None\<close> means that the fuel ran out.
\<close>

fun correr :: "nat \<Rightarrow> config \<Rightarrow> string \<Rightarrow> estado \<Rightarrow> (error + estado) option" where
  "correr 0 cfg modo s = None"
| "correr (Suc n) cfg modo s =
     (case paso cfg modo s of
        Inl e \<Rightarrow> Some (Inl e)
      | Inr (parar, s1) \<Rightarrow> if parar then Some (Inr s1) else correr n cfg modo s1)"

subsection \<open>simular_banco (lines 100-123) and main (lines 129-140)\<close>

definition entorno :: "(nat \<Rightarrow> real) \<Rightarrow> nat \<Rightarrow> estado" where
  "entorno u k =
     \<lparr>env_now = 0, env_queue = [], env_eid = 0, cajeros = [], marcos = Map.empty, gen_i = 0,
      tiempos_espera = [], azar = u, extraidos = k\<rparr>"

text \<open>Lines 105-108.\<close>

definition crear_cajeros :: "config \<Rightarrow> string \<Rightarrow> error + recurso list" where
  "crear_cajeros cfg modo =
     (if modo = ''cola_unica''
      then ligar (Resource (NUM_CAJEROS cfg)) (\<lambda>r. Inr [r])
      else Inr (replicate (NUM_CAJEROS cfg) \<lparr>capacity = 1, users = [], queue = []\<rparr>))"

text \<open>
  Lines 102-110 and the head of \<open>env.run(until=TIEMPO_SIMULACION)\<close>: \<open>run\<close> raises
  ValueError unless the horizon is later than now, and schedules its stop event at the
  horizon with priority URGENT.
\<close>

definition preparar :: "config \<Rightarrow> string \<Rightarrow> (nat \<Rightarrow> real) \<Rightarrow> nat \<Rightarrow> error + estado" where
  "preparar cfg modo u k =
     ligar (crear_cajeros cfg modo) (\<lambda>cs.
       if TIEMPO_SIMULACION cfg \<le> 0 then Inl ValueError
       else Inr (schedule Until URGENT (TIEMPO_SIMULACION cfg)
                  (schedule (Initialize Generador) URGENT 0 ((entorno u k)\<lparr>cajeros := cs\<rparr>))))"

text \<open>Lines 102-111: the state when \<open>env.run\<close> returns.\<close>

definition ejecutar ::
  "nat \<Rightarrow> config \<Rightarrow> string \<Rightarrow> (nat \<Rightarrow> real) \<Rightarrow> nat \<Rightarrow> (error + estado) option" where
  "ejecutar n cfg modo u k =
     (case preparar cfg modo u k of Inl e \<Rightarrow> Some (Inl e) | Inr s \<Rightarrow> correr n cfg modo s)"

text \<open>The dictionary that lines 118-123 return.\<close>

record resultado =
  res_modo :: string
  res_clientes :: nat
  res_espera_promedio :: real
  res_espera_maxima :: real

definition estadisticas :: "string \<Rightarrow> real list \<Rightarrow> resultado" where
  "estadisticas modo ts =
     \<lparr>res_modo = modo, res_clientes = length ts,
      res_espera_promedio = (if ts \<noteq> [] then sum_list ts / real (length ts) else 0),
      res_espera_maxima = (if ts \<noteq> [] then Max (set ts) else 0)\<rparr>"

text \<open>
  \<open>simular_banco\<close> returns the dictionary; the position of the random stream after the
  run is returned with it, since the next call goes on from there.
\<close>

definition simular_banco ::
  "nat \<Rightarrow> config \<Rightarrow> string \<Rightarrow> (nat \<Rightarrow> real) \<Rightarrow> nat \<Rightarrow> (error + resultado \<times> nat) option" where
  "simular_banco n cfg modo u k =
     map_option (map_sum id (\<lambda>s. (estadisticas modo (tiempos_espera s), extraidos s)))
       (ejecutar n cfg modo u k)"

text \<open>
  \<open>main\<close> without the printing: \<open>random.seed(12345)\<close> fixes the stream \<open>u\<close>, then the two
  simulations run one after the other on it.
\<close>

definition principal ::
  "nat \<Rightarrow> config \<Rightarrow> (nat \<Rightarrow> real) \<Rightarrow> (error + resultado \<times> resultado) option" where
  "principal n cfg u =
     (case simular_banco n cfg ''cola_unica'' u 0 of
        None \<Rightarrow> None
      | Some (Inl e) \<Rightarrow> Some (Inl e)
      | Some (Inr (r1, k1)) \<Rightarrow>
          (case simular_banco n cfg ''colas_separadas'' u k1 of
             None \<Rightarrow> None
           | Some (Inl e) \<Rightarrow> Some (Inl e)
           | Some (Inr (r2, k2)) \<Rightarrow> Some (Inr (r1, r2))))"

subsection \<open>Invariants of a run\<close>

text \<open>
  The clock is between 0 and the horizon \<open>H\<close>, no pending entry lies in the past, every
  customer arrived between 0 and now, and every recorded wait is between 0 and \<open>H\<close>.
\<close>

definition inv_tiempo :: "real \<Rightarrow> estado \<Rightarrow> bool" where
  "inv_tiempo H s \<longleftrightarrow>
     0 \<le> env_now s \<and> env_now s \<le> H
     \<and> (\<forall>x \<in> set (env_queue s). env_now s \<le> fst x)
     \<and> (\<forall>c m. marcos s c = Some m \<longrightarrow> 0 \<le> llegada m \<and> llegada m \<le> env_now s)
     \<and> (\<forall>w \<in> set (tiempos_espera s). 0 \<le> w \<and> w \<le> H)"

text \<open>The stop event of \<open>run\<close> is pending, and only at the horizon.\<close>

definition inv_until :: "real \<Rightarrow> estado \<Rightarrow> bool" where
  "inv_until H s \<longleftrightarrow>
     (\<exists>x \<in> set (env_queue s). evento_de x = Until)
     \<and> (\<forall>x \<in> set (env_queue s). evento_de x = Until \<longrightarrow> fst x = H)"

text \<open>A stream whose first value makes the first arrival fall exactly on the horizon.\<close>

definition azar_horizonte :: "nat \<Rightarrow> real" where
  "azar_horizonte k = 1 - exp (- 1440)"

text \<open>
  A stream for a run with one customer: the first arrival after 20 seconds, the next one
  after the horizon, transaction type 0, a service of 45 seconds.
\<close>

definition azar_un_cliente :: "nat \<Rightarrow> real" where
  "azar_un_cliente k =
     (if k = 2 then 1 / 10 else if k = 1 then 1 - exp (- 2000) else 1 - exp (- 1))"

text \<open>
  A state with three tellers whose queues hold 2, 0 and 1 requests; the next random
  value is 0.1.
\<close>

definition estado_201 :: estado where
  "estado_201 =
     (entorno azar_un_cliente 2)\<lparr>cajeros :=
        [\<lparr>capacity = 1, users = [(Colas_separadas, 1)],
          queue = [(Colas_separadas, 2), (Colas_separadas, 3)]\<rparr>,
         \<lparr>capacity = 1, users = [(Colas_separadas, 4)], queue = []\<rparr>,
         \<lparr>capacity = 1, users = [(Colas_separadas, 5)], queue = [(Colas_separadas, 6)]\<rparr>]\<rparr>"

subsection \<open>Termination of a run\<close>

text \<open>
  A configuration as the source intends it, and a random stream whose values stay in
  \<open>[eps, 1)\<close> for some positive \<open>eps\<close>: \<open>random.random()\<close> returns values in \<open>[0, 1)\<close>,
  and a stream that returns 0 for ever would keep the clock at 0.
\<close>

definition config_valida :: "config \<Rightarrow> bool" where
  "config_valida cfg \<longleftrightarrow>
     0 < LAMBDA_HORA cfg \<and> 0 < NUM_CAJEROS cfg \<and> 0 < TIEMPO_SIMULACION cfg
     \<and> TRANSACCIONES cfg \<noteq> [] \<and> (\<forall>x \<in> set (TRANSACCIONES cfg). 0 < snd x)"

definition azar_valido :: "real \<Rightarrow> (nat \<Rightarrow> real) \<Rightarrow> bool" where
  "azar_valido eps u \<longleftrightarrow> 0 < eps \<and> (\<forall>k. eps \<le> u k \<and> u k < 1)"

text \<open>The value of \<open>expovariate(lambd)\<close> when \<open>random()\<close> returns \<open>v\<close>.\<close>

definition retardo :: "real \<Rightarrow> real \<Rightarrow> real" where
  "retardo lambd v = - ln (1 - v) / lambd"

text \<open>
  How many more times the generator can wake up before the horizon \<open>H\<close>, when its
  timeout is pending for time \<open>t\<close> and two arrivals are at least \<open>dmin\<close> apart.
\<close>

definition vueltas :: "real \<Rightarrow> real \<Rightarrow> real \<Rightarrow> nat" where
  "vueltas H dmin t = nat \<lceil>(H - t) / dmin\<rceil>"

text \<open>
  A bound on the number of steps that a pending event still causes: its own step and the
  steps of the events that its callbacks schedule.  A request in the queue of a teller
  counts as the event of its grant.  Every step but the last makes the sum smaller.
\<close>

fun peso_evento :: "nat \<Rightarrow> evento \<Rightarrow> nat" where
  "peso_evento v (Initialize Generador) = 2 + 6 * v"
| "peso_evento v (Timeout Generador) = 1 + 6 * v"
| "peso_evento v (Initialize (Cliente rut c)) = 5"
| "peso_evento v (Request q) = 4"
| "peso_evento v (Timeout (Cliente rut c)) = 3"
| "peso_evento v (Release k) = 1"
| "peso_evento v (Process q) = 1"
| "peso_evento v Until = 1"

definition peso :: "real \<Rightarrow> real \<Rightarrow> entrada \<Rightarrow> nat" where
  "peso H dmin x = peso_evento (vueltas H dmin (fst x)) (evento_de x)"

definition potencial :: "real \<Rightarrow> real \<Rightarrow> estado \<Rightarrow> nat" where
  "potencial H dmin s =
     sum_list (map (peso H dmin) (env_queue s))
     + 4 * sum_list (map (\<lambda>r. length (queue r)) (cajeros s))"

text \<open>
  The frame or the teller that an event refers to exists; stated for the whole state,
  this rules \<open>Referencia_colgada\<close> and the errors of Python out.
\<close>

fun ref_ok :: "estado \<Rightarrow> evento \<Rightarrow> bool" where
  "ref_ok s (Request q) = (marcos s (snd q) \<noteq> None)"
| "ref_ok s (Timeout (Cliente rut c)) = (marcos s c \<noteq> None)"
| "ref_ok s (Release k) = (k < length (cajeros s))"
| "ref_ok s ev = True"

definition inv_refs :: "config \<Rightarrow> real \<Rightarrow> estado \<Rightarrow> bool" where
  "inv_refs cfg eps s \<longleftrightarrow>
     cajeros s \<noteq> []
     \<and> (\<forall>k. eps \<le> azar s k \<and> azar s k < 1)
     \<and> (\<forall>c m. marcos s c = Some m \<longrightarrow>
           cajero m < length (cajeros s) \<and> 0 \<le> tipo m \<and> tipo m < int (length (TRANSACCIONES cfg)))
     \<and> (\<forall>x \<in> set (env_queue s). ref_ok s (evento_de x))
     \<and> (\<forall>r \<in> set (cajeros s). \<forall>q \<in> set (queue r). marcos s (snd q) \<noteq> None)"

text \<open>The priority with which each kind of event is scheduled.\<close>

fun prioridad_de :: "evento \<Rightarrow> nat" where
  "prioridad_de (Initialize p) = URGENT"
| "prioridad_de Until = URGENT"
| "prioridad_de ev = NORMAL"

definition inv_prio :: "real \<Rightarrow> estado \<Rightarrow> bool" where
  "inv_prio H s \<longleftrightarrow>
     (\<exists>x \<in> set (env_queue s). evento_de x = Until \<and> fst x = H)
     \<and> (\<forall>x \<in> set (env_queue s). fst (snd x) = prioridad_de (evento_de x))"

text \<open>A mode that is neither of the two: nothing but the generator ever runs.\<close>

definition inv_sin_clientes :: "estado \<Rightarrow> bool" where
  "inv_sin_clientes s \<longleftrightarrow>
     tiempos_espera s = [] \<and> marcos s = Map.empty
     \<and> (\<forall>x \<in> set (env_queue s).
           evento_de x = Initialize Generador \<or> evento_de x = Timeout Generador
           \<or> evento_de x = Until)"

text \<open>
  Two streams for the mode \<open>colas_separadas\<close>, three customers each.  With the first the
  second customer waits 70 seconds, with the second the third customer does.
\<close>

definition x_a :: "nat \<Rightarrow> real" where
  "x_a k = (if k = 0 then 1 else if k = 1 then 1 else if k = 3 then 2 else if k = 4 then 10
            else if k = 6 then 1 else if k = 7 then 2000 else 1)"

definition azar_a :: "nat \<Rightarrow> real" where
  "azar_a k = (if k = 2 \<or> k = 5 \<or> k = 8 then 1 / 10 else 1 - exp (- x_a k))"

definition x_b :: "nat \<Rightarrow> real" where
  "x_b k = (if k = 0 then 1 else if k = 1 then 3 else if k = 3 then 1 else if k = 4 then 1
            else if k = 6 then 2 else if k = 7 then 2000 else 1)"

definition azar_b :: "nat \<Rightarrow> real" where
  "azar_b k = (if k = 2 \<or> k = 5 \<or> k = 8 then 1 / 10 else 1 - exp (- x_b k))"

text \<open>A stream that agrees with \<open>azar_a\<close> on its first ten values only.\<close>

definition azar_a2 :: "nat \<Rightarrow> real" where
  "azar_a2 k = (if k < 10 then azar_a k else 1 / 20)"

text \<open>
  The events whose callbacks take a value from the random stream: the start of a
  routine (lines 58, 72 and 89), the wake-up of the generator (line 89) and the grant of
  a request (lines 64 and 79).
\<close>

fun extrae :: "evento \<Rightarrow> bool" where
  "extrae (Initialize p) = True"
| "extrae (Timeout Generador) = True"
| "extrae (Timeout (Cliente rut c)) = False"
| "extrae (Request q) = True"
| "extrae (Release k) = False"
| "extrae (Process q) = False"
| "extrae Until = False"

subsection \<open>One sample for each grant\<close>

text \<open>
  An event that carries a customer towards its grant: the start of its routine, or the
  event of its request.
\<close>

fun toca :: "nat \<Rightarrow> evento \<Rightarrow> bool" where
  "toca c (Initialize (Cliente rut c')) = (c' = c)"
| "toca c (Request q) = (snd q = c)"
| "toca c ev = False"

text \<open>
  How many times customer \<open>c\<close> is on its way to a grant: in the heap, or in the queue
  of a teller.
\<close>

definition pend :: "estado \<Rightarrow> nat \<Rightarrow> nat" where
  "pend s c =
     length (filter (\<lambda>x. toca c (evento_de x)) (env_queue s))
     + sum_list (map (\<lambda>r. length (filter (\<lambda>q. snd q = c) (queue r))) (cajeros s))"

text \<open>The routine of customer \<open>c\<close> has passed line 62 (or 77).\<close>

definition tiene_espera :: "estado \<Rightarrow> nat \<Rightarrow> bool" where
  "tiene_espera s c = (case marcos s c of None \<Rightarrow> False | Some m \<Rightarrow> espera m \<noteq> None)"

definition fichas :: "estado \<Rightarrow> nat \<Rightarrow> nat" where
  "fichas s c = pend s c + (if tiene_espera s c then 1 else 0)"

text \<open>
  The waits of the customers that obtained their grant, one for each of them: the
  customers are numbered from 1 to \<open>gen_i\<close>.
\<close>

definition aporta :: "estado \<Rightarrow> nat \<Rightarrow> real multiset" where
  "aporta s c =
     (case marcos s c of
        None \<Rightarrow> {#}
      | Some m \<Rightarrow> (case espera m of None \<Rightarrow> {#} | Some w \<Rightarrow> {#w#}))"

definition esperas_registradas :: "estado \<Rightarrow> real multiset" where
  "esperas_registradas s = (\<Sum>c \<in> {..gen_i s}. aporta s c)"

definition inv_fichas :: "estado \<Rightarrow> bool" where
  "inv_fichas s \<longleftrightarrow>
     (\<forall>x \<in> set (env_queue s). evento_de x \<noteq> Initialize Generador)
     \<and> (\<forall>c. fichas s c \<le> 1)
     \<and> (\<forall>c. gen_i s < c \<longrightarrow> fichas s c = 0)
     \<and> mset (tiempos_espera s) = esperas_registradas s"

section \<open>The categorical draw\<close>

lemma recorrer_tabla_None:
  "recorrer_tabla mas r acum i t = None \<longleftrightarrow>
     (\<forall>k < length t. foldl mas acum (map fst (take (Suc k) t)) < r)"
proof (induction t arbitrary: acum i)
  case Nil
  show ?case by simp
next
  case (Cons x t)
  obtain p m where x: "x = (p, m)" by (cases x)
  show ?case
  proof (cases "r \<le> mas acum p")
    case True
    then have "\<not> (foldl mas acum (map fst (take (Suc 0) (x # t))) < r)"
      by (simp add: x)
    then show ?thesis using True x by auto
  next
    case False
    have "(\<forall>k < length (x # t). foldl mas acum (map fst (take (Suc k) (x # t))) < r) \<longleftrightarrow>
          (\<forall>k < length t. foldl mas (mas acum p) (map fst (take (Suc k) t)) < r)"
      (is "?L \<longleftrightarrow> ?R")
    proof
      assume l: ?L
      show ?R
      proof (intro allI impI)
        fix k assume "k < length t"
        then have "Suc k < length (x # t)" by simp
        from l [rule_format, OF this]
        show "foldl mas (mas acum p) (map fst (take (Suc k) t)) < r"
          by (simp add: x)
      qed
    next
      assume rr: ?R
      show ?L
      proof (intro allI impI)
        fix k assume k: "k < length (x # t)"
        show "foldl mas acum (map fst (take (Suc k) (x # t))) < r"
        proof (cases k)
          case 0
          then show ?thesis using False by (simp add: x)
        next
          case (Suc j)
          then have "j < length t" using k by simp
          from rr [rule_format, OF this] show ?thesis by (simp add: x Suc)
        qed
      qed
    qed
    then show ?thesis using False x Cons.IH [of "mas acum p" "i + 1"] by simp
  qed
qed

lemma recorrer_tabla_Some:
  "recorrer_tabla mas r acum i t = Some j \<Longrightarrow>
     \<exists>k < length t. j = i + int k \<and> r \<le> foldl mas acum (map fst (take (Suc k) t)) \<and>
        (\<forall>l < k. foldl mas acum (map fst (take (Suc l) t)) < r)"
proof (induction t arbitrary: acum i)
  case Nil
  then show ?case by simp
next
  case (Cons x t)
  obtain p m where x: "x = (p, m)" by (cases x)
  show ?case
  proof (cases "r \<le> mas acum p")
    case True
    then have "j = i" using Cons.prems x by simp
    then show ?thesis using True x by (intro exI [of _ 0]) simp
  next
    case False
    then have "recorrer_tabla mas r (mas acum p) (i + 1) t = Some j" using Cons.prems x by simp
    from Cons.IH [OF this] obtain k where k: "k < length t" "j = i + 1 + int k"
      "r \<le> foldl mas (mas acum p) (map fst (take (Suc k) t))"
      "\<forall>l < k. foldl mas (mas acum p) (map fst (take (Suc l) t)) < r" by blast
    have "\<forall>l < Suc k. foldl mas acum (map fst (take (Suc l) (x # t))) < r"
    proof (intro allI impI)
      fix l assume l: "l < Suc k"
      show "foldl mas acum (map fst (take (Suc l) (x # t))) < r"
      proof (cases l)
        case 0
        then show ?thesis using False by (simp add: x)
      next
        case (Suc l')
        then have "l' < k" using l by simp
        with k(4) show ?thesis by (simp add: x Suc)
      qed
    qed
    with k(1,2,3) show ?thesis
      by (intro exI [of _ "Suc k"]) (simp add: x)
  qed
qed

lemma generar_tipo_primero:
  assumes "k < length t" and "r \<le> acumulada mas t k" and "\<forall>j < k. acumulada mas t j < r"
  shows "generar_tipo_transaccion mas t r = int k"
proof (cases "recorrer_tabla mas r 0 0 t")
  case None
  then have "acumulada mas t k < r"
    using assms(1) by (simp add: recorrer_tabla_None acumulada_def)
  with assms(2) show ?thesis by simp
next
  case (Some j)
  from recorrer_tabla_Some [OF Some] obtain k' where k': "k' < length t" "j = int k'"
    "r \<le> acumulada mas t k'" "\<forall>l < k'. acumulada mas t l < r" by (auto simp: acumulada_def)
  have "k' = k"
  proof (rule ccontr)
    assume "k' \<noteq> k"
    then consider "k' < k" | "k < k'" by arith
    then show False
    proof cases
      case 1 with assms(3) k'(3) show False by fastforce
    next
      case 2 with k'(4) assms(2) show False by fastforce
    qed
  qed
  then show ?thesis using Some k'(2) by (simp add: generar_tipo_transaccion_def)
qed

text \<open>Rounded values stay within one part in 1000 of the values they stand for.\<close>

lemma cerca_cotas:
  assumes "cerca x y" "lo \<le> y" "y \<le> hi" "0 \<le> lo"
  shows "lo * (999 / 1000) \<le> x" "x \<le> hi * (1001 / 1000)"
proof -
  have y: "0 \<le> y" using assms(2,4) by simp
  with assms(1) have a: "\<bar>x - y\<bar> \<le> y / 1000" by (simp add: cerca_def)
  from a have "y * (999 / 1000) \<le> x" "x \<le> y * (1001 / 1000)" by linarith+
  moreover have "lo * (999 / 1000) \<le> y * (999 / 1000)" "y * (1001 / 1000) \<le> hi * (1001 / 1000)"
    using assms(2,3) by simp_all
  ultimately show "lo * (999 / 1000) \<le> x" "x \<le> hi * (1001 / 1000)" by linarith+
qed

text \<open>
  The running sums of a table that is close to the table of the source, with an addition
  that rounds.
\<close>

lemma sumas_fuente:
  assumes "suma_redondeada mas" "tabla_cerca t (TRANSACCIONES config_fuente)"
  shows "\<exists>p0 m0 p1 m1 p2 m2 p3 m3.
           t = [(p0, m0), (p1, m1), (p2, m2), (p3, m3)]
           \<and> 148 / 1000 \<le> mas 0 p0 \<and> mas 0 p0 \<le> 152 / 1000
           \<and> 436 / 1000 \<le> mas (mas 0 p0) p1 \<and> mas (mas 0 p0) p1 \<le> 444 / 1000
           \<and> 754 / 1000 \<le> mas (mas (mas 0 p0) p1) p2
           \<and> mas (mas (mas 0 p0) p1) p2 \<le> 766 / 1000"
proof -
  from assms(2) obtain p0 m0 p1 m1 p2 m2 p3 m3 where
    t: "t = [(p0, m0), (p1, m1), (p2, m2), (p3, m3)]"
    and c: "cerca p0 (15 / 100)" "cerca p1 (29 / 100)" "cerca p2 (32 / 100)"
    by (auto simp: tabla_cerca_def config_fuente_def list_all2_Cons2)
  have r: "cerca (mas a b) (a + b)" for a b using assms(1) by (simp add: suma_redondeada_def)
  from cerca_cotas [OF c(1), of "15 / 100" "15 / 100"]
  have p0: "149 / 1000 \<le> p0" "p0 \<le> 151 / 1000" by simp_all
  from cerca_cotas [OF c(2), of "29 / 100" "29 / 100"]
  have p1: "289 / 1000 \<le> p1" "p1 \<le> 291 / 1000" by simp_all
  from cerca_cotas [OF c(3), of "32 / 100" "32 / 100"]
  have p2: "319 / 1000 \<le> p2" "p2 \<le> 321 / 1000" by simp_all
  from cerca_cotas [OF r [of 0 p0], of "149 / 1000" "151 / 1000"] p0
  have a1: "148 / 1000 \<le> mas 0 p0" "mas 0 p0 \<le> 152 / 1000" by simp_all
  have "437 / 1000 \<le> mas 0 p0 + p1" "mas 0 p0 + p1 \<le> 443 / 1000" using a1 p1 by simp_all
  from cerca_cotas [OF r [of "mas 0 p0" p1] this]
  have a2: "436 / 1000 \<le> mas (mas 0 p0) p1" "mas (mas 0 p0) p1 \<le> 444 / 1000" by simp_all
  have "755 / 1000 \<le> mas (mas 0 p0) p1 + p2" "mas (mas 0 p0) p1 + p2 \<le> 765 / 1000"
    using a2 p2 by simp_all
  from cerca_cotas [OF r [of "mas (mas 0 p0) p1" p2] this]
  have a3: "754 / 1000 \<le> mas (mas (mas 0 p0) p1) p2"
    "mas (mas (mas 0 p0) p1) p2 \<le> 766 / 1000" by simp_all
  from t a1 a2 a3 show ?thesis by blast
qed

lemma generar_tipo_fuente:
  assumes "suma_redondeada mas" "tabla_cerca t (TRANSACCIONES config_fuente)"
  shows "cerca r (10 / 100) \<Longrightarrow> generar_tipo_transaccion mas t r = 0"
    "cerca r (20 / 100) \<Longrightarrow> generar_tipo_transaccion mas t r = 1"
    "cerca r (99 / 100) \<Longrightarrow> generar_tipo_transaccion mas t r = 3"
proof -
  from sumas_fuente [OF assms] obtain p0 m0 p1 m1 p2 m2 p3 m3 where
    t: "t = [(p0, m0), (p1, m1), (p2, m2), (p3, m3)]"
    and a: "148 / 1000 \<le> mas 0 p0" "mas 0 p0 \<le> 152 / 1000"
      "436 / 1000 \<le> mas (mas 0 p0) p1" "mas (mas 0 p0) p1 \<le> 444 / 1000"
      "754 / 1000 \<le> mas (mas (mas 0 p0) p1) p2" "mas (mas (mas 0 p0) p1) p2 \<le> 766 / 1000"
    by blast
  show "generar_tipo_transaccion mas t r = 0" if "cerca r (10 / 100)"
  proof -
    from cerca_cotas [OF that, of "10 / 100" "10 / 100"] have "r \<le> 101 / 1000" by simp
    with a show ?thesis by (simp add: generar_tipo_transaccion_def t)
  qed
  show "generar_tipo_transaccion mas t r = 1" if "cerca r (20 / 100)"
  proof -
    from cerca_cotas [OF that, of "20 / 100" "20 / 100"]
    have "199 / 1000 \<le> r" "r \<le> 201 / 1000" by simp_all
    with a show ?thesis by (simp add: generar_tipo_transaccion_def t)
  qed
  show "generar_tipo_transaccion mas t r = 3" if "cerca r (99 / 100)"
  proof -
    from cerca_cotas [OF that, of "99 / 100" "99 / 100"] have "989 / 1000 \<le> r" by simp
    with a show ?thesis by (simp add: generar_tipo_transaccion_def t)
  qed
qed

text \<open>
  C3.  The draw returns the first index whose cumulative probability, as the loop
  computes it with the addition of the machine, is at least the drawn value \<open>r\<close>.  On the
  table of the source, \<open>r = 0.10\<close> gives index 0, \<open>r = 0.20\<close> gives index 1 and \<open>r = 0.99\<close>
  gives index 3: this holds for every addition, every table and every \<open>r\<close> within a
  relative error of 1/1000 of the exact sum, of the table of the source and of the
  decimal value, so for the doubles too.
\<close>

theorem C3_generar_tipo_transaccion:
  "(\<forall>mas t r k. k < length t \<and> r \<le> acumulada mas t k \<and> (\<forall>j < k. acumulada mas t j < r)
       \<longrightarrow> generar_tipo_transaccion mas t r = int k)
   \<and> (\<forall>mas t r. suma_redondeada mas \<and> tabla_cerca t (TRANSACCIONES config_fuente)
         \<and> cerca r 0.10 \<longrightarrow> generar_tipo_transaccion mas t r = 0)
   \<and> (\<forall>mas t r. suma_redondeada mas \<and> tabla_cerca t (TRANSACCIONES config_fuente)
         \<and> cerca r 0.20 \<longrightarrow> generar_tipo_transaccion mas t r = 1)
   \<and> (\<forall>mas t r. suma_redondeada mas \<and> tabla_cerca t (TRANSACCIONES config_fuente)
         \<and> cerca r 0.99 \<longrightarrow> generar_tipo_transaccion mas t r = 3)"
proof (intro conjI allI impI)
  fix mas t r k
  assume "k < length t \<and> r \<le> acumulada mas t k \<and> (\<forall>j < k. acumulada mas t j < r)"
  then show "generar_tipo_transaccion mas t r = int k" by (simp add: generar_tipo_primero)
next
  fix mas t r
  assume "suma_redondeada mas \<and> tabla_cerca t (TRANSACCIONES config_fuente) \<and> cerca r 0.10"
  then show "generar_tipo_transaccion mas t r = 0" using generar_tipo_fuente(1) by simp
next
  fix mas t r
  assume "suma_redondeada mas \<and> tabla_cerca t (TRANSACCIONES config_fuente) \<and> cerca r 0.20"
  then show "generar_tipo_transaccion mas t r = 1" using generar_tipo_fuente(2) by simp
next
  fix mas t r
  assume "suma_redondeada mas \<and> tabla_cerca t (TRANSACCIONES config_fuente) \<and> cerca r 0.99"
  then show "generar_tipo_transaccion mas t r = 3" using generar_tipo_fuente(3) by simp
qed

lemma suma_inexacta_redondeada: "suma_redondeada suma_inexacta"
  by (simp add: suma_redondeada_def cerca_def suma_inexacta_def abs_mult field_simps)

lemma tabla_fuente_cerca: "tabla_cerca (TRANSACCIONES config_fuente) (TRANSACCIONES config_fuente)"
  by (simp add: tabla_cerca_def config_fuente_def cerca_def)

lemma suma_exacta_redondeada: "suma_redondeada (+)"
  by (simp add: suma_redondeada_def cerca_def)

theorem C3_generar_tipo_transaccion_witness:
  "suma_redondeada suma_inexacta \<and> suma_redondeada (+)
   \<and> suma_inexacta 0.15 0.29 \<noteq> 0.15 + 0.29
   \<and> tabla_cerca (TRANSACCIONES config_fuente) (TRANSACCIONES config_fuente)
   \<and> cerca 0.1 0.10 \<and> cerca 0.2001 0.20 \<and> cerca 0.99 0.99
   \<and> (1::nat) < length (TRANSACCIONES config_fuente)
   \<and> (0.2001::real) \<le> acumulada suma_inexacta (TRANSACCIONES config_fuente) 1
   \<and> acumulada suma_inexacta (TRANSACCIONES config_fuente) 0 < 0.2001
   \<and> generar_tipo_transaccion suma_inexacta (TRANSACCIONES config_fuente) 0.1 = 0
   \<and> generar_tipo_transaccion suma_inexacta (TRANSACCIONES config_fuente) 0.2001 = 1
   \<and> generar_tipo_transaccion suma_inexacta (TRANSACCIONES config_fuente) 0.99 = 3
   \<and> generar_tipo_transaccion (+) (TRANSACCIONES config_fuente) 0.10 = 0
   \<and> generar_tipo_transaccion (+) (TRANSACCIONES config_fuente) 0.20 = 1
   \<and> generar_tipo_transaccion (+) (TRANSACCIONES config_fuente) 0.99 = 3"
proof -
  have c: "cerca 0.1 0.10" "cerca 0.2001 0.20" "cerca 0.99 0.99" "cerca 0.20 0.20"
    "cerca 0.10 0.10"
    by (simp_all add: cerca_def)
  have d: "suma_inexacta 0.15 0.29 \<noteq> 0.15 + 0.29" by (simp add: suma_inexacta_def)
  have h: "(1::nat) < length (TRANSACCIONES config_fuente)
     \<and> (0.2001::real) \<le> acumulada suma_inexacta (TRANSACCIONES config_fuente) 1
     \<and> (\<forall>j < 1. acumulada suma_inexacta (TRANSACCIONES config_fuente) j < 0.2001)"
    by (simp add: config_fuente_def acumulada_def suma_inexacta_def)
  note t0 = C3_generar_tipo_transaccion [THEN conjunct2, THEN conjunct1, rule_format]
  note t1 = C3_generar_tipo_transaccion [THEN conjunct2, THEN conjunct2, THEN conjunct1,
      rule_format]
  note t3 = C3_generar_tipo_transaccion [THEN conjunct2, THEN conjunct2, THEN conjunct2,
      rule_format]
  note i = conjI [OF suma_inexacta_redondeada conjI [OF tabla_fuente_cerca]]
  note e = conjI [OF suma_exacta_redondeada conjI [OF tabla_fuente_cerca]]
  have "generar_tipo_transaccion suma_inexacta (TRANSACCIONES config_fuente) 0.1 = 0"
    by (rule t0 [OF i [OF c(1)]])
  moreover
  have "generar_tipo_transaccion suma_inexacta (TRANSACCIONES config_fuente) 0.2001 = 1"
    by (rule t1 [OF i [OF c(2)]])
  moreover
  have "generar_tipo_transaccion suma_inexacta (TRANSACCIONES config_fuente) 0.99 = 3"
    by (rule t3 [OF i [OF c(3)]])
  moreover
  have "generar_tipo_transaccion (+) (TRANSACCIONES config_fuente) 0.10 = 0"
    by (rule t0 [OF e [OF c(5)]])
  moreover
  have "generar_tipo_transaccion (+) (TRANSACCIONES config_fuente) 0.20 = 1"
    by (rule t1 [OF e [OF c(4)]])
  moreover
  have "generar_tipo_transaccion (+) (TRANSACCIONES config_fuente) 0.99 = 3"
    by (rule t3 [OF e [OF c(3)]])
  ultimately show ?thesis
    using suma_inexacta_redondeada suma_exacta_redondeada tabla_fuente_cerca c d h by simp
qed

text \<open>
  C7.  The loop runs through the whole table exactly when no cumulative probability, as
  the loop computes it, reaches \<open>r\<close>; the draw then returns \<open>len(TRANSACCIONES) - 1\<close> and
  raises nothing, and on a table that is not empty this is the index of the last entry.
  This is so for every addition of the machine: with one that rounds down, a table whose
  probabilities sum to 1 is exhausted by a value of \<open>r\<close> below 1.
\<close>

theorem C7_generar_tipo_ultimo:
  "(recorrer_tabla mas r 0 0 t = None \<longleftrightarrow> (\<forall>k < length t. acumulada mas t k < r))
   \<and> (recorrer_tabla mas r 0 0 t = None
        \<longrightarrow> generar_tipo_transaccion mas t r = int (length t) - 1
          \<and> (t \<noteq> [] \<longrightarrow> generar_tipo_transaccion mas t r = int (length t - 1)))"
proof (intro conjI impI)
  show "recorrer_tabla mas r 0 0 t = None \<longleftrightarrow> (\<forall>k < length t. acumulada mas t k < r)"
    by (simp add: recorrer_tabla_None acumulada_def)
  assume n: "recorrer_tabla mas r 0 0 t = None"
  then show a: "generar_tipo_transaccion mas t r = int (length t) - 1"
    by (simp add: generar_tipo_transaccion_def)
  assume "t \<noteq> []"
  then have b: "int (length t) - 1 = int (length t - 1)" by (cases t) simp_all
  from a b show "generar_tipo_transaccion mas t r = int (length t - 1)" by (rule trans)
qed

theorem C7_generar_tipo_ultimo_witness:
  "acumulada suma_truncada tabla_tercios 0 = 0.33
   \<and> acumulada suma_truncada tabla_tercios 1 = 0.66
   \<and> acumulada suma_truncada tabla_tercios 2 = 0.99
   \<and> sum_list (map fst tabla_tercios) = 1
   \<and> length tabla_tercios = 3
   \<and> recorrer_tabla suma_truncada 0.995 0 0 tabla_tercios = None
   \<and> generar_tipo_transaccion suma_truncada tabla_tercios 0.995 = 2"
proof -
  have a: "acumulada suma_truncada tabla_tercios 0 = 0.33"
    "acumulada suma_truncada tabla_tercios 1 = 0.66"
    "acumulada suma_truncada tabla_tercios 2 = 0.99"
    by (simp_all add: acumulada_def tabla_tercios_def suma_truncada_def)
  have l: "length tabla_tercios = 3" by (simp add: tabla_tercios_def)
  have h: "\<forall>k < length tabla_tercios. acumulada suma_truncada tabla_tercios k < 0.995"
  proof (intro allI impI)
    fix k assume "k < length tabla_tercios"
    then have "k = 0 \<or> k = 1 \<or> k = 2" using l by arith
    then show "acumulada suma_truncada tabla_tercios k < 0.995" using a by auto
  qed
  have s: "sum_list (map fst tabla_tercios) = 1" by (simp add: tabla_tercios_def)
  note c = C7_generar_tipo_ultimo [of suma_truncada "0.995" tabla_tercios]
  from c [THEN conjunct1] h
  have n: "recorrer_tabla suma_truncada 0.995 0 0 tabla_tercios = None" by (rule iffD2)
  from c [THEN conjunct2, THEN mp, OF n]
  have "generar_tipo_transaccion suma_truncada tabla_tercios 0.995 = int (length tabla_tercios) - 1"
    by (rule conjunct1)
  with a l s n show ?thesis by simp
qed

section \<open>Effects of the routines\<close>

lemma ligar_simps [simp]: "ligar (Inl e) f = Inl e" "ligar (Inr v) f = f v"
  by (simp_all add: ligar_def)

lemma ligar_Inr: "ligar x f = Inr y \<longleftrightarrow> (\<exists>v. x = Inr v \<and> f v = Inr y)"
  by (cases x) simp_all

lemma heappop_Some:
  assumes "heappop q = Some (m, resto)"
  shows "m \<in> set q" "resto = remove1 m q" "\<forall>x \<in> set q. clave m \<le> clave x"
proof -
  from assms have q: "q \<noteq> []" and m: "m = arg_min_list clave q" and r: "resto = remove1 m q"
    by (auto simp: heappop_def split: if_splits)
  show "m \<in> set q" using q m by (simp add: arg_min_list_in)
  show "resto = remove1 m q" by (rule r)
  have "clave m = Min (clave ` set q)" using q m by (simp add: f_arg_min_list_f)
  then show "\<forall>x \<in> set q. clave m \<le> clave x" by simp
qed

lemma heappop_None: "heappop q = None \<longleftrightarrow> q = []"
  by (simp add: heappop_def)

lemma clave_fst: "clave m \<le> clave x \<Longrightarrow> fst m \<le> fst x"
  by (auto simp: clave_def)

lemma evento_de_simp [simp]: "evento_de (t, p, e, ev) = ev"
  by (simp add: evento_de_def)

lemma schedule_campos [simp]:
  "env_now (schedule ev p d s) = env_now s"
  "env_queue (schedule ev p d s) = env_queue s @ [(env_now s + d, p, env_eid s, ev)]"
  "env_eid (schedule ev p d s) = Suc (env_eid s)"
  "cajeros (schedule ev p d s) = cajeros s"
  "marcos (schedule ev p d s) = marcos s"
  "gen_i (schedule ev p d s) = gen_i s"
  "tiempos_espera (schedule ev p d s) = tiempos_espera s"
  "azar (schedule ev p d s) = azar s"
  "extraidos (schedule ev p d s) = extraidos s"
  by (simp_all add: schedule_def)

lemma expovariate_Inr:
  assumes "expovariate lambd s = Inr (d, s1)"
  shows "s1 = s\<lparr>extraidos := Suc (extraidos s)\<rparr>" "azar s (extraidos s) < 1" "lambd \<noteq> 0"
    "d = - ln (1 - azar s (extraidos s)) / lambd"
  using assms by (auto simp: expovariate_def random_py_def split: if_splits)

lemma timeout_Inr:
  assumes "timeout p d s = Inr s1"
  shows "0 \<le> d" "s1 = schedule (Timeout p) NORMAL d s"
  using assms by (auto simp: timeout_def split: if_splits)

text \<open>A timed wait: one draw, then a timeout.\<close>

lemma espera_temporizada:
  assumes "ligar (expovariate lambd s) (\<lambda>(d, s1). timeout p d s1) = Inr s'"
  shows "\<exists>d. 0 \<le> d \<and> lambd \<noteq> 0 \<and> azar s (extraidos s) < 1
           \<and> d = - ln (1 - azar s (extraidos s)) / lambd
           \<and> s' = schedule (Timeout p) NORMAL d (s\<lparr>extraidos := Suc (extraidos s)\<rparr>)"
proof -
  from assms obtain d s1 where e: "expovariate lambd s = Inr (d, s1)" and t: "timeout p d s1 = Inr s'"
    by (auto simp: ligar_Inr)
  from expovariate_Inr [OF e] timeout_Inr [OF t] show ?thesis by blast
qed

lemma generador_inicio_Inr:
  assumes "generador_inicio cfg s = Inr s'"
  shows "\<exists>d. 0 \<le> d \<and> LAMBDA cfg \<noteq> 0 \<and> azar s (extraidos s) < 1
           \<and> d = - ln (1 - azar s (extraidos s)) / LAMBDA cfg
           \<and> s' = schedule (Timeout Generador) NORMAL d (s\<lparr>gen_i := 0, extraidos := Suc (extraidos s)\<rparr>)"
  using espera_temporizada [of "LAMBDA cfg" "s\<lparr>gen_i := 0\<rparr>" Generador s'] assms
  by (simp add: generador_inicio_def generar_tiempo_llegada_def)

lemma lanzar_cliente_campos [simp]:
  "env_now (lanzar_cliente modo s) = env_now s"
  "cajeros (lanzar_cliente modo s) = cajeros s"
  "marcos (lanzar_cliente modo s) = marcos s"
  "gen_i (lanzar_cliente modo s) = gen_i s"
  "tiempos_espera (lanzar_cliente modo s) = tiempos_espera s"
  "azar (lanzar_cliente modo s) = azar s"
  "extraidos (lanzar_cliente modo s) = extraidos s"
  by (simp_all add: lanzar_cliente_def)

lemma lanzar_cliente_cola:
  "\<exists>nuevas. env_queue (lanzar_cliente modo s) = env_queue s @ nuevas
     \<and> (\<forall>x \<in> set nuevas. fst x = env_now s \<and> (\<exists>rut. evento_de x = Initialize (Cliente rut (gen_i s))))"
  by (simp add: lanzar_cliente_def)

lemma generador_despierta_Inr:
  assumes "generador_despierta cfg modo s = Inr s'"
  shows "\<exists>d. 0 \<le> d \<and> LAMBDA cfg \<noteq> 0 \<and> azar s (extraidos s) < 1
           \<and> d = - ln (1 - azar s (extraidos s)) / LAMBDA cfg
           \<and> s' = schedule (Timeout Generador) NORMAL d
                   ((lanzar_cliente modo (s\<lparr>gen_i := gen_i s + 1\<rparr>))\<lparr>extraidos := Suc (extraidos s)\<rparr>)"
  using espera_temporizada [of "LAMBDA cfg" "lanzar_cliente modo (s\<lparr>gen_i := gen_i s + 1\<rparr>)" Generador s'] assms
  by (simp add: generador_despierta_def generar_tiempo_llegada_def)

lemma do_put_Some:
  assumes "do_put r = Some (q, r')"
  shows "\<exists>resto. queue r = q # resto \<and> length (users r) < capacity r
           \<and> r' = r\<lparr>users := users r @ [q], queue := resto\<rparr>"
  using assms by (auto simp: do_put_def split: list.splits if_splits)

lemma trigger_put_Inr:
  assumes "trigger_put k s = Inr s'"
  shows "k < length (cajeros s)"
    "(do_put (cajeros s ! k) = None \<and> s' = s) \<or>
     (\<exists>q r. do_put (cajeros s ! k) = Some (q, r)
        \<and> s' = schedule (Request q) NORMAL 0 (s\<lparr>cajeros := (cajeros s)[k := r]\<rparr>))"
  using assms by (auto simp: trigger_put_def split: if_splits option.splits)

lemma cliente_inicio_Inr:
  assumes "cliente_inicio cfg q s = Inr s'"
  shows "\<exists>k. elegir_cajero (fst q) s = Inr k \<and> k < length (cajeros s)
           \<and> trigger_put k
               (s\<lparr>extraidos := Suc (extraidos s),
                  marcos := (marcos s)(snd q \<mapsto>
                    \<lparr>llegada = env_now s,
                     tipo = generar_tipo_transaccion (suma cfg) (TRANSACCIONES cfg) (azar s (extraidos s)),
                     cajero = k, espera = None\<rparr>),
                  cajeros := (cajeros s)[k := (cajeros s ! k)\<lparr>queue := queue (cajeros s ! k) @ [q]\<rparr>]\<rparr>)
               = Inr s'"
  using assms
  by (auto simp: cliente_inicio_def random_py_def ligar_Inr request_def elegir_cajero_def
      split: if_splits rutina.splits option.splits)

lemma cliente_atendido_Inr:
  assumes "cliente_atendido cfg q s = Inr s'"
  shows "\<exists>m d. marcos s (snd q) = Some m \<and> 0 \<le> d
           \<and> s' = schedule (Timeout (Cliente (fst q) (snd q))) NORMAL d
                   (s\<lparr>tiempos_espera := tiempos_espera s @ [env_now s - llegada m],
                      marcos := (marcos s)(snd q \<mapsto> m\<lparr>espera := Some (env_now s - llegada m)\<rparr>),
                      extraidos := Suc (extraidos s)\<rparr>)"
proof -
  from assms obtain m where m: "marcos s (snd q) = Some m"
    by (auto simp: cliente_atendido_def split: option.splits)
  let ?s1 = "s\<lparr>tiempos_espera := tiempos_espera s @ [env_now s - llegada m],
                marcos := (marcos s)(snd q \<mapsto> m\<lparr>espera := Some (env_now s - llegada m)\<rparr>)\<rparr>"
  from assms m obtain p media where
    "ligar (expovariate (1 / media) ?s1) (\<lambda>(d, s2). timeout (Cliente (fst q) (snd q)) d s2) = Inr s'"
    by (auto simp: cliente_atendido_def generar_tiempo_servicio_def ligar_Inr split: if_splits)
  from espera_temporizada [OF this] obtain d where "0 \<le> d"
    "s' = schedule (Timeout (Cliente (fst q) (snd q))) NORMAL d (?s1\<lparr>extraidos := Suc (extraidos ?s1)\<rparr>)"
    by blast
  with m show ?thesis by (intro exI [of _ m] exI [of _ d]) simp
qed

lemma cliente_salida_Inr:
  assumes "cliente_salida q s = Inr s'"
  shows "\<exists>m. marcos s (snd q) = Some m \<and> cajero m < length (cajeros s)
           \<and> s' = schedule (Process q) NORMAL 0 (schedule (Release (cajero m)) NORMAL 0
                   (s\<lparr>cajeros := (cajeros s)[cajero m :=
                        (cajeros s ! cajero m)\<lparr>users := remove1 q (users (cajeros s ! cajero m))\<rparr>]\<rparr>))"
  using assms
  by (auto simp: cliente_salida_def release_def ligar_Inr split: option.splits if_splits)

lemma paso_Inr:
  assumes "paso cfg modo s = Inr (parar, s')"
  shows "\<exists>m. m \<in> set (env_queue s) \<and> (\<forall>x \<in> set (env_queue s). clave m \<le> clave x)
           \<and> (if evento_de m = Until
               then parar \<and> s' = s\<lparr>env_now := fst m, env_queue := remove1 m (env_queue s)\<rparr>
               else \<not> parar \<and> despachar cfg modo (evento_de m)
                      (s\<lparr>env_now := fst m, env_queue := remove1 m (env_queue s)\<rparr>) = Inr s')"
proof -
  from assms obtain m resto where h: "heappop (env_queue s) = Some (m, resto)"
    by (auto simp: paso_def split: option.splits)
  from heappop_Some [OF h] assms h show ?thesis
    by (intro exI [of _ m]) (auto simp: paso_def ligar_Inr split: if_splits)
qed

text \<open>What the callbacks of one event do to the clock and to the heap.\<close>

lemma despachar_cola:
  assumes "despachar cfg modo ev s = Inr s'"
  shows "env_now s' = env_now s
     \<and> (\<exists>nuevas. env_queue s' = env_queue s @ nuevas
          \<and> (\<forall>x \<in> set nuevas. env_now s \<le> fst x \<and> evento_de x \<noteq> Until))"
proof (cases "(cfg, modo, ev, s)" rule: despachar.cases)
  case (1 cfg' modo' s0)
  with assms have "generador_inicio cfg s = Inr s'" by simp
  from generador_inicio_Inr [OF this] show ?thesis by auto
next
  case (2 cfg' modo' rut c s0)
  with assms have "cliente_inicio cfg (rut, c) s = Inr s'" by simp
  from cliente_inicio_Inr [OF this] obtain k where
    t: "trigger_put k
               (s\<lparr>extraidos := Suc (extraidos s),
                  marcos := (marcos s)(c \<mapsto>
                    \<lparr>llegada = env_now s,
                     tipo = generar_tipo_transaccion (suma cfg) (TRANSACCIONES cfg) (azar s (extraidos s)),
                     cajero = k, espera = None\<rparr>),
                  cajeros := (cajeros s)[k := (cajeros s ! k)\<lparr>queue := queue (cajeros s ! k) @ [(rut, c)]\<rparr>]\<rparr>)
               = Inr s'" by auto
  from trigger_put_Inr(2) [OF t] show ?thesis by auto
next
  case (3 cfg' modo' s0)
  with assms have "generador_despierta cfg modo s = Inr s'" by simp
  from generador_despierta_Inr [OF this] obtain d where d: "0 \<le> d"
    and s': "s' = schedule (Timeout Generador) NORMAL d
                   ((lanzar_cliente modo (s\<lparr>gen_i := gen_i s + 1\<rparr>))\<lparr>extraidos := Suc (extraidos s)\<rparr>)"
    by blast
  from lanzar_cliente_cola [of modo "s\<lparr>gen_i := gen_i s + 1\<rparr>"] obtain nuevas where
    n: "env_queue (lanzar_cliente modo (s\<lparr>gen_i := gen_i s + 1\<rparr>)) = env_queue s @ nuevas"
       "\<forall>x \<in> set nuevas. fst x = env_now s \<and> (\<exists>rut. evento_de x = Initialize (Cliente rut (gen_i s + 1)))"
    by auto
  show ?thesis using d n unfolding s'
    by (auto intro!: exI [of _ "nuevas @ [(env_now s + d, NORMAL, env_eid (lanzar_cliente modo (s\<lparr>gen_i := gen_i s + 1\<rparr>)), Timeout Generador)]"])
next
  case (4 cfg' modo' rut c s0)
  with assms have "cliente_salida (rut, c) s = Inr s'" by simp
  from cliente_salida_Inr [OF this] show ?thesis by auto
next
  case (5 cfg' modo' q s0)
  with assms have "cliente_atendido cfg q s = Inr s'" by simp
  from cliente_atendido_Inr [OF this] show ?thesis by auto
next
  case (6 cfg' modo' k s0)
  with assms have "trigger_put k s = Inr s'" by simp
  from trigger_put_Inr(2) [OF this] show ?thesis by auto
next
  case 7 with assms show ?thesis by simp
next
  case 8 with assms show ?thesis by simp
qed

section \<open>Time bounds\<close>

lemma trigger_put_inv_tiempo:
  assumes "inv_tiempo H s" "trigger_put k s = Inr s'"
  shows "inv_tiempo H s'"
  using trigger_put_Inr [OF assms(2)] assms(1) by (fastforce simp: inv_tiempo_def)

lemma despachar_inv_tiempo:
  assumes "inv_tiempo H s" "despachar cfg modo ev s = Inr s'"
  shows "inv_tiempo H s'"
proof (cases "(cfg, modo, ev, s)" rule: despachar.cases)
  case (1 cfg' modo' s0)
  with assms(2) have "generador_inicio cfg s = Inr s'" by simp
  from generador_inicio_Inr [OF this] assms(1) show ?thesis by (fastforce simp: inv_tiempo_def)
next
  case (2 cfg' modo' rut c s0)
  with assms(2) have "cliente_inicio cfg (rut, c) s = Inr s'" by simp
  from cliente_inicio_Inr [OF this] obtain k s1 where
    s1: "s1 = s\<lparr>extraidos := Suc (extraidos s),
                  marcos := (marcos s)(c \<mapsto>
                    \<lparr>llegada = env_now s,
                     tipo = generar_tipo_transaccion (suma cfg) (TRANSACCIONES cfg) (azar s (extraidos s)),
                     cajero = k, espera = None\<rparr>),
                  cajeros := (cajeros s)[k := (cajeros s ! k)\<lparr>queue := queue (cajeros s ! k) @ [(rut, c)]\<rparr>]\<rparr>"
    and t: "trigger_put k s1 = Inr s'" by auto
  have "inv_tiempo H s1" using assms(1) by (simp add: s1 inv_tiempo_def)
  then show ?thesis using t by (rule trigger_put_inv_tiempo)
next
  case (3 cfg' modo' s0)
  with assms(2) have d: "despachar cfg modo (Timeout Generador) s = Inr s'"
    and "generador_despierta cfg modo s = Inr s'" by simp_all
  from generador_despierta_Inr [OF this(2)] have
    "marcos s' = marcos s" "tiempos_espera s' = tiempos_espera s" by auto
  with despachar_cola [OF d] assms(1) show ?thesis by (fastforce simp: inv_tiempo_def)
next
  case (4 cfg' modo' rut c s0)
  with assms(2) have "cliente_salida (rut, c) s = Inr s'" by simp
  from cliente_salida_Inr [OF this] assms(1) show ?thesis by (fastforce simp: inv_tiempo_def)
next
  case (5 cfg' modo' q s0)
  with assms(2) have "cliente_atendido cfg q s = Inr s'" by simp
  from cliente_atendido_Inr [OF this] assms(1) show ?thesis
    by (fastforce simp: inv_tiempo_def)
next
  case (6 cfg' modo' k s0)
  with assms show ?thesis by (simp add: trigger_put_inv_tiempo)
next
  case 7 with assms show ?thesis by simp
next
  case 8 with assms show ?thesis by simp
qed

lemma despachar_inv_until:
  assumes "inv_until H s" "despachar cfg modo ev s = Inr s'"
  shows "inv_until H s'"
  using despachar_cola [OF assms(2)] assms(1) by (fastforce simp: inv_until_def)

text \<open>The state after the pop of the least entry.\<close>

lemma extraer_inv_tiempo:
  assumes "inv_tiempo H s" "inv_until H s" "m \<in> set (env_queue s)"
    "\<forall>x \<in> set (env_queue s). clave m \<le> clave x"
  shows "inv_tiempo H (s\<lparr>env_now := fst m, env_queue := remove1 m (env_queue s)\<rparr>)"
proof -
  from assms(2) obtain x where x: "x \<in> set (env_queue s)" "fst x = H"
    by (auto simp: inv_until_def)
  with assms(4) have mH: "fst m \<le> H" using clave_fst by blast
  have now: "env_now s \<le> fst m" using assms(1,3) by (simp add: inv_tiempo_def)
  have "\<forall>y \<in> set (remove1 m (env_queue s)). fst m \<le> fst y"
    using assms(4) clave_fst by (meson notin_set_remove1)
  with assms(1) mH now show ?thesis by (fastforce simp: inv_tiempo_def)
qed

lemma extraer_inv_until:
  assumes "inv_until H s" "m \<in> set (env_queue s)" "evento_de m \<noteq> Until"
  shows "inv_until H (s\<lparr>env_now := t, env_queue := remove1 m (env_queue s)\<rparr>)"
proof -
  from assms(1) obtain x where x: "x \<in> set (env_queue s)" "evento_de x = Until"
    by (auto simp: inv_until_def)
  with assms(3) have "x \<noteq> m" by auto
  with x have "x \<in> set (remove1 m (env_queue s))" by simp
  moreover have "\<forall>y \<in> set (remove1 m (env_queue s)). evento_de y = Until \<longrightarrow> fst y = H"
    using assms(1) by (meson inv_until_def notin_set_remove1)
  ultimately show ?thesis using x(2) by (auto simp: inv_until_def)
qed

lemma paso_inv:
  assumes "inv_tiempo H s" "inv_until H s" "paso cfg modo s = Inr (parar, s')"
  shows "inv_tiempo H s'" "\<not> parar \<Longrightarrow> inv_until H s'" "parar \<Longrightarrow> env_now s' = H"
proof -
  from paso_Inr [OF assms(3)] obtain m where m: "m \<in> set (env_queue s)"
    "\<forall>x \<in> set (env_queue s). clave m \<le> clave x"
    and c: "if evento_de m = Until
            then parar \<and> s' = s\<lparr>env_now := fst m, env_queue := remove1 m (env_queue s)\<rparr>
            else \<not> parar \<and> despachar cfg modo (evento_de m)
                   (s\<lparr>env_now := fst m, env_queue := remove1 m (env_queue s)\<rparr>) = Inr s'"
    by blast
  have e: "inv_tiempo H (s\<lparr>env_now := fst m, env_queue := remove1 m (env_queue s)\<rparr>)"
    using assms(1,2) m by (rule extraer_inv_tiempo)
  show "inv_tiempo H s'"
    using c e despachar_inv_tiempo by (auto split: if_splits)
  show "inv_until H s'" if "\<not> parar"
  proof -
    from c that have u: "evento_de m \<noteq> Until"
      and d: "despachar cfg modo (evento_de m)
                   (s\<lparr>env_now := fst m, env_queue := remove1 m (env_queue s)\<rparr>) = Inr s'"
      by (auto split: if_splits)
    from extraer_inv_until [OF assms(2) m(1) u] d show ?thesis by (rule despachar_inv_until)
  qed
  show "env_now s' = H" if "parar"
    using c that m(1) assms(2) by (auto simp: inv_until_def split: if_splits)
qed

lemma correr_inv:
  assumes "correr n cfg modo s = Some (Inr s')" "inv_tiempo H s" "inv_until H s"
  shows "inv_tiempo H s' \<and> env_now s' = H"
  using assms
proof (induction n arbitrary: s)
  case 0
  then show ?case by simp
next
  case (Suc n)
  from Suc.prems(1) obtain parar s1 where p: "paso cfg modo s = Inr (parar, s1)"
    by (auto split: sum.splits)
  show ?case
  proof (cases parar)
    case True
    with p Suc.prems(1) have "s' = s1" by simp
    with paso_inv(1,3) [OF Suc.prems(2,3) p] True show ?thesis by simp
  next
    case False
    with p Suc.prems(1) have "correr n cfg modo s1 = Some (Inr s')" by simp
    from Suc.IH [OF this paso_inv(1) [OF Suc.prems(2,3) p] paso_inv(2) [OF Suc.prems(2,3) p False]]
    show ?thesis .
  qed
qed

lemma preparar_inv:
  assumes "preparar cfg modo u k = Inr s"
  shows "inv_tiempo (TIEMPO_SIMULACION cfg) s" "inv_until (TIEMPO_SIMULACION cfg) s"
  using assms
  by (auto simp: preparar_def ligar_Inr entorno_def inv_tiempo_def inv_until_def split: if_splits)

lemma ejecutar_inv:
  assumes "ejecutar n cfg modo u k = Some (Inr s)"
  shows "inv_tiempo (TIEMPO_SIMULACION cfg) s" "env_now s = TIEMPO_SIMULACION cfg"
proof -
  from assms obtain s0 where p: "preparar cfg modo u k = Inr s0"
    and c: "correr n cfg modo s0 = Some (Inr s)"
    by (auto simp: ejecutar_def split: sum.splits)
  from correr_inv [OF c preparar_inv [OF p]]
  show "inv_tiempo (TIEMPO_SIMULACION cfg) s" "env_now s = TIEMPO_SIMULACION cfg" by simp_all
qed

text \<open>
  C8.  Every wait recorded by a run that returns is at least 0 and at most the horizon.
\<close>

theorem C8_esperas_acotadas:
  assumes "ejecutar n cfg modo u k = Some (Inr s)"
  shows "\<forall>w \<in> set (tiempos_espera s). 0 \<le> w \<and> w \<le> TIEMPO_SIMULACION cfg"
  using ejecutar_inv(1) [OF assms] by (simp add: inv_tiempo_def)

section \<open>Concrete runs\<close>

lemma expovariate_exp:
  "azar s (extraidos s) = 1 - exp (- x) \<Longrightarrow> lambd \<noteq> 0 \<Longrightarrow>
   expovariate lambd s = Inr (x / lambd, s\<lparr>extraidos := Suc (extraidos s)\<rparr>)"
  by (simp add: expovariate_def random_py_def)

lemmas evaluar =
  ejecutar_def preparar_def crear_cajeros_def Resource_def entorno_def schedule_def
  config_fuente_def paso_def heappop_def clave_def URGENT_def NORMAL_def
  generador_inicio_def generador_despierta_def lanzar_cliente_def generar_tiempo_llegada_def
  LAMBDA_def timeout_def cliente_inicio_def cliente_atendido_def cliente_salida_def
  elegir_cajero_def request_def trigger_put_def do_put_def release_def random_py_def
  generar_tipo_transaccion_def generar_tiempo_servicio_def indice_def min_indice_def
  expovariate_exp numeral_eq_Suc

lemma corrida_un_cliente:
  "\<exists>s. ejecutar 9 config_fuente ''cola_unica'' azar_un_cliente 0 = Some (Inr s)
     \<and> tiempos_espera s = [0] \<and> env_now s = 28800
     \<and> env_queue s = [(40020, NORMAL, 4, Timeout Generador)]"
  by (simp add: evaluar azar_un_cliente_def)

lemma corrida_horizonte:
  "\<exists>s. ejecutar 2 config_fuente modo azar_horizonte k = Some (Inr s)
     \<and> tiempos_espera s = [] \<and> env_now s = 28800 \<and> gen_i s = 0 \<and> extraidos s = Suc k
     \<and> env_queue s = [(28800, NORMAL, 2, Timeout Generador)]"
  by (simp add: evaluar azar_horizonte_def)

theorem C8_esperas_acotadas_witness:
  "map_option (map_sum id tiempos_espera)
     (ejecutar 9 config_fuente ''cola_unica'' azar_un_cliente 0) = Some (Inr [0])
   \<and> (0::real) \<le> 0 \<and> (0::real) \<le> TIEMPO_SIMULACION config_fuente"
proof -
  from corrida_un_cliente obtain s where
    r: "ejecutar 9 config_fuente ''cola_unica'' azar_un_cliente 0 = Some (Inr s)"
    and t: "tiempos_espera s = [0]" by blast
  from C8_esperas_acotadas [OF r] t show ?thesis using r by simp
qed

section \<open>The loop of run\<close>

lemma despachar_now: "despachar cfg modo ev s = Inr s' \<Longrightarrow> env_now s' = env_now s"
  by (simp add: despachar_cola)

lemma paso_orden:
  assumes "paso cfg modo s = Inr (parar, s1)"
  shows "\<exists>m \<in> set (env_queue s). (\<forall>x \<in> set (env_queue s). clave m \<le> clave x)
           \<and> env_now s1 = fst m \<and> (parar \<longleftrightarrow> evento_de m = Until)
           \<and> (parar \<longrightarrow> env_queue s1 = remove1 m (env_queue s))
           \<and> (\<not> parar \<longrightarrow> despachar cfg modo (evento_de m)
                 (s\<lparr>env_now := fst m, env_queue := remove1 m (env_queue s)\<rparr>) = Inr s1)"
proof -
  from paso_Inr [OF assms] obtain m where m: "m \<in> set (env_queue s)"
    "\<forall>x \<in> set (env_queue s). clave m \<le> clave x"
    and c: "if evento_de m = Until
            then parar \<and> s1 = s\<lparr>env_now := fst m, env_queue := remove1 m (env_queue s)\<rparr>
            else \<not> parar \<and> despachar cfg modo (evento_de m)
                   (s\<lparr>env_now := fst m, env_queue := remove1 m (env_queue s)\<rparr>) = Inr s1"
    by blast
  show ?thesis
  proof (cases "evento_de m = Until")
    case True
    with c m show ?thesis by (intro bexI [of _ m]) simp_all
  next
    case False
    with c have d: "despachar cfg modo (evento_de m)
                   (s\<lparr>env_now := fst m, env_queue := remove1 m (env_queue s)\<rparr>) = Inr s1"
      and np: "\<not> parar" by simp_all
    from despachar_now [OF d] have "env_now s1 = fst m" by simp
    with False d np m show ?thesis by (intro bexI [of _ m]) simp_all
  qed
qed

lemma preparar_cola:
  assumes "preparar cfg modo u k = Inr s0"
  shows "env_queue s0 = [(0, URGENT, 0, Initialize Generador),
                         (TIEMPO_SIMULACION cfg, URGENT, 1, Until)]"
  using assms by (auto simp: preparar_def ligar_Inr entorno_def split: if_splits)

section \<open>The summary\<close>

text \<open>
  C9.  When the run ends with no recorded wait, the dictionary has 0 customers, mean 0
  and maximum 0.
\<close>

theorem C9_resumen_vacio:
  assumes "ejecutar n cfg modo u k = Some (Inr s)" and "tiempos_espera s = []"
  shows "simular_banco n cfg modo u k =
           Some (Inr (\<lparr>res_modo = modo, res_clientes = 0, res_espera_promedio = 0,
                       res_espera_maxima = 0\<rparr>, extraidos s))"
  using assms by (simp add: simular_banco_def estadisticas_def)

theorem C9_resumen_vacio_witness:
  "simular_banco 2 config_fuente ''cola_unica'' azar_horizonte 0 =
     Some (Inr (\<lparr>res_modo = ''cola_unica'', res_clientes = 0, res_espera_promedio = 0,
                 res_espera_maxima = 0\<rparr>, 1))"
proof -
  from corrida_horizonte [of "''cola_unica''" 0] obtain s where
    r: "ejecutar 2 config_fuente ''cola_unica'' azar_horizonte 0 = Some (Inr s)"
    and t: "tiempos_espera s = []" and e: "extraidos s = Suc 0" by blast
  from C9_resumen_vacio [OF r t] e show ?thesis by simp
qed

section \<open>Independence of the number of steps\<close>

lemma correr_mas:
  "correr n cfg modo s = Some r \<Longrightarrow> correr (n + j) cfg modo s = Some r"
proof (induction n arbitrary: s)
  case 0
  then show ?case by simp
next
  case (Suc n)
  then show ?case by (auto split: sum.splits prod.splits if_splits)
qed

lemma correr_unico:
  assumes "correr n cfg modo s = Some r1" "correr n' cfg modo s = Some r2"
  shows "r1 = r2"
proof -
  from correr_mas [OF assms(1), of n'] correr_mas [OF assms(2), of n]
  show ?thesis by (simp add: add.commute)
qed

lemma ejecutar_unico:
  assumes "ejecutar n cfg modo u k = Some r1" "ejecutar n' cfg modo u k = Some r2"
  shows "r1 = r2"
  using assms by (auto simp: ejecutar_def split: sum.splits dest: correr_unico)

lemma simular_banco_unico:
  assumes "simular_banco n cfg modo u k = Some r1" "simular_banco n' cfg modo u k = Some r2"
  shows "r1 = r2"
proof -
  from assms obtain e1 e2 where e: "ejecutar n cfg modo u k = Some e1"
    "ejecutar n' cfg modo u k = Some e2"
    and r: "r1 = map_sum id (\<lambda>s. (estadisticas modo (tiempos_espera s), extraidos s)) e1"
      "r2 = map_sum id (\<lambda>s. (estadisticas modo (tiempos_espera s), extraidos s)) e2"
    by (auto simp: simular_banco_def)
  from ejecutar_unico [OF e] r show ?thesis by simp
qed

lemma principal_unico:
  assumes "principal n cfg u = Some p1" "principal n' cfg u = Some p2"
  shows "p1 = p2"
proof -
  from assms(1) obtain a where a: "simular_banco n cfg ''cola_unica'' u 0 = Some a"
    by (auto simp: principal_def split: option.splits)
  from assms(2) obtain a' where a': "simular_banco n' cfg ''cola_unica'' u 0 = Some a'"
    by (auto simp: principal_def split: option.splits)
  from simular_banco_unico [OF a a'] have aa: "a' = a" by simp
  show ?thesis
  proof (cases a)
    case (Inl e)
    with a a' aa assms show ?thesis by (simp add: principal_def)
  next
    case (Inr v)
    obtain r1 k1 where v: "v = (r1, k1)" by (cases v)
    from assms(1) a Inr v obtain b where
      b: "simular_banco n cfg ''colas_separadas'' u k1 = Some b"
      by (auto simp: principal_def split: option.splits)
    from assms(2) a' aa Inr v obtain b' where
      b': "simular_banco n' cfg ''colas_separadas'' u k1 = Some b'"
      by (auto simp: principal_def split: option.splits)
    from simular_banco_unico [OF b b'] have "b' = b" by simp
    with assms a a' aa Inr v b b' show ?thesis
      by (auto simp: principal_def split: sum.splits)
  qed
qed

section \<open>Routing to the shortest queue\<close>

lemma min_desde_spec:
  assumes "length pre = j" "b < j" "kb = (pre @ ks) ! b"
    "\<forall>l < j. kb \<le> (pre @ ks) ! l" "\<forall>l < b. kb < (pre @ ks) ! l"
  shows "min_desde b kb j ks < length (pre @ ks)
     \<and> (\<forall>l < length (pre @ ks). (pre @ ks) ! (min_desde b kb j ks) \<le> (pre @ ks) ! l)
     \<and> (\<forall>l < min_desde b kb j ks. (pre @ ks) ! (min_desde b kb j ks) < (pre @ ks) ! l)"
  using assms
proof (induction ks arbitrary: b kb j pre)
  case Nil
  then show ?case by simp
next
  case (Cons k ks)
  have eq: "pre @ k # ks = (pre @ [k]) @ ks" by simp
  have kj: "(pre @ k # ks) ! j = k" using Cons.prems(1) by (simp add: nth_append)
  show ?case
  proof (cases "k < kb")
    case True
    have 1: "length (pre @ [k]) = Suc j" using Cons.prems(1) by simp
    have 2: "k = ((pre @ [k]) @ ks) ! j" using kj by simp
    have 3: "\<forall>l < Suc j. k \<le> ((pre @ [k]) @ ks) ! l"
    proof (intro allI impI)
      fix l assume "l < Suc j"
      then consider "l < j" | "l = j" by arith
      then show "k \<le> ((pre @ [k]) @ ks) ! l"
      proof cases
        case 1 with Cons.prems(4) True show ?thesis by fastforce
      next
        case 2 then show ?thesis using kj by simp
      qed
    qed
    have 4: "\<forall>l < j. k < ((pre @ [k]) @ ks) ! l"
      using Cons.prems(4) True by fastforce
    from Cons.IH [OF 1 _ 2 3 4] True show ?thesis by (simp del: append_assoc add: eq)
  next
    case False
    have 1: "length (pre @ [k]) = Suc j" using Cons.prems(1) by simp
    have 2: "b < Suc j" using Cons.prems(2) by simp
    have 3: "kb = ((pre @ [k]) @ ks) ! b" using Cons.prems(3) by simp
    have 4: "\<forall>l < Suc j. kb \<le> ((pre @ [k]) @ ks) ! l"
    proof (intro allI impI)
      fix l assume "l < Suc j"
      then consider "l < j" | "l = j" by arith
      then show "kb \<le> ((pre @ [k]) @ ks) ! l"
      proof cases
        case 1 with Cons.prems(4) show ?thesis by simp
      next
        case 2 then show ?thesis using kj False by simp
      qed
    qed
    have 5: "\<forall>l < b. kb < ((pre @ [k]) @ ks) ! l" using Cons.prems(5) by simp
    from Cons.IH [OF 1 2 3 4 5] False show ?thesis by (simp del: append_assoc add: eq)
  qed
qed

lemma min_indice_spec:
  assumes "min_indice ks = Some i"
  shows "i < length ks \<and> (\<forall>l < length ks. ks ! i \<le> ks ! l) \<and> (\<forall>l < i. ks ! i < ks ! l)"
proof (cases ks)
  case Nil
  with assms show ?thesis by (simp add: min_indice_def)
next
  case (Cons k resto)
  then have i: "i = min_desde 0 k 1 resto" using assms by (simp add: min_indice_def)
  have "min_desde 0 k 1 resto < length ([k] @ resto)
     \<and> (\<forall>l < length ([k] @ resto). ([k] @ resto) ! (min_desde 0 k 1 resto) \<le> ([k] @ resto) ! l)
     \<and> (\<forall>l < min_desde 0 k 1 resto. ([k] @ resto) ! (min_desde 0 k 1 resto) < ([k] @ resto) ! l)"
    by (rule min_desde_spec) simp_all
  then show ?thesis using i Cons by simp
qed

lemma elegir_cajero_separadas:
  assumes "elegir_cajero Colas_separadas s = Inr k"
  shows "k < length (cajeros s)"
    "\<forall>j < length (cajeros s). length (queue (cajeros s ! k)) \<le> length (queue (cajeros s ! j))"
    "\<forall>j < k. length (queue (cajeros s ! k)) < length (queue (cajeros s ! j))"
proof -
  from assms have m: "min_indice (map (\<lambda>r. length (queue r)) (cajeros s)) = Some k"
    by (auto simp: elegir_cajero_def split: option.splits)
  from min_indice_spec [OF m] show "k < length (cajeros s)"
    "\<forall>j < length (cajeros s). length (queue (cajeros s ! k)) \<le> length (queue (cajeros s ! j))"
    "\<forall>j < k. length (queue (cajeros s ! k)) < length (queue (cajeros s ! j))"
    by auto
qed

lemma request_destino:
  assumes "k < length (cajeros s)"
    "trigger_put k (s\<lparr>cajeros := (cajeros s)[k := (cajeros s ! k)\<lparr>queue := queue (cajeros s ! k) @ [q]\<rparr>]\<rparr>) = Inr s'"
  shows "q \<in> set (queue (cajeros s' ! k)) \<or> q \<in> set (users (cajeros s' ! k))"
proof -
  let ?s1 = "s\<lparr>cajeros := (cajeros s)[k := (cajeros s ! k)\<lparr>queue := queue (cajeros s ! k) @ [q]\<rparr>]\<rparr>"
  have q1: "queue (cajeros ?s1 ! k) = queue (cajeros s ! k) @ [q]" using assms(1) by simp
  from trigger_put_Inr(2) [OF assms(2)] show ?thesis
  proof
    assume "do_put (cajeros ?s1 ! k) = None \<and> s' = ?s1"
    then show ?thesis using q1 by simp
  next
    assume "\<exists>p r. do_put (cajeros ?s1 ! k) = Some (p, r)
        \<and> s' = schedule (Request p) NORMAL 0 (?s1\<lparr>cajeros := (cajeros ?s1)[k := r]\<rparr>)"
    then obtain p r where d: "do_put (cajeros ?s1 ! k) = Some (p, r)"
      and s': "s' = schedule (Request p) NORMAL 0 (?s1\<lparr>cajeros := (cajeros ?s1)[k := r]\<rparr>)"
      by blast
    from do_put_Some [OF d] obtain resto where
      r: "queue (cajeros ?s1 ! k) = p # resto"
         "r = (cajeros ?s1 ! k)\<lparr>users := users (cajeros ?s1 ! k) @ [p], queue := resto\<rparr>"
      by blast
    from r(1) q1 have "q = p \<or> q \<in> set resto"
      by (metis in_set_conv_decomp set_ConsD)
    moreover have "cajeros s' ! k = r" using assms(1) by (simp add: s')
    ultimately show ?thesis using r(2) by auto
  qed
qed

lemma despachar_cajero_fijo:
  assumes "despachar cfg modo ev s = Inr s'" "\<forall>rut. ev \<noteq> Initialize (Cliente rut c)"
    "marcos s c = Some m"
  shows "\<exists>m'. marcos s' c = Some m' \<and> cajero m' = cajero m \<and> llegada m' = llegada m"
proof (cases "(cfg, modo, ev, s)" rule: despachar.cases)
  case (1 cfg' modo' s0)
  with assms have "generador_inicio cfg s = Inr s'" by simp
  from generador_inicio_Inr [OF this] assms(3) show ?thesis by auto
next
  case (2 cfg' modo' rut c' s0)
  with assms have c: "c' \<noteq> c" and "cliente_inicio cfg (rut, c') s = Inr s'" by auto
  from cliente_inicio_Inr [OF this(2)] obtain k where
    t: "trigger_put k
               (s\<lparr>extraidos := Suc (extraidos s),
                  marcos := (marcos s)(c' \<mapsto>
                    \<lparr>llegada = env_now s,
                     tipo = generar_tipo_transaccion (suma cfg) (TRANSACCIONES cfg) (azar s (extraidos s)),
                     cajero = k, espera = None\<rparr>),
                  cajeros := (cajeros s)[k := (cajeros s ! k)\<lparr>queue := queue (cajeros s ! k) @ [(rut, c')]\<rparr>]\<rparr>)
               = Inr s'" by auto
  from trigger_put_Inr(2) [OF t] c assms(3) show ?thesis by auto
next
  case (3 cfg' modo' s0)
  with assms have "generador_despierta cfg modo s = Inr s'" by simp
  from generador_despierta_Inr [OF this] assms(3) show ?thesis by auto
next
  case (4 cfg' modo' rut c' s0)
  with assms have "cliente_salida (rut, c') s = Inr s'" by simp
  from cliente_salida_Inr [OF this] assms(3) show ?thesis by auto
next
  case (5 cfg' modo' q s0)
  with assms have "cliente_atendido cfg q s = Inr s'" by simp
  from cliente_atendido_Inr [OF this] assms(3) show ?thesis by (cases "snd q = c") auto
next
  case (6 cfg' modo' k s0)
  with assms have "trigger_put k s = Inr s'" by simp
  from trigger_put_Inr(2) [OF this] assms(3) show ?thesis by auto
next
  case 7 with assms show ?thesis by simp
next
  case 8 with assms show ?thesis by simp
qed

lemma cliente_inicio_separadas:
  assumes "cliente_inicio cfg (Colas_separadas, c) s = Inr s'"
  shows "\<exists>k m. k < length (cajeros s)
      \<and> (\<forall>j < length (cajeros s). length (queue (cajeros s ! k)) \<le> length (queue (cajeros s ! j)))
      \<and> (\<forall>j < k. length (queue (cajeros s ! k)) < length (queue (cajeros s ! j)))
      \<and> marcos s' c = Some m \<and> cajero m = k \<and> llegada m = env_now s
      \<and> ((Colas_separadas, c) \<in> set (queue (cajeros s' ! k))
          \<or> (Colas_separadas, c) \<in> set (users (cajeros s' ! k)))"
proof -
  from cliente_inicio_Inr [OF assms] obtain k where
    e: "elegir_cajero Colas_separadas s = Inr k" and
    t: "trigger_put k
               (s\<lparr>extraidos := Suc (extraidos s),
                  marcos := (marcos s)(c \<mapsto>
                    \<lparr>llegada = env_now s,
                     tipo = generar_tipo_transaccion (suma cfg) (TRANSACCIONES cfg) (azar s (extraidos s)),
                     cajero = k, espera = None\<rparr>),
                  cajeros := (cajeros s)[k := (cajeros s ! k)\<lparr>queue := queue (cajeros s ! k) @ [(Colas_separadas, c)]\<rparr>]\<rparr>)
               = Inr s'" (is "trigger_put k ?s1 = _") by auto
  note el = elegir_cajero_separadas [OF e]
  have "marcos s' c = marcos ?s1 c" using trigger_put_Inr(2) [OF t] by auto
  then have m: "marcos s' c = Some \<lparr>llegada = env_now s,
                     tipo = generar_tipo_transaccion (suma cfg) (TRANSACCIONES cfg) (azar s (extraidos s)),
                     cajero = k, espera = None\<rparr>" by simp
  let ?s0 = "s\<lparr>extraidos := Suc (extraidos s),
                  marcos := (marcos s)(c \<mapsto>
                    \<lparr>llegada = env_now s,
                     tipo = generar_tipo_transaccion (suma cfg) (TRANSACCIONES cfg) (azar s (extraidos s)),
                     cajero = k, espera = None\<rparr>)\<rparr>"
  have "trigger_put k (?s0\<lparr>cajeros := (cajeros ?s0)[k := (cajeros ?s0 ! k)\<lparr>queue := queue (cajeros ?s0 ! k) @ [(Colas_separadas, c)]\<rparr>]\<rparr>) = Inr s'"
    using t by simp
  from request_destino [OF _ this] el(1)
  have "(Colas_separadas, c) \<in> set (queue (cajeros s' ! k))
          \<or> (Colas_separadas, c) \<in> set (users (cajeros s' ! k))" by simp
  with el m show ?thesis by auto
qed

lemma ejemplo_201:
  "elegir_cajero Colas_separadas
     (s\<lparr>cajeros := [r\<lparr>queue := [a, b]\<rparr>, r\<lparr>queue := []\<rparr>, r\<lparr>queue := [c]\<rparr>]\<rparr>) = Inr 1"
  by (simp add: elegir_cajero_def min_indice_def)


text \<open>
  C4.  In the mode \<open>colas_separadas\<close> the generator schedules the start of the customer
  routine at the time of the arrival.  \<open>cliente_colas_separadas\<close> chooses, when it starts,
  the first teller among those with the fewest pending requests, and makes its request
  there.  No later event changes the choice, and the release at the end of the service is
  made on the chosen teller.  With queues of lengths 2, 0 and 1 the choice is index 1.
\<close>

theorem C4_cola_mas_corta:
  "(lanzar_cliente ''colas_separadas'' s =
      schedule (Initialize (Cliente Colas_separadas (gen_i s))) URGENT 0 s)
   \<and> (cliente_inicio cfg (Colas_separadas, c) s = Inr s' \<longrightarrow>
      (\<exists>k m. k < length (cajeros s)
         \<and> (\<forall>j < length (cajeros s).
               length (queue (cajeros s ! k)) \<le> length (queue (cajeros s ! j)))
         \<and> (\<forall>j < k. length (queue (cajeros s ! k)) < length (queue (cajeros s ! j)))
         \<and> marcos s' c = Some m \<and> cajero m = k \<and> llegada m = env_now s
         \<and> ((Colas_separadas, c) \<in> set (queue (cajeros s' ! k))
             \<or> (Colas_separadas, c) \<in> set (users (cajeros s' ! k)))))
   \<and> (despachar cfg modo ev s = Inr s' \<and> (\<forall>rut. ev \<noteq> Initialize (Cliente rut c))
         \<and> marcos s c = Some m0 \<longrightarrow>
       (\<exists>m'. marcos s' c = Some m' \<and> cajero m' = cajero m0 \<and> llegada m' = llegada m0))
   \<and> (cliente_salida (rut, c) s = Inr s' \<longrightarrow>
       (\<exists>m. marcos s c = Some m
          \<and> (env_now s, NORMAL, env_eid s, Release (cajero m)) \<in> set (env_queue s')))
   \<and> elegir_cajero Colas_separadas
        (s\<lparr>cajeros := [r\<lparr>queue := [a, b]\<rparr>, r\<lparr>queue := []\<rparr>, r\<lparr>queue := [d]\<rparr>]\<rparr>) = Inr 1"
proof (intro conjI impI)
  show "lanzar_cliente ''colas_separadas'' s =
      schedule (Initialize (Cliente Colas_separadas (gen_i s))) URGENT 0 s"
    by (simp add: lanzar_cliente_def)
next
  assume "cliente_inicio cfg (Colas_separadas, c) s = Inr s'"
  then show "\<exists>k m. k < length (cajeros s)
         \<and> (\<forall>j < length (cajeros s).
               length (queue (cajeros s ! k)) \<le> length (queue (cajeros s ! j)))
         \<and> (\<forall>j < k. length (queue (cajeros s ! k)) < length (queue (cajeros s ! j)))
         \<and> marcos s' c = Some m \<and> cajero m = k \<and> llegada m = env_now s
         \<and> ((Colas_separadas, c) \<in> set (queue (cajeros s' ! k))
             \<or> (Colas_separadas, c) \<in> set (users (cajeros s' ! k)))"
    by (rule cliente_inicio_separadas)
next
  assume "despachar cfg modo ev s = Inr s' \<and> (\<forall>rut. ev \<noteq> Initialize (Cliente rut c))
         \<and> marcos s c = Some m0"
  then show "\<exists>m'. marcos s' c = Some m' \<and> cajero m' = cajero m0 \<and> llegada m' = llegada m0"
    using despachar_cajero_fijo by blast
next
  assume "cliente_salida (rut, c) s = Inr s'"
  from cliente_salida_Inr [OF this]
  show "\<exists>m. marcos s c = Some m
          \<and> (env_now s, NORMAL, env_eid s, Release (cajero m)) \<in> set (env_queue s')"
    by auto
next
  show "elegir_cajero Colas_separadas
        (s\<lparr>cajeros := [r\<lparr>queue := [a, b]\<rparr>, r\<lparr>queue := []\<rparr>, r\<lparr>queue := [d]\<rparr>]\<rparr>) = Inr 1"
    by (rule ejemplo_201)
qed

theorem C4_cola_mas_corta_witness:
  "\<exists>s'. cliente_inicio config_fuente (Colas_separadas, 7) estado_201 = Inr s'
      \<and> map_option cajero (marcos s' 7) = Some 1
      \<and> queue (cajeros s' ! 1) = [(Colas_separadas, 7)]"
proof -
  obtain s' where r: "cliente_inicio config_fuente (Colas_separadas, 7) estado_201 = Inr s'"
    and q: "queue (cajeros s' ! 1) = [(Colas_separadas, 7)]"
    by (simp add: estado_201_def entorno_def cliente_inicio_def random_py_def
        elegir_cajero_def min_indice_def request_def trigger_put_def do_put_def)
  from C4_cola_mas_corta [where cfg = config_fuente and c = 7 and s = estado_201 and s' = s'] r
  obtain k m where k: "k < length (cajeros estado_201)"
    "\<forall>j < length (cajeros estado_201).
        length (queue (cajeros estado_201 ! k)) \<le> length (queue (cajeros estado_201 ! j))"
    "marcos s' 7 = Some m" "cajero m = k" by blast
  have l: "length (cajeros estado_201) = 3" "queue (cajeros estado_201 ! 1) = []"
    "queue (cajeros estado_201 ! 0) \<noteq> []" "queue (cajeros estado_201 ! 2) \<noteq> []"
    by (simp_all add: estado_201_def entorno_def)
  from k(2) [rule_format, of 1] l have "queue (cajeros estado_201 ! k) = []" by simp
  moreover from k(1) l have "k = 0 \<or> k = 1 \<or> k = 2" by auto
  ultimately have "k = 1" using l by auto
  with k(3,4) r q show ?thesis by simp
qed

section \<open>Termination\<close>

lemma retardo_cotas:
  assumes "0 < lambd" "0 < eps" "eps \<le> v" "v < 1"
  shows "0 < retardo lambd eps" "retardo lambd eps \<le> retardo lambd v"
proof -
  have a: "ln (1 - v) \<le> ln (1 - eps)" using assms by simp
  have b: "ln (1 - eps) < 0" using assms by simp
  show "0 < retardo lambd eps" using b assms(1) by (simp add: retardo_def divide_neg_pos)
  show "retardo lambd eps \<le> retardo lambd v"
    using a assms(1) by (simp add: retardo_def divide_right_mono)
qed

lemma vueltas_baja:
  assumes "0 < dmin" "t < H" "dmin \<le> d"
  shows "Suc (vueltas H dmin (t + d)) \<le> vueltas H dmin t"
proof -
  have "(H - (t + d)) / dmin \<le> (H - t) / dmin - 1"
    using assms by (simp add: field_simps)
  then have "\<lceil>(H - (t + d)) / dmin\<rceil> \<le> \<lceil>(H - t) / dmin - 1\<rceil>" by (rule ceiling_mono)
  then have c: "\<lceil>(H - (t + d)) / dmin\<rceil> \<le> \<lceil>(H - t) / dmin\<rceil> - 1" by simp
  have "0 < (H - t) / dmin" using assms by simp
  then have "0 < \<lceil>(H - t) / dmin\<rceil>" by simp
  with c show ?thesis unfolding vueltas_def by arith
qed

lemma vueltas_mono:
  assumes "0 < dmin" "0 \<le> d"
  shows "vueltas H dmin (t + d) \<le> vueltas H dmin t"
proof -
  have "(H - (t + d)) / dmin \<le> (H - t) / dmin"
    using assms by (simp add: field_simps)
  then have "\<lceil>(H - (t + d)) / dmin\<rceil> \<le> \<lceil>(H - t) / dmin\<rceil>" by (rule ceiling_mono)
  then show ?thesis unfolding vueltas_def by (rule nat_mono)
qed

lemma generar_tipo_rango:
  assumes "t \<noteq> []"
  shows "0 \<le> generar_tipo_transaccion mas t r" "generar_tipo_transaccion mas t r < int (length t)"
proof -
  have a: "0 \<le> generar_tipo_transaccion mas t r
           \<and> generar_tipo_transaccion mas t r < int (length t)"
  proof (cases "recorrer_tabla mas r 0 0 t")
    case None
    then show ?thesis using assms by (cases t) (simp_all add: generar_tipo_transaccion_def)
  next
    case (Some j)
    from recorrer_tabla_Some [OF Some] show ?thesis using Some
      by (auto simp: generar_tipo_transaccion_def)
  qed
  from a show "0 \<le> generar_tipo_transaccion mas t r"
    "generar_tipo_transaccion mas t r < int (length t)"
    by simp_all
qed

lemma espera_temporizada_ok:
  assumes "0 \<le> azar s (extraidos s)" "azar s (extraidos s) < 1" "0 < lambd"
  shows "ligar (expovariate lambd s) (\<lambda>(d, s1). timeout p d s1) =
           Inr (schedule (Timeout p) NORMAL (retardo lambd (azar s (extraidos s)))
                  (s\<lparr>extraidos := Suc (extraidos s)\<rparr>))"
proof -
  have "ln (1 - azar s (extraidos s)) \<le> 0" using assms by simp
  then have "ln (1 - azar s (extraidos s)) / lambd \<le> 0" using assms(3)
    by (rule divide_nonpos_pos)
  then have "0 \<le> - ln (1 - azar s (extraidos s)) / lambd" by simp
  then show ?thesis using assms
    by (simp add: expovariate_def random_py_def timeout_def retardo_def)
qed

lemma suma_update:
  fixes f :: "'a \<Rightarrow> nat"
  shows "k < length xs \<Longrightarrow> sum_list (map f (xs[k := r])) + f (xs ! k) = sum_list (map f xs) + f r"
proof (induction xs arbitrary: k)
  case Nil
  then show ?case by simp
next
  case (Cons x xs)
  then show ?case by (cases k) (auto simp: add.assoc add.left_commute)
qed

lemma potencial_schedule [simp]:
  "potencial H dmin (schedule ev p d s) =
     potencial H dmin s + peso_evento (vueltas H dmin (env_now s + d)) ev"
  by (simp add: potencial_def peso_def)

lemma ref_ok_mono:
  assumes "ref_ok s ev" "length (cajeros s') = length (cajeros s)"
    "\<forall>c. marcos s c \<noteq> None \<longrightarrow> marcos s' c \<noteq> None"
  shows "ref_ok s' ev"
  using assms by (cases "(s, ev)" rule: ref_ok.cases) auto

lemma inv_refs_schedule:
  assumes "inv_refs cfg eps s" "ref_ok s ev"
  shows "inv_refs cfg eps (schedule ev p d s)"
proof -
  have "\<And>e. ref_ok s e \<Longrightarrow> ref_ok (schedule ev p d s) e"
    by (erule ref_ok_mono) simp_all
  with assms show ?thesis by (auto simp: inv_refs_def)
qed

text \<open>Changing fields that no reference depends on.\<close>

lemma inv_refs_otro:
  assumes "inv_refs cfg eps s" "cajeros s' = cajeros s" "azar s' = azar s"
    "marcos s' = marcos s" "env_queue s' = env_queue s"
  shows "inv_refs cfg eps s'"
proof -
  have "\<And>e. ref_ok s e \<Longrightarrow> ref_ok s' e"
    by (erule ref_ok_mono) (simp_all add: assms)
  with assms show ?thesis by (auto simp: inv_refs_def)
qed

lemma trigger_put_termina:
  assumes "inv_refs cfg eps s" "k < length (cajeros s)"
  shows "\<exists>s'. trigger_put k s = Inr s' \<and> inv_refs cfg eps s'
            \<and> potencial H dmin s' = potencial H dmin s \<and> env_now s' = env_now s"
proof (cases "do_put (cajeros s ! k)")
  case None
  with assms show ?thesis by (simp add: trigger_put_def)
next
  case (Some a)
  obtain q r where a: "a = (q, r)" by (cases a)
  from do_put_Some [OF Some [unfolded a]] obtain resto where
    r: "queue (cajeros s ! k) = q # resto"
       "r = (cajeros s ! k)\<lparr>users := users (cajeros s ! k) @ [q], queue := resto\<rparr>" by blast
  let ?s1 = "s\<lparr>cajeros := (cajeros s)[k := r]\<rparr>"
  have t: "trigger_put k s = Inr (schedule (Request q) NORMAL 0 ?s1)"
    using assms(2) Some a by (simp add: trigger_put_def)
  have kin: "cajeros s ! k \<in> set (cajeros s)" using assms(2) by simp
  have qm: "marcos s (snd q) \<noteq> None"
    using assms(1) kin r(1) unfolding inv_refs_def by (metis list.set_intros(1))
  have sub: "set (cajeros ?s1) \<subseteq> insert r (set (cajeros s))"
    by (simp add: set_update_subset_insert)
  have ro: "\<And>e. ref_ok s e \<Longrightarrow> ref_ok ?s1 e"
    by (erule ref_ok_mono) simp_all
  have colas: "\<forall>r' \<in> set (cajeros ?s1). \<forall>q' \<in> set (queue r'). marcos ?s1 (snd q') \<noteq> None"
  proof (intro ballI)
    fix r' q' assume r': "r' \<in> set (cajeros ?s1)" and q': "q' \<in> set (queue r')"
    from r' sub have "r' = r \<or> r' \<in> set (cajeros s)" by auto
    then show "marcos ?s1 (snd q') \<noteq> None"
    proof
      assume "r' = r"
      with q' r have "q' \<in> set (queue (cajeros s ! k))" by simp
      with assms(1) kin show ?thesis unfolding inv_refs_def by simp
    next
      assume "r' \<in> set (cajeros s)"
      with assms(1) q' show ?thesis unfolding inv_refs_def by simp
    qed
  qed
  have i1: "inv_refs cfg eps ?s1"
    using assms(1) colas ro unfolding inv_refs_def by simp
  have "ref_ok ?s1 (Request q)" using qm by simp
  with i1 have i2: "inv_refs cfg eps (schedule (Request q) NORMAL 0 ?s1)"
    by (rule inv_refs_schedule)
  have "sum_list (map (\<lambda>r. length (queue r)) ((cajeros s)[k := r])) + length (queue (cajeros s ! k))
        = sum_list (map (\<lambda>r. length (queue r)) (cajeros s)) + length (queue r)"
    using assms(2) by (rule suma_update)
  then have "sum_list (map (\<lambda>r. length (queue r)) (cajeros s))
        = Suc (sum_list (map (\<lambda>r. length (queue r)) ((cajeros s)[k := r])))"
    using r by simp
  then have "potencial H dmin (schedule (Request q) NORMAL 0 ?s1) = potencial H dmin s"
    by (simp add: potencial_def peso_def)
  with t i2 show ?thesis by simp
qed

lemma request_termina:
  assumes "inv_refs cfg eps s" "k < length (cajeros s)" "marcos s (snd q) \<noteq> None"
  shows "\<exists>s'. request k q s = Inr s' \<and> inv_refs cfg eps s'
            \<and> potencial H dmin s' = potencial H dmin s + 4 \<and> env_now s' = env_now s"
proof -
  let ?r = "(cajeros s ! k)\<lparr>queue := queue (cajeros s ! k) @ [q]\<rparr>"
  let ?s1 = "s\<lparr>cajeros := (cajeros s)[k := ?r]\<rparr>"
  have kin: "cajeros s ! k \<in> set (cajeros s)" using assms(2) by simp
  have sub: "set (cajeros ?s1) \<subseteq> insert ?r (set (cajeros s))"
    by (simp add: set_update_subset_insert)
  have ro: "\<And>e. ref_ok s e \<Longrightarrow> ref_ok ?s1 e"
    by (erule ref_ok_mono) simp_all
  have colas: "\<forall>r' \<in> set (cajeros ?s1). \<forall>q' \<in> set (queue r'). marcos ?s1 (snd q') \<noteq> None"
  proof (intro ballI)
    fix r' q' assume r': "r' \<in> set (cajeros ?s1)" and q': "q' \<in> set (queue r')"
    from r' sub have "r' = ?r \<or> r' \<in> set (cajeros s)" by auto
    then show "marcos ?s1 (snd q') \<noteq> None"
    proof
      assume "r' = ?r"
      with q' have "q' \<in> set (queue (cajeros s ! k)) \<or> q' = q" by auto
      with assms(1,3) kin show ?thesis unfolding inv_refs_def by auto
    next
      assume "r' \<in> set (cajeros s)"
      with assms(1) q' show ?thesis unfolding inv_refs_def by simp
    qed
  qed
  have i1: "inv_refs cfg eps ?s1"
    using assms(1) colas ro unfolding inv_refs_def by simp
  have "sum_list (map (\<lambda>r. length (queue r)) ((cajeros s)[k := ?r])) + length (queue (cajeros s ! k))
        = sum_list (map (\<lambda>r. length (queue r)) (cajeros s)) + length (queue ?r)"
    using assms(2) by (rule suma_update)
  then have p1: "potencial H dmin ?s1 = potencial H dmin s + 4"
    by (simp add: potencial_def)
  have "k < length (cajeros ?s1)" using assms(2) by simp
  from trigger_put_termina [OF i1 this, of H dmin] p1 assms(2) show ?thesis
    by (auto simp: request_def)
qed

lemma LAMBDA_pos: "config_valida cfg \<Longrightarrow> 0 < LAMBDA cfg"
  by (simp add: config_valida_def LAMBDA_def)

lemma generador_inicio_termina:
  assumes "config_valida cfg" "inv_refs cfg eps s" "0 < eps" "dmin = retardo (LAMBDA cfg) eps"
  shows "\<exists>s'. generador_inicio cfg s = Inr s' \<and> inv_refs cfg eps s'
            \<and> potencial H dmin s' < potencial H dmin s + (2 + 6 * vueltas H dmin (env_now s))"
proof -
  let ?u = "azar s (extraidos s)"
  let ?d = "retardo (LAMBDA cfg) ?u"
  let ?s1 = "s\<lparr>gen_i := 0, extraidos := Suc (extraidos s)\<rparr>"
  have u: "eps \<le> ?u" "?u < 1" using assms(2) by (simp_all add: inv_refs_def)
  have l: "0 < LAMBDA cfg" using assms(1) by (rule LAMBDA_pos)
  have g: "generador_inicio cfg s = Inr (schedule (Timeout Generador) NORMAL ?d ?s1)"
    using espera_temporizada_ok [of "s\<lparr>gen_i := 0\<rparr>" "LAMBDA cfg" Generador] u l assms(3)
    by (simp add: generador_inicio_def generar_tiempo_llegada_def)
  have "inv_refs cfg eps ?s1" using assms(2) by (rule inv_refs_otro) simp_all
  then have i: "inv_refs cfg eps (schedule (Timeout Generador) NORMAL ?d ?s1)"
    by (rule inv_refs_schedule) simp
  have "0 < dmin" "dmin \<le> ?d"
    using retardo_cotas [OF l assms(3) u] assms(4) by simp_all
  then have "vueltas H dmin (env_now s + ?d) \<le> vueltas H dmin (env_now s)"
    by (intro vueltas_mono) simp_all
  moreover have "potencial H dmin ?s1 = potencial H dmin s" by (simp add: potencial_def)
  ultimately have "potencial H dmin (schedule (Timeout Generador) NORMAL ?d ?s1)
               < potencial H dmin s + (2 + 6 * vueltas H dmin (env_now s))"
    by simp
  with g i show ?thesis by simp
qed

lemma lanzar_cliente_termina:
  assumes "inv_refs cfg eps s"
  shows "inv_refs cfg eps (lanzar_cliente modo s)"
    "potencial H dmin (lanzar_cliente modo s) \<le> potencial H dmin s + 5"
proof -
  have "\<And>ev p d. ref_ok s ev \<Longrightarrow> inv_refs cfg eps (schedule ev p d s)"
    using assms by (rule inv_refs_schedule)
  then show "inv_refs cfg eps (lanzar_cliente modo s)"
    using assms by (simp add: lanzar_cliente_def)
  show "potencial H dmin (lanzar_cliente modo s) \<le> potencial H dmin s + 5"
    by (simp add: lanzar_cliente_def)
qed

lemma generador_despierta_termina:
  assumes "config_valida cfg" "inv_refs cfg eps s" "0 < eps" "dmin = retardo (LAMBDA cfg) eps"
    "env_now s < H"
  shows "\<exists>s'. generador_despierta cfg modo s = Inr s' \<and> inv_refs cfg eps s'
            \<and> potencial H dmin s' < potencial H dmin s + (1 + 6 * vueltas H dmin (env_now s))"
proof -
  let ?u = "azar s (extraidos s)"
  let ?d = "retardo (LAMBDA cfg) ?u"
  let ?s0 = "lanzar_cliente modo (s\<lparr>gen_i := gen_i s + 1\<rparr>)"
  let ?s1 = "?s0\<lparr>extraidos := Suc (extraidos s)\<rparr>"
  have u: "eps \<le> ?u" "?u < 1" using assms(2) by (simp_all add: inv_refs_def)
  have l: "0 < LAMBDA cfg" using assms(1) by (rule LAMBDA_pos)
  have g: "generador_despierta cfg modo s = Inr (schedule (Timeout Generador) NORMAL ?d ?s1)"
    using espera_temporizada_ok [of ?s0 "LAMBDA cfg" Generador] u l assms(3)
    by (simp add: generador_despierta_def generar_tiempo_llegada_def)
  have a: "inv_refs cfg eps (s\<lparr>gen_i := gen_i s + 1\<rparr>)"
    using assms(2) by (rule inv_refs_otro) simp_all
  have p0: "potencial H dmin (s\<lparr>gen_i := gen_i s + 1\<rparr>) = potencial H dmin s"
    by (simp add: potencial_def)
  from lanzar_cliente_termina(1) [OF a] have b: "inv_refs cfg eps ?s0" .
  from lanzar_cliente_termina(2) [OF a, of H dmin modo] p0
  have pb: "potencial H dmin ?s0 \<le> potencial H dmin s + 5" by simp
  have "inv_refs cfg eps ?s1" using b by (rule inv_refs_otro) simp_all
  then have i: "inv_refs cfg eps (schedule (Timeout Generador) NORMAL ?d ?s1)"
    by (rule inv_refs_schedule) simp
  have p1: "potencial H dmin ?s1 = potencial H dmin ?s0" by (simp add: potencial_def)
  have "0 < dmin" "dmin \<le> ?d"
    using retardo_cotas [OF l assms(3) u] assms(4) by simp_all
  then have "Suc (vueltas H dmin (env_now s + ?d)) \<le> vueltas H dmin (env_now s)"
    using assms(5) by (intro vueltas_baja) simp_all
  then have "potencial H dmin (schedule (Timeout Generador) NORMAL ?d ?s1)
               < potencial H dmin s + (1 + 6 * vueltas H dmin (env_now s))"
    using pb p1 by simp
  with g i show ?thesis by simp
qed

lemma elegir_cajero_ok:
  assumes "cajeros s \<noteq> []"
  shows "\<exists>k. elegir_cajero rut s = Inr k \<and> k < length (cajeros s)"
proof (cases rut)
  case Cola_unica
  with assms show ?thesis by (simp add: elegir_cajero_def)
next
  case Colas_separadas
  from assms obtain k where
    k: "min_indice (map (\<lambda>r. length (queue r)) (cajeros s)) = Some k"
    by (cases "cajeros s") (simp_all add: min_indice_def)
  from min_indice_spec [OF k] k Colas_separadas show ?thesis
    by (simp add: elegir_cajero_def)
qed

lemma cliente_inicio_termina:
  assumes "config_valida cfg" "inv_refs cfg eps s"
  shows "\<exists>s'. cliente_inicio cfg q s = Inr s' \<and> inv_refs cfg eps s'
            \<and> potencial H dmin s' < potencial H dmin s + 5"
proof -
  have c: "cajeros s \<noteq> []" using assms(2) by (simp add: inv_refs_def)
  let ?s0 = "s\<lparr>extraidos := Suc (extraidos s)\<rparr>"
  from elegir_cajero_ok [of ?s0 "fst q"] c obtain k where
    e: "elegir_cajero (fst q) ?s0 = Inr k" and k: "k < length (cajeros s)" by auto
  let ?m = "\<lparr>llegada = env_now s,
             tipo = generar_tipo_transaccion (suma cfg) (TRANSACCIONES cfg) (azar s (extraidos s)),
             cajero = k, espera = None\<rparr>"
  let ?s1 = "s\<lparr>extraidos := Suc (extraidos s), marcos := (marcos s)(snd q \<mapsto> ?m)\<rparr>"
  have ci: "cliente_inicio cfg q s = request k q ?s1"
    using e by (simp add: cliente_inicio_def random_py_def)
  have t: "TRANSACCIONES cfg \<noteq> []" using assms(1) by (simp add: config_valida_def)
  have ro: "\<And>ev. ref_ok s ev \<Longrightarrow> ref_ok ?s1 ev"
    by (erule ref_ok_mono) simp_all
  have i1: "inv_refs cfg eps ?s1"
    using assms(2) k generar_tipo_rango [OF t] ro unfolding inv_refs_def by simp
  have p1: "potencial H dmin ?s1 = potencial H dmin s" by (simp add: potencial_def)
  have "k < length (cajeros ?s1)" "marcos ?s1 (snd q) \<noteq> None" using k by simp_all
  from request_termina [OF i1 this, of H dmin] ci p1 show ?thesis by auto
qed

lemma cliente_atendido_termina:
  assumes "config_valida cfg" "inv_refs cfg eps s" "0 < eps" "ref_ok s (Request q)"
  shows "\<exists>s'. cliente_atendido cfg q s = Inr s' \<and> inv_refs cfg eps s'
            \<and> potencial H dmin s' < potencial H dmin s + 4"
proof -
  from assms(4) obtain m where m: "marcos s (snd q) = Some m" by auto
  let ?w = "env_now s - llegada m"
  let ?s1 = "s\<lparr>tiempos_espera := tiempos_espera s @ [?w],
                marcos := (marcos s)(snd q \<mapsto> m\<lparr>espera := Some ?w\<rparr>)\<rparr>"
  let ?u = "azar s (extraidos s)"
  from assms(2) m have tp: "0 \<le> tipo m" "tipo m < int (length (TRANSACCIONES cfg))"
    by (simp_all add: inv_refs_def)
  obtain p media where pm: "TRANSACCIONES cfg ! nat (tipo m) = (p, media)"
    by (cases "TRANSACCIONES cfg ! nat (tipo m)")
  have "TRANSACCIONES cfg ! nat (tipo m) \<in> set (TRANSACCIONES cfg)" using tp by simp
  with assms(1) pm have media: "0 < media" by (auto simp: config_valida_def)
  have u: "eps \<le> ?u" "?u < 1" using assms(2) by (simp_all add: inv_refs_def)
  let ?d = "retardo (1 / media) ?u"
  let ?s2 = "?s1\<lparr>extraidos := Suc (extraidos s)\<rparr>"
  have g: "cliente_atendido cfg q s = Inr (schedule (Timeout (Cliente (fst q) (snd q))) NORMAL ?d ?s2)"
    using espera_temporizada_ok [of ?s1 "1 / media" "Cliente (fst q) (snd q)"] u media assms(3) m tp pm
    by (simp add: cliente_atendido_def generar_tiempo_servicio_def indice_def)
  have ro: "\<And>ev. ref_ok s ev \<Longrightarrow> ref_ok ?s2 ev"
    by (erule ref_ok_mono) simp_all
  have i1: "inv_refs cfg eps ?s2"
    using assms(2) m ro unfolding inv_refs_def by simp
  have "ref_ok ?s2 (Timeout (Cliente (fst q) (snd q)))" by simp
  with i1 have i: "inv_refs cfg eps (schedule (Timeout (Cliente (fst q) (snd q))) NORMAL ?d ?s2)"
    by (rule inv_refs_schedule)
  have "potencial H dmin ?s2 = potencial H dmin s" by (simp add: potencial_def)
  then have "potencial H dmin (schedule (Timeout (Cliente (fst q) (snd q))) NORMAL ?d ?s2)
          < potencial H dmin s + 4"
    by simp
  with g i show ?thesis by simp
qed

lemma cliente_salida_termina:
  assumes "inv_refs cfg eps s" "ref_ok s (Timeout (Cliente rut c))"
  shows "\<exists>s'. cliente_salida (rut, c) s = Inr s' \<and> inv_refs cfg eps s'
            \<and> potencial H dmin s' < potencial H dmin s + 3"
proof -
  from assms(2) obtain m where m: "marcos s c = Some m" by auto
  with assms(1) have k: "cajero m < length (cajeros s)" by (simp add: inv_refs_def)
  let ?r = "(cajeros s ! cajero m)\<lparr>users := remove1 (rut, c) (users (cajeros s ! cajero m))\<rparr>"
  let ?s1 = "s\<lparr>cajeros := (cajeros s)[cajero m := ?r]\<rparr>"
  let ?s' = "schedule (Process (rut, c)) NORMAL 0 (schedule (Release (cajero m)) NORMAL 0 ?s1)"
  have g: "cliente_salida (rut, c) s = Inr ?s'"
    using m k by (simp add: cliente_salida_def release_def)
  have kin: "cajeros s ! cajero m \<in> set (cajeros s)" using k by simp
  have sub: "set (cajeros ?s1) \<subseteq> insert ?r (set (cajeros s))"
    by (simp add: set_update_subset_insert)
  have ro: "\<And>ev. ref_ok s ev \<Longrightarrow> ref_ok ?s1 ev"
    by (erule ref_ok_mono) simp_all
  have colas: "\<forall>r' \<in> set (cajeros ?s1). \<forall>q' \<in> set (queue r'). marcos ?s1 (snd q') \<noteq> None"
  proof (intro ballI)
    fix r' q' assume r': "r' \<in> set (cajeros ?s1)" and q': "q' \<in> set (queue r')"
    from r' sub have "r' = ?r \<or> r' \<in> set (cajeros s)" by auto
    then show "marcos ?s1 (snd q') \<noteq> None"
    proof
      assume "r' = ?r"
      with q' have "q' \<in> set (queue (cajeros s ! cajero m))" by simp
      with assms(1) kin show ?thesis unfolding inv_refs_def by simp
    next
      assume "r' \<in> set (cajeros s)"
      with assms(1) q' show ?thesis unfolding inv_refs_def by simp
    qed
  qed
  have i1: "inv_refs cfg eps ?s1"
    using assms(1) colas ro unfolding inv_refs_def by simp
  have "ref_ok ?s1 (Release (cajero m))" using k by simp
  with i1 have i2: "inv_refs cfg eps (schedule (Release (cajero m)) NORMAL 0 ?s1)"
    by (rule inv_refs_schedule)
  then have i: "inv_refs cfg eps ?s'" by (rule inv_refs_schedule) simp
  have "sum_list (map (\<lambda>r. length (queue r)) ((cajeros s)[cajero m := ?r]))
          + length (queue (cajeros s ! cajero m))
        = sum_list (map (\<lambda>r. length (queue r)) (cajeros s)) + length (queue ?r)"
    using k by (rule suma_update)
  then have "potencial H dmin ?s1 = potencial H dmin s" by (simp add: potencial_def)
  then have "potencial H dmin ?s' < potencial H dmin s + 3" by simp
  with g i show ?thesis by blast
qed

lemma despachar_termina:
  assumes "config_valida cfg" "inv_refs cfg eps s" "0 < eps" "dmin = retardo (LAMBDA cfg) eps"
    "ref_ok s ev" "ev \<noteq> Until" "ev = Timeout Generador \<longrightarrow> env_now s < H"
  shows "\<exists>s'. despachar cfg modo ev s = Inr s' \<and> inv_refs cfg eps s'
            \<and> potencial H dmin s' < potencial H dmin s + peso_evento (vueltas H dmin (env_now s)) ev"
proof (cases "(cfg, modo, ev, s)" rule: despachar.cases)
  case (1 cfg' modo' s0)
  with generador_inicio_termina [OF assms(1-4), of H] show ?thesis by simp
next
  case (2 cfg' modo' rut c s0)
  with cliente_inicio_termina [OF assms(1,2), of "(rut, c)" H dmin] show ?thesis by simp
next
  case (3 cfg' modo' s0)
  with generador_despierta_termina [OF assms(1-4), of H modo] assms(7) show ?thesis by simp
next
  case (4 cfg' modo' rut c s0)
  with cliente_salida_termina [OF assms(2), of rut c H dmin] assms(5) show ?thesis by simp
next
  case (5 cfg' modo' q s0)
  with cliente_atendido_termina [OF assms(1-3), of q H dmin] assms(5) show ?thesis by simp
next
  case (6 cfg' modo' k s0)
  with trigger_put_termina [OF assms(2), of k H dmin] assms(5) show ?thesis by auto
next
  case (7 cfg' modo' q s0)
  with assms(2) show ?thesis by simp
next
  case 8
  with assms(6) show ?thesis by simp
qed

lemma despachar_prio:
  assumes "despachar cfg modo ev s = Inr s'"
  shows "\<exists>nuevas. env_queue s' = env_queue s @ nuevas
          \<and> (\<forall>x \<in> set nuevas. fst (snd x) = prioridad_de (evento_de x) \<and> evento_de x \<noteq> Until)"
proof (cases "(cfg, modo, ev, s)" rule: despachar.cases)
  case (1 cfg' modo' s0)
  with assms have "generador_inicio cfg s = Inr s'" by simp
  from generador_inicio_Inr [OF this] show ?thesis by auto
next
  case (2 cfg' modo' rut c s0)
  with assms have "cliente_inicio cfg (rut, c) s = Inr s'" by simp
  from cliente_inicio_Inr [OF this] obtain k where
    t: "trigger_put k
               (s\<lparr>extraidos := Suc (extraidos s),
                  marcos := (marcos s)(c \<mapsto>
                    \<lparr>llegada = env_now s,
                     tipo = generar_tipo_transaccion (suma cfg) (TRANSACCIONES cfg) (azar s (extraidos s)),
                     cajero = k, espera = None\<rparr>),
                  cajeros := (cajeros s)[k := (cajeros s ! k)\<lparr>queue := queue (cajeros s ! k) @ [(rut, c)]\<rparr>]\<rparr>)
               = Inr s'" by auto
  from trigger_put_Inr(2) [OF t] show ?thesis by auto
next
  case (3 cfg' modo' s0)
  with assms have "generador_despierta cfg modo s = Inr s'" by simp
  from generador_despierta_Inr [OF this] obtain d where
    s': "s' = schedule (Timeout Generador) NORMAL d
                   ((lanzar_cliente modo (s\<lparr>gen_i := gen_i s + 1\<rparr>))\<lparr>extraidos := Suc (extraidos s)\<rparr>)"
    by blast
  have "\<exists>nuevas. env_queue (lanzar_cliente modo (s\<lparr>gen_i := gen_i s + 1\<rparr>)) = env_queue s @ nuevas
     \<and> (\<forall>x \<in> set nuevas. fst (snd x) = prioridad_de (evento_de x) \<and> evento_de x \<noteq> Until)"
    by (simp add: lanzar_cliente_def)
  then obtain nuevas where
    n: "env_queue (lanzar_cliente modo (s\<lparr>gen_i := gen_i s + 1\<rparr>)) = env_queue s @ nuevas"
       "\<forall>x \<in> set nuevas. fst (snd x) = prioridad_de (evento_de x) \<and> evento_de x \<noteq> Until"
    by blast
  show ?thesis using n unfolding s'
    by (auto intro!: exI [of _ "nuevas @ [(env_now s + d, NORMAL, env_eid (lanzar_cliente modo (s\<lparr>gen_i := gen_i s + 1\<rparr>)), Timeout Generador)]"])
next
  case (4 cfg' modo' rut c s0)
  with assms have "cliente_salida (rut, c) s = Inr s'" by simp
  from cliente_salida_Inr [OF this] show ?thesis by auto
next
  case (5 cfg' modo' q s0)
  with assms have "cliente_atendido cfg q s = Inr s'" by simp
  from cliente_atendido_Inr [OF this] show ?thesis by auto
next
  case (6 cfg' modo' k s0)
  with assms have "trigger_put k s = Inr s'" by simp
  from trigger_put_Inr(2) [OF this] show ?thesis by auto
next
  case 7 with assms show ?thesis by simp
next
  case 8 with assms show ?thesis by simp
qed

lemma despachar_inv_prio:
  assumes "inv_prio H s" "despachar cfg modo ev s = Inr s'"
  shows "inv_prio H s'"
  using despachar_prio [OF assms(2)] assms(1) by (fastforce simp: inv_prio_def)

lemma extraer_inv_prio:
  assumes "inv_prio H s" "m \<in> set (env_queue s)" "evento_de m \<noteq> Until"
  shows "inv_prio H (s\<lparr>env_now := t, env_queue := remove1 m (env_queue s)\<rparr>)"
proof -
  from assms(1) obtain x where x: "x \<in> set (env_queue s)" "evento_de x = Until" "fst x = H"
    by (auto simp: inv_prio_def)
  with assms(3) have "x \<noteq> m" by auto
  with x have "x \<in> set (remove1 m (env_queue s))" by simp
  moreover have "\<forall>y \<in> set (remove1 m (env_queue s)). fst (snd y) = prioridad_de (evento_de y)"
    using assms(1) by (meson inv_prio_def notin_set_remove1)
  ultimately show ?thesis using x(2,3) by (auto simp: inv_prio_def)
qed

lemma extraer_inv_refs:
  assumes "inv_refs cfg eps s"
  shows "inv_refs cfg eps (s\<lparr>env_now := t, env_queue := remove1 m (env_queue s)\<rparr>)"
proof -
  have "\<And>e. ref_ok s e \<Longrightarrow> ref_ok (s\<lparr>env_now := t, env_queue := remove1 m (env_queue s)\<rparr>) e"
    by (erule ref_ok_mono) simp_all
  moreover have "\<forall>y \<in> set (remove1 m (env_queue s)). ref_ok s (evento_de y)"
    using assms by (meson inv_refs_def notin_set_remove1)
  ultimately show ?thesis using assms by (simp add: inv_refs_def)
qed

lemma antes_del_horizonte:
  assumes "inv_prio H s" "m \<in> set (env_queue s)" "\<forall>x \<in> set (env_queue s). clave m \<le> clave x"
    "prioridad_de (evento_de m) = NORMAL"
  shows "fst m < H"
proof -
  from assms(1) obtain x where x: "x \<in> set (env_queue s)" "evento_de x = Until" "fst x = H"
    "fst (snd x) = prioridad_de (evento_de x)"
    by (auto simp: inv_prio_def)
  from assms(1,2,4) have pm: "fst (snd m) = NORMAL" by (simp add: inv_prio_def)
  from assms(3) x(1) have "clave m \<le> clave x" by simp
  with pm x(2,3,4) show ?thesis by (auto simp: clave_def URGENT_def NORMAL_def)
qed

lemma paso_termina:
  assumes "config_valida cfg" "0 < eps" "dmin = retardo (LAMBDA cfg) eps"
    "inv_refs cfg eps s" "inv_prio H s"
  shows "\<exists>parar s'. paso cfg modo s = Inr (parar, s')
           \<and> (\<not> parar \<longrightarrow> inv_refs cfg eps s' \<and> inv_prio H s'
                 \<and> potencial H dmin s' < potencial H dmin s)"
proof -
  from assms(5) have ne: "env_queue s \<noteq> []" by (auto simp: inv_prio_def)
  define m where "m = arg_min_list clave (env_queue s)"
  have hp: "heappop (env_queue s) = Some (m, remove1 m (env_queue s))"
    using ne by (simp add: heappop_def m_def)
  note h = heappop_Some [OF hp]
  let ?s1 = "s\<lparr>env_now := fst m, env_queue := remove1 m (env_queue s)\<rparr>"
  show ?thesis
  proof (cases "evento_de m = Until")
    case True
    then have "paso cfg modo s = Inr (True, ?s1)" using hp by (simp add: paso_def)
    then show ?thesis by blast
  next
    case False
    have i1: "inv_refs cfg eps ?s1" using assms(4) by (rule extraer_inv_refs)
    have "ref_ok s (evento_de m)" using assms(4) h(1) by (simp add: inv_refs_def)
    then have r1: "ref_ok ?s1 (evento_de m)" by (rule ref_ok_mono) simp_all
    have g: "evento_de m = Timeout Generador \<longrightarrow> env_now ?s1 < H"
      using antes_del_horizonte [OF assms(5) h(1) h(3)] by simp
    from despachar_termina [OF assms(1) i1 assms(2,3) r1 False g, of modo]
    obtain s' where d: "despachar cfg modo (evento_de m) ?s1 = Inr s'"
      and i: "inv_refs cfg eps s'"
      and p: "potencial H dmin s' < potencial H dmin ?s1
                + peso_evento (vueltas H dmin (env_now ?s1)) (evento_de m)" by blast
    have "sum_list (map (peso H dmin) (env_queue s))
            = peso H dmin m + sum_list (map (peso H dmin) (remove1 m (env_queue s)))"
      using h(1) by (rule sum_list_map_remove1)
    then have "potencial H dmin s = potencial H dmin ?s1 + peso H dmin m"
      by (simp add: potencial_def)
    with p have p': "potencial H dmin s' < potencial H dmin s" by (simp add: peso_def)
    have "inv_prio H ?s1" using assms(5) h(1) False by (rule extraer_inv_prio)
    then have ip: "inv_prio H s'" using d by (rule despachar_inv_prio)
    have "paso cfg modo s = Inr (False, s')" using hp False d by (simp add: paso_def)
    with i ip p' show ?thesis by blast
  qed
qed

lemma correr_termina:
  assumes "config_valida cfg" "0 < eps" "dmin = retardo (LAMBDA cfg) eps"
  shows "inv_refs cfg eps s \<Longrightarrow> inv_prio H s \<Longrightarrow> potencial H dmin s < n
           \<Longrightarrow> \<exists>s'. correr n cfg modo s = Some (Inr s')"
proof (induction n arbitrary: s)
  case 0
  then show ?case by simp
next
  case (Suc n)
  from paso_termina [OF assms Suc.prems(1,2), of modo] obtain parar s1 where
    p: "paso cfg modo s = Inr (parar, s1)"
    and i: "\<not> parar \<longrightarrow> inv_refs cfg eps s1 \<and> inv_prio H s1
                 \<and> potencial H dmin s1 < potencial H dmin s" by blast
  show ?case
  proof (cases parar)
    case True
    with p show ?thesis by simp
  next
    case False
    with i Suc.prems(3) have "inv_refs cfg eps s1" "inv_prio H s1" "potencial H dmin s1 < n"
      by simp_all
    from Suc.IH [OF this] p False show ?thesis by simp
  qed
qed

lemma preparar_termina:
  assumes "config_valida cfg" "azar_valido eps u"
  shows "\<exists>s. preparar cfg modo u k = Inr s \<and> inv_refs cfg eps s
            \<and> inv_prio (TIEMPO_SIMULACION cfg) s"
  using assms
  by (auto simp: preparar_def crear_cajeros_def Resource_def config_valida_def azar_valido_def
      entorno_def inv_refs_def inv_prio_def)

lemma ejecutar_termina:
  assumes "config_valida cfg" "azar_valido eps u"
  shows "\<exists>n s. ejecutar n cfg modo u k = Some (Inr s)"
proof -
  from preparar_termina [OF assms, of modo k] obtain s0 where
    p: "preparar cfg modo u k = Inr s0" and i: "inv_refs cfg eps s0"
    "inv_prio (TIEMPO_SIMULACION cfg) s0" by blast
  have e: "0 < eps" using assms(2) by (simp add: azar_valido_def)
  define dmin where "dmin = retardo (LAMBDA cfg) eps"
  from correr_termina [OF assms(1) e dmin_def i, of "Suc (potencial (TIEMPO_SIMULACION cfg) dmin s0)" modo]
  obtain s where "correr (Suc (potencial (TIEMPO_SIMULACION cfg) dmin s0)) cfg modo s0 = Some (Inr s)"
    by auto
  with p have "ejecutar (Suc (potencial (TIEMPO_SIMULACION cfg) dmin s0)) cfg modo u k = Some (Inr s)"
    by (simp add: ejecutar_def del: correr.simps)
  then show ?thesis by blast
qed

section \<open>The horizon\<close>

text \<open>
  C6, as the code has it.  \<open>run\<close> schedules its stop event at the horizon with priority
  URGENT and event id 1.  Each step pops the entry with the least (time, priority, event
  id), sets the clock to its time and runs the callbacks of its event; the loop stops
  exactly when the popped entry is the stop event.  Every pending entry carries the
  priority of its kind of event, the stop event is pending at the horizon, and this stays
  so from step to step; hence an event of priority NORMAL that is processed has a trigger
  time strictly before the horizon.  When \<open>run\<close> returns, the clock is at the horizon and
  no pending entry is earlier than the horizon.
\<close>

theorem C6_run_hasta_horizonte:
  "(preparar cfg modo u k = Inr s0 \<longrightarrow>
      env_queue s0 = [(0, URGENT, 0, Initialize Generador),
                      (TIEMPO_SIMULACION cfg, URGENT, 1, Until)]
      \<and> inv_prio (TIEMPO_SIMULACION cfg) s0)
   \<and> (paso cfg modo s = Inr (parar, s1) \<longrightarrow>
        (\<exists>m \<in> set (env_queue s). (\<forall>x \<in> set (env_queue s). clave m \<le> clave x)
           \<and> env_now s1 = fst m \<and> (parar \<longleftrightarrow> evento_de m = Until)
           \<and> (parar \<longrightarrow> env_queue s1 = remove1 m (env_queue s))
           \<and> (\<not> parar \<longrightarrow> despachar cfg modo (evento_de m)
                 (s\<lparr>env_now := fst m, env_queue := remove1 m (env_queue s)\<rparr>) = Inr s1)
           \<and> (inv_prio H s \<longrightarrow>
                 (\<not> parar \<longrightarrow> inv_prio H s1)
                 \<and> (prioridad_de (evento_de m) = NORMAL \<longrightarrow> fst m < H))))
   \<and> (ejecutar n cfg modo u k = Some (Inr s') \<longrightarrow>
        env_now s' = TIEMPO_SIMULACION cfg
        \<and> (\<forall>x \<in> set (env_queue s'). TIEMPO_SIMULACION cfg \<le> fst x))"
proof (intro conjI impI)
  assume p: "preparar cfg modo u k = Inr s0"
  then show "env_queue s0 = [(0, URGENT, 0, Initialize Generador),
                      (TIEMPO_SIMULACION cfg, URGENT, 1, Until)]"
    by (rule preparar_cola)
  then show "inv_prio (TIEMPO_SIMULACION cfg) s0"
    by (simp add: inv_prio_def)
next
  assume p: "paso cfg modo s = Inr (parar, s1)"
  from paso_orden [OF p] obtain m where m: "m \<in> set (env_queue s)"
    "\<forall>x \<in> set (env_queue s). clave m \<le> clave x" "env_now s1 = fst m"
    "parar \<longleftrightarrow> evento_de m = Until" "parar \<longrightarrow> env_queue s1 = remove1 m (env_queue s)"
    "\<not> parar \<longrightarrow> despachar cfg modo (evento_de m)
                 (s\<lparr>env_now := fst m, env_queue := remove1 m (env_queue s)\<rparr>) = Inr s1"
    by blast
  have "inv_prio H s1" if i: "inv_prio H s" and np: "\<not> parar"
  proof -
    from m(4) np have "evento_de m \<noteq> Until" by simp
    from extraer_inv_prio [OF i m(1) this] m(6) np show ?thesis
      by (auto intro: despachar_inv_prio)
  qed
  moreover have "fst m < H" if "inv_prio H s" "prioridad_de (evento_de m) = NORMAL"
    using that(1) m(1,2) that(2) by (rule antes_del_horizonte)
  ultimately show "\<exists>m \<in> set (env_queue s). (\<forall>x \<in> set (env_queue s). clave m \<le> clave x)
           \<and> env_now s1 = fst m \<and> (parar \<longleftrightarrow> evento_de m = Until)
           \<and> (parar \<longrightarrow> env_queue s1 = remove1 m (env_queue s))
           \<and> (\<not> parar \<longrightarrow> despachar cfg modo (evento_de m)
                 (s\<lparr>env_now := fst m, env_queue := remove1 m (env_queue s)\<rparr>) = Inr s1)
           \<and> (inv_prio H s \<longrightarrow>
                 (\<not> parar \<longrightarrow> inv_prio H s1)
                 \<and> (prioridad_de (evento_de m) = NORMAL \<longrightarrow> fst m < H))"
    using m by (intro bexI [of _ m]) simp_all
next
  assume e: "ejecutar n cfg modo u k = Some (Inr s')"
  from ejecutar_inv [OF e] show "env_now s' = TIEMPO_SIMULACION cfg" by simp
  from ejecutar_inv [OF e] show "\<forall>x \<in> set (env_queue s'). TIEMPO_SIMULACION cfg \<le> fst x"
    by (simp add: inv_tiempo_def)
qed

theorem C6_run_hasta_horizonte_witness:
  "map_option (map_sum id (\<lambda>s. (env_now s, env_queue s)))
     (ejecutar 9 config_fuente ''cola_unica'' azar_un_cliente 0)
     = Some (Inr (TIEMPO_SIMULACION config_fuente, [(40020, NORMAL, 4, Timeout Generador)]))
   \<and> TIEMPO_SIMULACION config_fuente \<le> 40020"
proof -
  from corrida_un_cliente obtain s where
    r: "ejecutar 9 config_fuente ''cola_unica'' azar_un_cliente 0 = Some (Inr s)"
    and q: "env_queue s = [(40020, NORMAL, 4, Timeout Generador)]" by blast
  from C6_run_hasta_horizonte
    [where cfg = config_fuente and modo = "''cola_unica''" and u = azar_un_cliente and k = 0
       and n = 9 and s' = s] r
  have "env_now s = TIEMPO_SIMULACION config_fuente
        \<and> (\<forall>x \<in> set (env_queue s). TIEMPO_SIMULACION config_fuente \<le> fst x)" by blast
  with q r show ?thesis by simp
qed

text \<open>
  C6, as the claim states it, fails: when the first arrival falls exactly on the horizon
  (28800), its Timeout event has a trigger time equal to the horizon and is left in the
  heap; the generator never wakes up (\<open>gen_i\<close> stays 0).
\<close>

theorem C6_counterexample:
  "TIEMPO_SIMULACION config_fuente = 28800
   \<and> map_option (map_sum id (\<lambda>s. (env_now s, env_queue s, gen_i s)))
       (ejecutar 2 config_fuente ''colas_separadas'' azar_horizonte 0)
     = Some (Inr (28800, [(28800, NORMAL, 2, Timeout Generador)], 0))"
proof -
  from corrida_horizonte [of "''colas_separadas''" 0] obtain s where
    "ejecutar 2 config_fuente ''colas_separadas'' azar_horizonte 0 = Some (Inr s)"
    "env_now s = 28800" "gen_i s = 0" "env_queue s = [(28800, NORMAL, 2, Timeout Generador)]"
    by blast
  then show ?thesis by (simp add: config_fuente_def)
qed

section \<open>An unknown mode\<close>

lemma lanzar_cliente_otro:
  assumes "modo \<noteq> ''cola_unica''" "modo \<noteq> ''colas_separadas''"
  shows "lanzar_cliente modo s = s"
  using assms by (simp add: lanzar_cliente_def)

lemma paso_sin_clientes:
  assumes "modo \<noteq> ''cola_unica''" "modo \<noteq> ''colas_separadas''"
    "inv_sin_clientes s" "paso cfg modo s = Inr (parar, s')"
  shows "inv_sin_clientes s'"
proof -
  from paso_Inr [OF assms(4)] obtain m where m: "m \<in> set (env_queue s)"
    and c: "if evento_de m = Until
            then parar \<and> s' = s\<lparr>env_now := fst m, env_queue := remove1 m (env_queue s)\<rparr>
            else \<not> parar \<and> despachar cfg modo (evento_de m)
                   (s\<lparr>env_now := fst m, env_queue := remove1 m (env_queue s)\<rparr>) = Inr s'"
    by blast
  let ?s1 = "s\<lparr>env_now := fst m, env_queue := remove1 m (env_queue s)\<rparr>"
  have i1: "inv_sin_clientes ?s1"
    using assms(3) unfolding inv_sin_clientes_def by (auto dest: notin_set_remove1)
  from assms(3) m consider "evento_de m = Until" | "evento_de m = Initialize Generador"
    | "evento_de m = Timeout Generador"
    by (auto simp: inv_sin_clientes_def)
  then show ?thesis
  proof cases
    case 1
    with c i1 show ?thesis by simp
  next
    case 2
    with c have "generador_inicio cfg ?s1 = Inr s'" by simp
    from generador_inicio_Inr [OF this] i1 show ?thesis
      by (auto simp: inv_sin_clientes_def)
  next
    case 3
    with c have "generador_despierta cfg modo ?s1 = Inr s'" by simp
    from generador_despierta_Inr [OF this] i1 show ?thesis
      by (auto simp: inv_sin_clientes_def lanzar_cliente_otro [OF assms(1,2)])
  qed
qed

lemma correr_sin_clientes:
  assumes "modo \<noteq> ''cola_unica''" "modo \<noteq> ''colas_separadas''"
  shows "inv_sin_clientes s \<Longrightarrow> correr n cfg modo s = Some (Inr s') \<Longrightarrow> inv_sin_clientes s'"
proof (induction n arbitrary: s)
  case 0
  then show ?case by simp
next
  case (Suc n)
  from Suc.prems(2) obtain parar s1 where p: "paso cfg modo s = Inr (parar, s1)"
    by (auto split: sum.splits)
  note i = paso_sin_clientes [OF assms Suc.prems(1) p]
  show ?case
  proof (cases parar)
    case True
    with p Suc.prems(2) i show ?thesis by simp
  next
    case False
    with p Suc.prems(2) have "correr n cfg modo s1 = Some (Inr s')" by simp
    from Suc.IH [OF i this] show ?thesis .
  qed
qed

lemma preparar_sin_clientes:
  assumes "preparar cfg modo u k = Inr s"
  shows "inv_sin_clientes s"
  using assms
  by (auto simp: preparar_def ligar_Inr entorno_def inv_sin_clientes_def split: if_splits)

text \<open>
  C10.  For a mode that is neither \<open>cola_unica\<close> nor \<open>colas_separadas\<close>, the driver
  builds the list of tellers of capacity 1, the generator starts no customer, and (for a
  valid configuration and random stream) the run reaches the horizon without an error,
  with no customer frame, no customer event and the summary 0, 0, 0.
\<close>

theorem C10_modo_desconocido:
  assumes "modo \<noteq> ''cola_unica''" "modo \<noteq> ''colas_separadas''"
    and "config_valida cfg" "azar_valido eps u"
  shows "crear_cajeros cfg modo =
           Inr (replicate (NUM_CAJEROS cfg) \<lparr>capacity = 1, users = [], queue = []\<rparr>)
     \<and> (\<forall>s. lanzar_cliente modo s = s)
     \<and> (\<exists>n s. ejecutar n cfg modo u k = Some (Inr s)
           \<and> env_now s = TIEMPO_SIMULACION cfg \<and> inv_sin_clientes s
           \<and> simular_banco n cfg modo u k =
               Some (Inr (\<lparr>res_modo = modo, res_clientes = 0, res_espera_promedio = 0,
                           res_espera_maxima = 0\<rparr>, extraidos s)))"
proof (intro conjI)
  show "crear_cajeros cfg modo =
           Inr (replicate (NUM_CAJEROS cfg) \<lparr>capacity = 1, users = [], queue = []\<rparr>)"
    using assms(1) by (simp add: crear_cajeros_def)
  show "\<forall>s. lanzar_cliente modo s = s"
    using assms(1,2) by (simp add: lanzar_cliente_otro)
  from ejecutar_termina [OF assms(3,4), of modo k] obtain n s where
    e: "ejecutar n cfg modo u k = Some (Inr s)" by blast
  then obtain s0 where p: "preparar cfg modo u k = Inr s0"
    and c: "correr n cfg modo s0 = Some (Inr s)"
    by (auto simp: ejecutar_def split: sum.splits)
  from correr_sin_clientes [OF assms(1,2) preparar_sin_clientes [OF p] c]
  have i: "inv_sin_clientes s" .
  then have t: "tiempos_espera s = []" by (simp add: inv_sin_clientes_def)
  have "simular_banco n cfg modo u k =
               Some (Inr (\<lparr>res_modo = modo, res_clientes = 0, res_espera_promedio = 0,
                           res_espera_maxima = 0\<rparr>, extraidos s))"
    using e t by (simp add: simular_banco_def estadisticas_def)
  with e i ejecutar_inv(2) [OF e]
  show "\<exists>n s. ejecutar n cfg modo u k = Some (Inr s)
           \<and> env_now s = TIEMPO_SIMULACION cfg \<and> inv_sin_clientes s
           \<and> simular_banco n cfg modo u k =
               Some (Inr (\<lparr>res_modo = modo, res_clientes = 0, res_espera_promedio = 0,
                           res_espera_maxima = 0\<rparr>, extraidos s))"
    by blast
qed

lemma config_fuente_valida: "config_valida config_fuente"
  by (simp add: config_valida_def config_fuente_def)

lemma azar_horizonte_valido: "azar_valido (1 - exp (- 1440)) azar_horizonte"
  by (simp add: azar_valido_def azar_horizonte_def)

lemma exp_cota:
  assumes "1 \<le> (x::real)"
  shows "1 / 10 \<le> 1 - exp (- x)" "1 - exp (- x) < 1"
proof -
  have "1 + 1 \<le> exp (1::real)" by (rule exp_ge_add_one_self)
  moreover have "exp 1 \<le> exp x" using assms by simp
  ultimately have "2 \<le> exp x" by linarith
  then have "exp (- x) \<le> 1 / 2" by (simp add: exp_minus field_simps)
  then show "1 / 10 \<le> 1 - exp (- x)" by simp
  show "1 - exp (- x) < 1" by simp
qed

lemma azar_un_cliente_valido: "azar_valido (1 / 10) azar_un_cliente"
  using exp_cota [of 1] exp_cota [of 2000] by (simp add: azar_valido_def azar_un_cliente_def)

lemma corrida_otro:
  "\<exists>s. ejecutar 3 config_fuente ''otro'' azar_un_cliente 0 = Some (Inr s)
     \<and> tiempos_espera s = [] \<and> env_now s = 28800 \<and> gen_i s = 1 \<and> extraidos s = 2
     \<and> env_queue s = [(40020, NORMAL, 3, Timeout Generador)]"
  by (simp add: evaluar azar_un_cliente_def)

theorem C10_modo_desconocido_witness:
  "''otro'' \<noteq> ''cola_unica'' \<and> ''otro'' \<noteq> ''colas_separadas''
   \<and> config_valida config_fuente \<and> azar_valido (1 / 10) azar_un_cliente
   \<and> crear_cajeros config_fuente ''otro'' =
       Inr (replicate 6 \<lparr>capacity = 1, users = [], queue = []\<rparr>)
   \<and> (\<exists>n s. ejecutar n config_fuente ''otro'' azar_un_cliente 0 = Some (Inr s)
         \<and> gen_i s = 1 \<and> extraidos s = 2 \<and> env_now s = 28800
         \<and> marcos s = Map.empty \<and> tiempos_espera s = []
         \<and> simular_banco n config_fuente ''otro'' azar_un_cliente 0 =
             Some (Inr (\<lparr>res_modo = ''otro'', res_clientes = 0, res_espera_promedio = 0,
                         res_espera_maxima = 0\<rparr>, 2)))"
proof -
  have a: "''otro'' \<noteq> ''cola_unica''" "''otro'' \<noteq> ''colas_separadas''" by simp_all
  from C10_modo_desconocido [OF a config_fuente_valida azar_un_cliente_valido, of 0]
  obtain n s where c: "crear_cajeros config_fuente ''otro'' =
           Inr (replicate (NUM_CAJEROS config_fuente) \<lparr>capacity = 1, users = [], queue = []\<rparr>)"
    and e: "ejecutar n config_fuente ''otro'' azar_un_cliente 0 = Some (Inr s)"
    and i: "inv_sin_clientes s"
    and r: "simular_banco n config_fuente ''otro'' azar_un_cliente 0 =
               Some (Inr (\<lparr>res_modo = ''otro'', res_clientes = 0, res_espera_promedio = 0,
                           res_espera_maxima = 0\<rparr>, extraidos s))"
    by blast
  from corrida_otro obtain s3 where
    o: "ejecutar 3 config_fuente ''otro'' azar_un_cliente 0 = Some (Inr s3)"
    "env_now s3 = 28800" "gen_i s3 = 1" "extraidos s3 = 2" by blast
  from ejecutar_unico [OF e o(1)] have "s = s3" by simp
  with e i r o(2,3,4) have "ejecutar n config_fuente ''otro'' azar_un_cliente 0 = Some (Inr s)
         \<and> gen_i s = 1 \<and> extraidos s = 2 \<and> env_now s = 28800
         \<and> marcos s = Map.empty \<and> tiempos_espera s = []
         \<and> simular_banco n config_fuente ''otro'' azar_un_cliente 0 =
             Some (Inr (\<lparr>res_modo = ''otro'', res_clientes = 0, res_espera_promedio = 0,
                         res_espera_maxima = 0\<rparr>, 2))"
    by (simp add: inv_sin_clientes_def)
  then have "\<exists>n s. ejecutar n config_fuente ''otro'' azar_un_cliente 0 = Some (Inr s)
         \<and> gen_i s = 1 \<and> extraidos s = 2 \<and> env_now s = 28800
         \<and> marcos s = Map.empty \<and> tiempos_espera s = []
         \<and> simular_banco n config_fuente ''otro'' azar_un_cliente 0 =
             Some (Inr (\<lparr>res_modo = ''otro'', res_clientes = 0, res_espera_promedio = 0,
                         res_espera_maxima = 0\<rparr>, 2))"
    by blast
  with c a config_fuente_valida azar_un_cliente_valido show ?thesis
    by (simp add: config_fuente_def)
qed

section \<open>The driver\<close>

lemma preparar_topologia:
  assumes "preparar cfg modo u k = Inr s0"
  shows "cajeros s0 =
           (if modo = ''cola_unica''
            then [\<lparr>capacity = NUM_CAJEROS cfg, users = [], queue = []\<rparr>]
            else replicate (NUM_CAJEROS cfg) \<lparr>capacity = 1, users = [], queue = []\<rparr>)"
  using assms
  by (auto simp: preparar_def crear_cajeros_def Resource_def ligar_Inr entorno_def
      split: if_splits)

text \<open>
  C1, as the code has it.  For every mode the driver builds the tellers (one shared
  resource of capacity \<open>NUM_CAJEROS\<close> for \<open>cola_unica\<close>, otherwise \<open>NUM_CAJEROS\<close> resources
  of capacity 1), starts the generator, runs until the clock is at the horizon and returns
  the dictionary with the mode, the number of recorded waits, their mean and their
  maximum (0 when there is none).  The list of waits is not part of what it returns.
\<close>

theorem C1_simular_banco:
  assumes "config_valida cfg" "azar_valido eps u"
  shows "\<exists>n s0 s. preparar cfg modo u k = Inr s0
      \<and> cajeros s0 =
           (if modo = ''cola_unica''
            then [\<lparr>capacity = NUM_CAJEROS cfg, users = [], queue = []\<rparr>]
            else replicate (NUM_CAJEROS cfg) \<lparr>capacity = 1, users = [], queue = []\<rparr>)
      \<and> env_queue s0 = [(0, URGENT, 0, Initialize Generador),
                         (TIEMPO_SIMULACION cfg, URGENT, 1, Until)]
      \<and> correr n cfg modo s0 = Some (Inr s)
      \<and> env_now s = TIEMPO_SIMULACION cfg
      \<and> simular_banco n cfg modo u k =
          Some (Inr (\<lparr>res_modo = modo, res_clientes = length (tiempos_espera s),
                      res_espera_promedio =
                        (if tiempos_espera s \<noteq> []
                         then sum_list (tiempos_espera s) / real (length (tiempos_espera s))
                         else 0),
                      res_espera_maxima =
                        (if tiempos_espera s \<noteq> [] then Max (set (tiempos_espera s)) else 0)\<rparr>,
                     extraidos s))"
proof -
  from ejecutar_termina [OF assms, of modo k] obtain n s where
    e: "ejecutar n cfg modo u k = Some (Inr s)" by blast
  then obtain s0 where p: "preparar cfg modo u k = Inr s0"
    and c: "correr n cfg modo s0 = Some (Inr s)"
    by (auto simp: ejecutar_def split: sum.splits)
  have r: "simular_banco n cfg modo u k =
          Some (Inr (estadisticas modo (tiempos_espera s), extraidos s))"
    using e by (simp add: simular_banco_def)
  show ?thesis
    using p preparar_topologia [OF p] preparar_cola [OF p] c ejecutar_inv(2) [OF e] r
    unfolding estadisticas_def by blast
qed

theorem C1_simular_banco_witness:
  "config_valida config_fuente \<and> azar_valido (1 - exp (- 1440)) azar_horizonte
   \<and> (\<exists>n k'. simular_banco n config_fuente ''cola_unica'' azar_horizonte 0 =
          Some (Inr (\<lparr>res_modo = ''cola_unica'', res_clientes = 0, res_espera_promedio = 0,
                     res_espera_maxima = 0\<rparr>, k')))"
proof -
  from C1_simular_banco [OF config_fuente_valida azar_horizonte_valido, of "''cola_unica''" 0]
  obtain n and s :: estado where
    r: "simular_banco n config_fuente ''cola_unica'' azar_horizonte 0 =
          Some (Inr (\<lparr>res_modo = ''cola_unica'', res_clientes = length (tiempos_espera s),
                      res_espera_promedio =
                        (if tiempos_espera s \<noteq> []
                         then sum_list (tiempos_espera s) / real (length (tiempos_espera s))
                         else 0),
                      res_espera_maxima =
                        (if tiempos_espera s \<noteq> [] then Max (set (tiempos_espera s)) else 0)\<rparr>,
                     extraidos s))" by blast
  have b: "simular_banco 2 config_fuente ''cola_unica'' azar_horizonte 0 =
     Some (Inr (\<lparr>res_modo = ''cola_unica'', res_clientes = 0, res_espera_promedio = 0,
                 res_espera_maxima = 0\<rparr>, 1))"
    using corrida_horizonte [of "''cola_unica''" 0]
    by (auto simp: simular_banco_def estadisticas_def)
  from simular_banco_unico [OF r b] r have
    "simular_banco n config_fuente ''cola_unica'' azar_horizonte 0 =
     Some (Inr (\<lparr>res_modo = ''cola_unica'', res_clientes = 0, res_espera_promedio = 0,
                 res_espera_maxima = 0\<rparr>, 1))" by simp
  then show ?thesis using config_fuente_valida azar_horizonte_valido by blast
qed

lemma corrida_a:
  "\<exists>s. ejecutar 20 config_fuente ''colas_separadas'' azar_a 0 = Some (Inr s)
     \<and> tiempos_espera s = [0, 70, 0] \<and> extraidos s = 10"
  by (simp add: evaluar azar_a_def x_a_def)

lemma corrida_b:
  "\<exists>s. ejecutar 20 config_fuente ''colas_separadas'' azar_b 0 = Some (Inr s)
     \<and> tiempos_espera s = [0, 0, 70] \<and> extraidos s = 10"
  by (simp add: evaluar azar_b_def x_b_def)

text \<open>
  C1, as the claim states it, fails: the list of waits cannot be read from what the driver
  returns.  Two runs record the waits 0, 70, 0 and 0, 0, 70 and return the same value.
\<close>

theorem C1_counterexample:
  "map_option (map_sum id tiempos_espera)
     (ejecutar 20 config_fuente ''colas_separadas'' azar_a 0) = Some (Inr [0, 70, 0])
   \<and> map_option (map_sum id tiempos_espera)
     (ejecutar 20 config_fuente ''colas_separadas'' azar_b 0) = Some (Inr [0, 0, 70])
   \<and> simular_banco 20 config_fuente ''colas_separadas'' azar_a 0 =
     simular_banco 20 config_fuente ''colas_separadas'' azar_b 0"
proof -
  from corrida_a obtain sa where
    a: "ejecutar 20 config_fuente ''colas_separadas'' azar_a 0 = Some (Inr sa)"
       "tiempos_espera sa = [0, 70, 0]" "extraidos sa = 10" by blast
  from corrida_b obtain sb where
    b: "ejecutar 20 config_fuente ''colas_separadas'' azar_b 0 = Some (Inr sb)"
       "tiempos_espera sb = [0, 0, 70]" "extraidos sb = 10" by blast
  have "estadisticas ''colas_separadas'' [0, 70, 0] = estadisticas ''colas_separadas'' [0, 0, 70]"
    by (simp add: estadisticas_def)
  with a b show ?thesis by (simp add: simular_banco_def)
qed

section \<open>One sample for each grant\<close>

lemma pend_schedule [simp]:
  "pend (schedule ev p d s) c = pend s c + (if toca c ev then 1 else 0)"
  by (simp add: pend_def)

lemma filter_remove1_length:
  "m \<in> set xs \<Longrightarrow> length (filter P xs) = (if P m then 1 else 0) + length (filter P (remove1 m xs))"
  by (induction xs) auto

lemma pend_extraer:
  assumes "m \<in> set (env_queue s)"
  shows "pend s c = (if toca c (evento_de m) then 1 else 0)
           + pend (s\<lparr>env_now := t, env_queue := remove1 m (env_queue s)\<rparr>) c"
  using filter_remove1_length [OF assms, of "\<lambda>x. toca c (evento_de x)"]
  by (simp add: pend_def)

lemma aporta_vacio: "\<not> tiene_espera s c \<Longrightarrow> aporta s c = {#}"
  by (auto simp: tiene_espera_def aporta_def split: option.splits)

lemma fichas_cero: "fichas s c = 0 \<Longrightarrow> \<not> tiene_espera s c \<and> pend s c = 0"
  by (simp add: fichas_def split: if_splits)

lemma trigger_put_fichas:
  assumes "trigger_put k s = Inr s'"
  shows "pend s' c = pend s c" "marcos s' = marcos s" "gen_i s' = gen_i s"
    "tiempos_espera s' = tiempos_espera s"
proof -
  note t = trigger_put_Inr [OF assms]
  show "marcos s' = marcos s" "gen_i s' = gen_i s" "tiempos_espera s' = tiempos_espera s"
    using t(2) by auto
  from t(2) show "pend s' c = pend s c"
  proof
    assume "do_put (cajeros s ! k) = None \<and> s' = s"
    then show ?thesis by simp
  next
    assume "\<exists>q r. do_put (cajeros s ! k) = Some (q, r)
        \<and> s' = schedule (Request q) NORMAL 0 (s\<lparr>cajeros := (cajeros s)[k := r]\<rparr>)"
    then obtain q r where d: "do_put (cajeros s ! k) = Some (q, r)"
      and s': "s' = schedule (Request q) NORMAL 0 (s\<lparr>cajeros := (cajeros s)[k := r]\<rparr>)"
      by blast
    from do_put_Some [OF d] obtain resto where
      r: "queue (cajeros s ! k) = q # resto" "queue r = resto" by auto
    let ?f = "\<lambda>r. length (filter (\<lambda>q. snd q = c) (queue r))"
    have "sum_list (map ?f ((cajeros s)[k := r])) + ?f (cajeros s ! k)
            = sum_list (map ?f (cajeros s)) + ?f r"
      using t(1) by (rule suma_update)
    then have "sum_list (map ?f (cajeros s))
      = sum_list (map ?f ((cajeros s)[k := r])) + (if snd q = c then 1 else 0)"
      using r by (auto split: if_splits)
    then show ?thesis by (simp add: s' pend_def)
  qed
qed

lemma encolar_pend:
  assumes "k < length (cajeros s)"
  shows "pend (s\<lparr>cajeros := (cajeros s)[k := (cajeros s ! k)\<lparr>queue := queue (cajeros s ! k) @ [q]\<rparr>]\<rparr>) c
           = pend s c + (if snd q = c then 1 else 0)"
proof -
  let ?f = "\<lambda>r. length (filter (\<lambda>q. snd q = c) (queue r))"
  let ?r = "(cajeros s ! k)\<lparr>queue := queue (cajeros s ! k) @ [q]\<rparr>"
  have "sum_list (map ?f ((cajeros s)[k := ?r])) + ?f (cajeros s ! k)
            = sum_list (map ?f (cajeros s)) + ?f ?r"
    using assms by (rule suma_update)
  then show ?thesis by (simp add: pend_def)
qed

lemma despachar_sin_inicio:
  assumes "despachar cfg modo ev s = Inr s'" "ev \<noteq> Initialize Generador"
    "\<forall>x \<in> set (env_queue s). evento_de x \<noteq> Initialize Generador"
  shows "\<forall>x \<in> set (env_queue s'). evento_de x \<noteq> Initialize Generador"
proof (cases "(cfg, modo, ev, s)" rule: despachar.cases)
  case (1 cfg' modo' s0)
  with assms show ?thesis by simp
next
  case (2 cfg' modo' rut c s0)
  with assms have "cliente_inicio cfg (rut, c) s = Inr s'" by simp
  from cliente_inicio_Inr [OF this] obtain k where
    t: "trigger_put k
               (s\<lparr>extraidos := Suc (extraidos s),
                  marcos := (marcos s)(c \<mapsto>
                    \<lparr>llegada = env_now s,
                     tipo = generar_tipo_transaccion (suma cfg) (TRANSACCIONES cfg) (azar s (extraidos s)),
                     cajero = k, espera = None\<rparr>),
                  cajeros := (cajeros s)[k := (cajeros s ! k)\<lparr>queue := queue (cajeros s ! k) @ [(rut, c)]\<rparr>]\<rparr>)
               = Inr s'" by auto
  from trigger_put_Inr(2) [OF t] assms(3) show ?thesis by auto
next
  case (3 cfg' modo' s0)
  with assms have "generador_despierta cfg modo s = Inr s'" by simp
  from generador_despierta_Inr [OF this] assms(3) show ?thesis
    by (auto simp: lanzar_cliente_def split: if_splits)
next
  case (4 cfg' modo' rut c s0)
  with assms have "cliente_salida (rut, c) s = Inr s'" by simp
  from cliente_salida_Inr [OF this] assms(3) show ?thesis by auto
next
  case (5 cfg' modo' q s0)
  with assms have "cliente_atendido cfg q s = Inr s'" by simp
  from cliente_atendido_Inr [OF this] assms(3) show ?thesis by auto
next
  case (6 cfg' modo' k s0)
  with assms have "trigger_put k s = Inr s'" by simp
  from trigger_put_Inr(2) [OF this] assms(3) show ?thesis by auto
next
  case 7 with assms show ?thesis by simp
next
  case 8 with assms show ?thesis by simp
qed

lemma tiene_espera_cong: "marcos s' = marcos s \<Longrightarrow> tiene_espera s' c = tiene_espera s c"
  by (simp add: tiene_espera_def)

lemma aporta_cong: "marcos s' = marcos s \<Longrightarrow> aporta s' c = aporta s c"
  by (simp add: aporta_def)

lemma pend_cong:
  "env_queue s' = env_queue s \<Longrightarrow> cajeros s' = cajeros s \<Longrightarrow> pend s' c = pend s c"
  by (simp add: pend_def)

lemma lanzar_cliente_pend:
  "pend (lanzar_cliente modo s) c \<le> pend s c + (if c = gen_i s then 1 else 0)"
  by (simp add: lanzar_cliente_def)

text \<open>The generator wakes up.\<close>

lemma generador_despierta_fichas:
  assumes "generador_despierta cfg modo s = Inr s'"
    "\<forall>c. fichas s c \<le> 1" "\<forall>c. gen_i s < c \<longrightarrow> fichas s c = 0"
    "mset (tiempos_espera s) = esperas_registradas s"
  shows "(\<forall>c. fichas s' c \<le> 1) \<and> (\<forall>c. gen_i s' < c \<longrightarrow> fichas s' c = 0)
         \<and> mset (tiempos_espera s') = esperas_registradas s'"
proof -
  let ?L = "lanzar_cliente modo (s\<lparr>gen_i := gen_i s + 1\<rparr>)"
  from generador_despierta_Inr [OF assms(1)] obtain d where
    s': "s' = schedule (Timeout Generador) NORMAL d (?L\<lparr>extraidos := Suc (extraidos s)\<rparr>)"
    by blast
  have m: "marcos s' = marcos s" and g: "gen_i s' = Suc (gen_i s)"
    and t: "tiempos_espera s' = tiempos_espera s" by (simp_all add: s')
  have "pend s' c = pend ?L c" for c by (simp add: s' pend_def)
  moreover have "pend (s\<lparr>gen_i := gen_i s + 1\<rparr>) c = pend s c" for c by (simp add: pend_def)
  ultimately have p: "pend s' c \<le> pend s c + (if c = Suc (gen_i s) then 1 else 0)" for c
    using lanzar_cliente_pend [of modo "s\<lparr>gen_i := gen_i s + 1\<rparr>" c] by simp
  have te: "tiene_espera s' c = tiene_espera s c" for c using m by (rule tiene_espera_cong)
  have f: "fichas s' c \<le> fichas s c + (if c = Suc (gen_i s) then 1 else 0)" for c
    using p [of c] te [of c] by (simp add: fichas_def)
  have z: "fichas s (Suc (gen_i s)) = 0" using assms(3) by simp
  have 1: "\<forall>c. fichas s' c \<le> 1"
  proof
    fix c
    show "fichas s' c \<le> 1"
      using f [of c] z assms(2) [rule_format, of c] by (cases "c = Suc (gen_i s)") simp_all
  qed
  have 2: "\<forall>c. gen_i s' < c \<longrightarrow> fichas s' c = 0"
  proof (intro allI impI)
    fix c assume "gen_i s' < c"
    then have "gen_i s < c" "c \<noteq> Suc (gen_i s)" using g by simp_all
    with f [of c] assms(3) show "fichas s' c = 0" by simp
  qed
  have "aporta s (Suc (gen_i s)) = {#}" using fichas_cero [OF z] by (simp add: aporta_vacio)
  then have "esperas_registradas s' = esperas_registradas s"
    using aporta_cong [OF m] g by (simp add: esperas_registradas_def atMost_Suc)
  with 1 2 t assms(4) show ?thesis by simp
qed

text \<open>A customer starts.\<close>

lemma cliente_inicio_fichas:
  assumes "cliente_inicio cfg (rut, c0) s = Inr s'"
    "\<forall>c. fichas s c + (if c = c0 then 1 else 0) \<le> 1"
    "\<forall>c. gen_i s < c \<longrightarrow> fichas s c + (if c = c0 then 1 else 0) = 0"
    "mset (tiempos_espera s) = esperas_registradas s"
  shows "(\<forall>c. fichas s' c \<le> 1) \<and> (\<forall>c. gen_i s' < c \<longrightarrow> fichas s' c = 0)
         \<and> mset (tiempos_espera s') = esperas_registradas s'"
proof -
  from cliente_inicio_Inr [OF assms(1)] obtain k where k: "k < length (cajeros s)" and
    t: "trigger_put k
               (s\<lparr>extraidos := Suc (extraidos s),
                  marcos := (marcos s)(c0 \<mapsto>
                    \<lparr>llegada = env_now s,
                     tipo = generar_tipo_transaccion (suma cfg) (TRANSACCIONES cfg) (azar s (extraidos s)),
                     cajero = k, espera = None\<rparr>),
                  cajeros := (cajeros s)[k := (cajeros s ! k)\<lparr>queue := queue (cajeros s ! k) @ [(rut, c0)]\<rparr>]\<rparr>)
               = Inr s'" (is "trigger_put k ?s1 = _") by auto
  note tf = trigger_put_fichas [OF t]
  have "pend ?s1 c = pend (s\<lparr>cajeros := (cajeros s)[k := (cajeros s ! k)\<lparr>queue := queue (cajeros s ! k) @ [(rut, c0)]\<rparr>]\<rparr>) c" for c
    by (rule pend_cong) simp_all
  then have p: "pend s' c = pend s c + (if c = c0 then 1 else 0)" for c
    using encolar_pend [OF k, of "(rut, c0)" c] tf(1) [of c] by auto
  have z: "fichas s c0 = 0" using assms(2) [rule_format, of c0] by simp
  have te: "tiene_espera s' c = tiene_espera s c" for c
    using fichas_cero [OF z] tf(2) by (simp add: tiene_espera_def)
  have ap: "aporta s' c = aporta s c" for c
    using fichas_cero [OF z] tf(2) by (auto simp: tiene_espera_def aporta_def split: option.splits)
  have f: "fichas s' c = fichas s c + (if c = c0 then 1 else 0)" for c
    using p [of c] te [of c] by (simp add: fichas_def)
  have "esperas_registradas s' = esperas_registradas s"
    using ap tf(3) by (simp add: esperas_registradas_def)
  with f assms(2,3,4) tf(3,4) show ?thesis by simp
qed

text \<open>A customer obtains its grant.\<close>

lemma cliente_atendido_fichas:
  assumes "cliente_atendido cfg q s = Inr s'"
    "\<forall>c. fichas s c + (if c = snd q then 1 else 0) \<le> 1"
    "\<forall>c. gen_i s < c \<longrightarrow> fichas s c + (if c = snd q then 1 else 0) = 0"
    "mset (tiempos_espera s) = esperas_registradas s"
  shows "(\<forall>c. fichas s' c \<le> 1) \<and> (\<forall>c. gen_i s' < c \<longrightarrow> fichas s' c = 0)
         \<and> mset (tiempos_espera s') = esperas_registradas s'"
proof -
  from cliente_atendido_Inr [OF assms(1)] obtain m d where m: "marcos s (snd q) = Some m"
    and s': "s' = schedule (Timeout (Cliente (fst q) (snd q))) NORMAL d
                   (s\<lparr>tiempos_espera := tiempos_espera s @ [env_now s - llegada m],
                      marcos := (marcos s)(snd q \<mapsto> m\<lparr>espera := Some (env_now s - llegada m)\<rparr>),
                      extraidos := Suc (extraidos s)\<rparr>)" by blast
  let ?w = "env_now s - llegada m"
  have p: "pend s' c = pend s c" for c by (simp add: s' pend_def)
  have z: "fichas s (snd q) = 0" using assms(2) [rule_format, of "snd q"] by simp
  have le: "snd q \<le> gen_i s"
    using assms(3) [rule_format, of "snd q"] by (cases "gen_i s < snd q") simp_all
  have te: "tiene_espera s' c = (c = snd q \<or> tiene_espera s c)" for c
    by (simp add: s' tiene_espera_def)
  have f: "fichas s' c = fichas s c + (if c = snd q then 1 else 0)" for c
    using p [of c] te [of c] fichas_cero [OF z] by (auto simp: fichas_def)
  have ap: "aporta s' c = (if c = snd q then {#?w#} else aporta s c)" for c
    by (simp add: s' aporta_def)
  have a0: "aporta s (snd q) = {#}" using fichas_cero [OF z] by (simp add: aporta_vacio)
  have "esperas_registradas s' = (\<Sum>c \<in> {..gen_i s}. if c = snd q then {#?w#} else aporta s c)"
    using ap by (simp add: esperas_registradas_def s')
  also have "\<dots> = {#?w#} + (\<Sum>c \<in> {..gen_i s} - {snd q}. aporta s c)"
    using le by (simp add: sum.remove [of _ "snd q"])
  also have "(\<Sum>c \<in> {..gen_i s} - {snd q}. aporta s c) = esperas_registradas s"
    using le a0 by (simp add: esperas_registradas_def sum.remove [of _ "snd q"])
  finally have "esperas_registradas s' = {#?w#} + esperas_registradas s" .
  moreover have "mset (tiempos_espera s') = {#?w#} + mset (tiempos_espera s)" by (simp add: s')
  moreover have "gen_i s' = gen_i s" by (simp add: s')
  ultimately show ?thesis using f assms(2,3,4) by simp
qed

text \<open>A customer leaves.\<close>

lemma cliente_salida_fichas:
  assumes "cliente_salida q s = Inr s'"
  shows "pend s' c = pend s c" "marcos s' = marcos s" "gen_i s' = gen_i s"
    "tiempos_espera s' = tiempos_espera s"
proof -
  from cliente_salida_Inr [OF assms] obtain m :: marco where k: "cajero m < length (cajeros s)"
    and s': "s' = schedule (Process q) NORMAL 0 (schedule (Release (cajero m)) NORMAL 0
                   (s\<lparr>cajeros := (cajeros s)[cajero m :=
                        (cajeros s ! cajero m)\<lparr>users := remove1 q (users (cajeros s ! cajero m))\<rparr>]\<rparr>))"
    by blast
  show "marcos s' = marcos s" "gen_i s' = gen_i s" "tiempos_espera s' = tiempos_espera s"
    by (simp_all add: s')
  let ?f = "\<lambda>r. length (filter (\<lambda>q. snd q = c) (queue r))"
  let ?r = "(cajeros s ! cajero m)\<lparr>users := remove1 q (users (cajeros s ! cajero m))\<rparr>"
  have "sum_list (map ?f ((cajeros s)[cajero m := ?r])) + ?f (cajeros s ! cajero m)
            = sum_list (map ?f (cajeros s)) + ?f ?r"
    using k by (rule suma_update)
  then show "pend s' c = pend s c" by (simp add: s' pend_def)
qed

lemma fichas_cong:
  assumes "\<And>c. pend s' c = pend s c" "marcos s' = marcos s" "gen_i s' = gen_i s"
    "tiempos_espera s' = tiempos_espera s"
    "\<forall>c. fichas s c \<le> 1" "\<forall>c. gen_i s < c \<longrightarrow> fichas s c = 0"
    "mset (tiempos_espera s) = esperas_registradas s"
  shows "(\<forall>c. fichas s' c \<le> 1) \<and> (\<forall>c. gen_i s' < c \<longrightarrow> fichas s' c = 0)
         \<and> mset (tiempos_espera s') = esperas_registradas s'"
proof -
  have "fichas s' c = fichas s c" for c
    using assms(1) [of c] tiene_espera_cong [OF assms(2), of c] by (simp add: fichas_def)
  moreover have "esperas_registradas s' = esperas_registradas s"
    using aporta_cong [OF assms(2)] assms(3) by (simp add: esperas_registradas_def)
  ultimately show ?thesis using assms(3-7) by simp
qed

lemma paso_fichas:
  assumes "inv_fichas s" "paso cfg modo s = Inr (parar, s')"
  shows "inv_fichas s'"
proof -
  from paso_Inr [OF assms(2)] obtain m where m: "m \<in> set (env_queue s)"
    and c: "if evento_de m = Until
            then parar \<and> s' = s\<lparr>env_now := fst m, env_queue := remove1 m (env_queue s)\<rparr>
            else \<not> parar \<and> despachar cfg modo (evento_de m)
                   (s\<lparr>env_now := fst m, env_queue := remove1 m (env_queue s)\<rparr>) = Inr s'"
    by blast
  let ?s1 = "s\<lparr>env_now := fst m, env_queue := remove1 m (env_queue s)\<rparr>"
  let ?ev = "evento_de m"
  from assms(1) have i: "\<forall>x \<in> set (env_queue s). evento_de x \<noteq> Initialize Generador"
    "\<forall>c. fichas s c \<le> 1" "\<forall>c. gen_i s < c \<longrightarrow> fichas s c = 0"
    "mset (tiempos_espera s) = esperas_registradas s"
    by (simp_all add: inv_fichas_def)
  have ev: "?ev \<noteq> Initialize Generador" using i(1) m by simp
  have q1: "\<forall>x \<in> set (env_queue ?s1). evento_de x \<noteq> Initialize Generador"
    using i(1) by (auto dest: notin_set_remove1)
  have f: "fichas s c = fichas ?s1 c + (if toca c ?ev then 1 else 0)" for c
    using pend_extraer [OF m, of c "fst m"] tiene_espera_cong [of ?s1 s c]
    by (simp add: fichas_def)
  have e1: "esperas_registradas ?s1 = esperas_registradas s"
    using aporta_cong [of ?s1 s] by (simp add: esperas_registradas_def)
  have a: "\<forall>c. fichas ?s1 c + (if toca c ?ev then 1 else 0) \<le> 1"
    "\<forall>c. gen_i ?s1 < c \<longrightarrow> fichas ?s1 c + (if toca c ?ev then 1 else 0) = 0"
    "mset (tiempos_espera ?s1) = esperas_registradas ?s1"
    using i(2,3,4) f e1 by simp_all
  have b: "\<forall>c. fichas ?s1 c \<le> 1" "\<forall>c. gen_i ?s1 < c \<longrightarrow> fichas ?s1 c = 0"
  proof -
    show "\<forall>c. fichas ?s1 c \<le> 1"
    proof
      fix c show "fichas ?s1 c \<le> 1" using a(1) [rule_format, of c] by (simp split: if_splits)
    qed
    show "\<forall>c. gen_i ?s1 < c \<longrightarrow> fichas ?s1 c = 0"
    proof (intro allI impI)
      fix c assume "gen_i ?s1 < c"
      with a(2) show "fichas ?s1 c = 0" by (simp split: if_splits)
    qed
  qed
  have r: "(\<forall>c. fichas s' c \<le> 1) \<and> (\<forall>c. gen_i s' < c \<longrightarrow> fichas s' c = 0)
         \<and> mset (tiempos_espera s') = esperas_registradas s'
         \<and> (\<forall>x \<in> set (env_queue s'). evento_de x \<noteq> Initialize Generador)"
  proof (cases "?ev = Until")
    case True
    with c have "s' = ?s1" by simp
    with b a(3) q1 show ?thesis by simp
  next
    case False
    with c have d: "despachar cfg modo ?ev ?s1 = Inr s'" by simp
    note q' = despachar_sin_inicio [OF d ev q1]
    show ?thesis
    proof (cases ?ev)
      case (Initialize p)
      with ev obtain rut c0 where p: "?ev = Initialize (Cliente rut c0)" by (cases p) auto
      with d have "cliente_inicio cfg (rut, c0) ?s1 = Inr s'" by simp
      from cliente_inicio_fichas [OF this] a p q' show ?thesis
        by (simp add: eq_commute [of c0])
    next
      case (Timeout p)
      show ?thesis
      proof (cases p)
        case Generador
        with Timeout d have "generador_despierta cfg modo ?s1 = Inr s'" by simp
        from generador_despierta_fichas [OF this b a(3)] q' show ?thesis by simp
      next
        case (Cliente rut c0)
        with Timeout d have "cliente_salida (rut, c0) ?s1 = Inr s'" by simp
        note cs = cliente_salida_fichas [OF this]
        from fichas_cong [OF cs b a(3)] q' show ?thesis by simp
      qed
    next
      case (Request q)
      with d have "cliente_atendido cfg q ?s1 = Inr s'" by simp
      from cliente_atendido_fichas [OF this] a Request q' show ?thesis
        by (simp add: eq_commute [of "snd q"])
    next
      case (Release k)
      with d have "trigger_put k ?s1 = Inr s'" by simp
      note tf = trigger_put_fichas [OF this]
      from fichas_cong [OF tf b a(3)] q' show ?thesis by simp
    next
      case (Process q)
      with d have "s' = ?s1" by simp
      with b a(3) q1 show ?thesis by simp
    next
      case Until
      with False show ?thesis by simp
    qed
  qed
  then show ?thesis by (simp add: inv_fichas_def)
qed

lemma correr_fichas:
  "inv_fichas s \<Longrightarrow> correr n cfg modo s = Some (Inr s') \<Longrightarrow> inv_fichas s'"
proof (induction n arbitrary: s)
  case 0
  then show ?case by simp
next
  case (Suc n)
  from Suc.prems(2) obtain parar s1 where p: "paso cfg modo s = Inr (parar, s1)"
    by (auto split: sum.splits)
  note i = paso_fichas [OF Suc.prems(1) p]
  show ?case
  proof (cases parar)
    case True
    with p Suc.prems(2) i show ?thesis by simp
  next
    case False
    with p Suc.prems(2) have "correr n cfg modo s1 = Some (Inr s')" by simp
    from Suc.IH [OF i this] show ?thesis .
  qed
qed

text \<open>The first step of every run starts the generator.\<close>

lemma primer_paso:
  assumes "preparar cfg modo u k = Inr s0" "paso cfg modo s0 = Inr (parar, s1)"
  shows "\<not> parar \<and> inv_fichas s1"
proof -
  from assms(1) obtain cs where H: "0 < TIEMPO_SIMULACION cfg"
    and s0: "s0 = schedule Until URGENT (TIEMPO_SIMULACION cfg)
                  (schedule (Initialize Generador) URGENT 0 ((entorno u k)\<lparr>cajeros := cs\<rparr>))"
    and cs: "\<forall>r \<in> set cs. queue r = []"
    by (auto simp: preparar_def crear_cajeros_def Resource_def ligar_Inr split: if_splits)
  let ?a = "(0, URGENT, 0, Initialize Generador)"
  let ?b = "(TIEMPO_SIMULACION cfg, URGENT, Suc 0, Until)"
  have q: "env_queue s0 = [?a, ?b]" by (simp add: s0 entorno_def)
  have hp: "heappop (env_queue s0) = Some (?a, [?b])"
    using H by (simp add: q heappop_def clave_def)
  let ?s = "s0\<lparr>env_now := 0, env_queue := [?b]\<rparr>"
  from assms(2) hp have g: "generador_inicio cfg ?s = Inr s1" and np: "\<not> parar"
    by (auto simp: paso_def ligar_Inr)
  from generador_inicio_Inr [OF g] obtain d where
    s1: "s1 = schedule (Timeout Generador) NORMAL d (?s\<lparr>gen_i := 0, extraidos := Suc (extraidos ?s)\<rparr>)"
    by blast
  have m: "marcos s1 = Map.empty" "tiempos_espera s1 = []" "cajeros s1 = cs"
    by (simp_all add: s1 s0 entorno_def)
  have "sum_list (map (\<lambda>r. length (filter (\<lambda>q. snd q = c) (queue r))) cs) = 0" for c
    using cs by (simp add: sum_list_eq_0_iff)
  then have "pend s1 c = 0" for c by (simp add: pend_def m(3)) (simp add: s1)
  then have f: "fichas s1 c = 0" for c by (simp add: fichas_def tiene_espera_def m)
  have "esperas_registradas s1 = {#}"
    by (simp add: esperas_registradas_def aporta_def m)
  with f m(2) have "inv_fichas s1" by (simp add: inv_fichas_def) (simp add: s1)
  with np show ?thesis by simp
qed

lemma ejecutar_fichas:
  assumes "ejecutar n cfg modo u k = Some (Inr s)"
  shows "inv_fichas s"
proof -
  from assms obtain s0 where p: "preparar cfg modo u k = Inr s0"
    and c: "correr n cfg modo s0 = Some (Inr s)"
    by (auto simp: ejecutar_def split: sum.splits)
  from c obtain n' where n: "n = Suc n'" by (cases n) simp_all
  from c n obtain parar s1 where ps: "paso cfg modo s0 = Inr (parar, s1)"
    by (auto split: sum.splits)
  from primer_paso [OF p ps] have np: "\<not> parar" and i: "inv_fichas s1" by simp_all
  from c n ps np have "correr n' cfg modo s1 = Some (Inr s)" by simp
  from correr_fichas [OF i this] show ?thesis .
qed

lemma despachar_muestras:
  assumes "despachar cfg modo ev s = Inr s'" "\<forall>p. ev \<noteq> Request p"
  shows "tiempos_espera s' = tiempos_espera s"
proof (cases "(cfg, modo, ev, s)" rule: despachar.cases)
  case (1 cfg' modo' s0)
  with assms have "generador_inicio cfg s = Inr s'" by simp
  from generador_inicio_Inr [OF this] show ?thesis by auto
next
  case (2 cfg' modo' rut c s0)
  with assms have "cliente_inicio cfg (rut, c) s = Inr s'" by simp
  from cliente_inicio_Inr [OF this] obtain k where
    t: "trigger_put k
               (s\<lparr>extraidos := Suc (extraidos s),
                  marcos := (marcos s)(c \<mapsto>
                    \<lparr>llegada = env_now s,
                     tipo = generar_tipo_transaccion (suma cfg) (TRANSACCIONES cfg) (azar s (extraidos s)),
                     cajero = k, espera = None\<rparr>),
                  cajeros := (cajeros s)[k := (cajeros s ! k)\<lparr>queue := queue (cajeros s ! k) @ [(rut, c)]\<rparr>]\<rparr>)
               = Inr s'" by auto
  from trigger_put_fichas(4) [OF t] show ?thesis by simp
next
  case (3 cfg' modo' s0)
  with assms have "generador_despierta cfg modo s = Inr s'" by simp
  from generador_despierta_Inr [OF this] show ?thesis by auto
next
  case (4 cfg' modo' rut c s0)
  with assms have "cliente_salida (rut, c) s = Inr s'" by simp
  from cliente_salida_fichas(4) [OF this] show ?thesis .
next
  case (5 cfg' modo' q s0)
  with assms(2) show ?thesis by blast
next
  case (6 cfg' modo' k s0)
  with assms have "trigger_put k s = Inr s'" by simp
  from trigger_put_fichas(4) [OF this] show ?thesis .
next
  case 7 with assms show ?thesis by simp
next
  case 8 with assms show ?thesis by simp
qed

lemma cliente_inicio_llegada:
  assumes "cliente_inicio cfg q s = Inr s'"
  shows "map_option llegada (marcos s' (snd q)) = Some (env_now s)"
proof -
  from cliente_inicio_Inr [OF assms] obtain k where
    t: "trigger_put k
               (s\<lparr>extraidos := Suc (extraidos s),
                  marcos := (marcos s)(snd q \<mapsto>
                    \<lparr>llegada = env_now s,
                     tipo = generar_tipo_transaccion (suma cfg) (TRANSACCIONES cfg) (azar s (extraidos s)),
                     cajero = k, espera = None\<rparr>),
                  cajeros := (cajeros s)[k := (cajeros s ! k)\<lparr>queue := queue (cajeros s ! k) @ [q]\<rparr>]\<rparr>)
               = Inr s'" by auto
  from trigger_put_fichas(2) [OF t] show ?thesis by simp
qed

text \<open>
  C5.  A customer routine records its arrival time when it starts; a grant schedules the
  event of the request at the time of the grant; when the routine goes on from there it
  appends exactly the wait (that time minus the arrival time) to the list and only then
  draws the service time and waits for it; no other event changes the list.  In every run
  that returns, the recorded waits are, as a multiset, the waits of the customers whose
  routine got past the grant, one for each, and a customer is never on its way to a
  grant twice or after its wait was recorded.
\<close>

theorem C5_una_muestra_por_cliente:
  "(cliente_inicio cfg q s = Inr s' \<longrightarrow>
      map_option llegada (marcos s' (snd q)) = Some (env_now s))
   \<and> (trigger_put j s = Inr s' \<longrightarrow>
        s' = s \<or> (\<exists>p. env_queue s' = env_queue s @ [(env_now s, NORMAL, env_eid s, Request p)]))
   \<and> (cliente_atendido cfg q s = Inr s' \<longrightarrow>
        (\<exists>m d. marcos s (snd q) = Some m
           \<and> tiempos_espera s' = tiempos_espera s @ [env_now s - llegada m]
           \<and> map_option espera (marcos s' (snd q)) = Some (Some (env_now s - llegada m))
           \<and> 0 \<le> d
           \<and> env_queue s' = env_queue s @
                [(env_now s + d, NORMAL, env_eid s, Timeout (Cliente (fst q) (snd q)))]))
   \<and> (despachar cfg modo ev s = Inr s' \<and> (\<forall>p. ev \<noteq> Request p) \<longrightarrow>
        tiempos_espera s' = tiempos_espera s)
   \<and> (ejecutar n cfg modo u k = Some (Inr sf) \<longrightarrow>
        mset (tiempos_espera sf) = esperas_registradas sf \<and> (\<forall>c. fichas sf c \<le> 1))"
proof (intro conjI impI)
  assume "cliente_inicio cfg q s = Inr s'"
  then show "map_option llegada (marcos s' (snd q)) = Some (env_now s)"
    by (rule cliente_inicio_llegada)
next
  assume "trigger_put j s = Inr s'"
  from trigger_put_Inr(2) [OF this]
  show "s' = s \<or> (\<exists>p. env_queue s' = env_queue s @ [(env_now s, NORMAL, env_eid s, Request p)])"
    by auto
next
  assume "cliente_atendido cfg q s = Inr s'"
  from cliente_atendido_Inr [OF this] obtain m d where "marcos s (snd q) = Some m" "0 \<le> d"
    "s' = schedule (Timeout (Cliente (fst q) (snd q))) NORMAL d
                   (s\<lparr>tiempos_espera := tiempos_espera s @ [env_now s - llegada m],
                      marcos := (marcos s)(snd q \<mapsto> m\<lparr>espera := Some (env_now s - llegada m)\<rparr>),
                      extraidos := Suc (extraidos s)\<rparr>)" by blast
  then show "\<exists>m d. marcos s (snd q) = Some m
           \<and> tiempos_espera s' = tiempos_espera s @ [env_now s - llegada m]
           \<and> map_option espera (marcos s' (snd q)) = Some (Some (env_now s - llegada m))
           \<and> 0 \<le> d
           \<and> env_queue s' = env_queue s @
                [(env_now s + d, NORMAL, env_eid s, Timeout (Cliente (fst q) (snd q)))]"
    by (intro exI [of _ m] exI [of _ d]) simp
next
  assume "despachar cfg modo ev s = Inr s' \<and> (\<forall>p. ev \<noteq> Request p)"
  then show "tiempos_espera s' = tiempos_espera s" using despachar_muestras by blast
next
  assume "ejecutar n cfg modo u k = Some (Inr sf)"
  from ejecutar_fichas [OF this]
  show "mset (tiempos_espera sf) = esperas_registradas sf" "\<forall>c. fichas sf c \<le> 1"
    by (simp_all add: inv_fichas_def)
qed

theorem C5_una_muestra_por_cliente_witness:
  "\<exists>s. ejecutar 20 config_fuente ''colas_separadas'' azar_a 0 = Some (Inr s)
      \<and> tiempos_espera s = [0, 70, 0] \<and> esperas_registradas s = {#0, 70, 0#}"
proof -
  from corrida_a obtain s where
    r: "ejecutar 20 config_fuente ''colas_separadas'' azar_a 0 = Some (Inr s)"
    and t: "tiempos_espera s = [0, 70, 0]" by blast
  from C5_una_muestra_por_cliente
    [where n = 20 and cfg = config_fuente and modo = "''colas_separadas''" and u = azar_a
       and k = 0 and sf = s] r
  have "mset (tiempos_espera s) = esperas_registradas s" by blast
  with r t show ?thesis by (intro exI [of _ s]) (simp add: add.commute)
qed

section \<open>Determinism\<close>

text \<open>
  A run reads the random stream only at the positions it takes: replacing the stream by
  one with the same values there changes nothing else in the states of the run.
\<close>

lemma schedule_azar:
  "schedule ev pr d (s\<lparr>azar := u'\<rparr>) = (schedule ev pr d s)\<lparr>azar := u'\<rparr>"
  by (simp add: schedule_def)

lemma timeout_azar:
  "timeout p d (s\<lparr>azar := u'\<rparr>) = map_sum id (\<lambda>t. t\<lparr>azar := u'\<rparr>) (timeout p d s)"
  by (simp add: timeout_def schedule_azar)

lemma trigger_put_azar:
  "trigger_put k (s\<lparr>azar := u'\<rparr>) = map_sum id (\<lambda>t. t\<lparr>azar := u'\<rparr>) (trigger_put k s)"
  by (simp add: trigger_put_def schedule_def split: option.splits)

lemma request_azar:
  "request k q (s\<lparr>azar := u'\<rparr>) = map_sum id (\<lambda>t. t\<lparr>azar := u'\<rparr>) (request k q s)"
proof -
  have e: "s\<lparr>azar := u', cajeros := cs\<rparr> = s\<lparr>cajeros := cs, azar := u'\<rparr>" for cs
    by (cases s) simp
  show ?thesis by (simp add: request_def e trigger_put_azar)
qed

lemma release_azar:
  "release k q (s\<lparr>azar := u'\<rparr>) = map_sum id (\<lambda>t. t\<lparr>azar := u'\<rparr>) (release k q s)"
  by (simp add: release_def schedule_def)

lemma expovariate_azar:
  assumes "u' (extraidos s) = azar s (extraidos s)"
  shows "expovariate lambd (s\<lparr>azar := u'\<rparr>) =
           map_sum id (\<lambda>(d, t). (d, t\<lparr>azar := u'\<rparr>)) (expovariate lambd s)"
  using assms by (simp add: expovariate_def random_py_def)

lemma espera_temporizada_azar:
  assumes "u' (extraidos s) = azar s (extraidos s)"
  shows "ligar (expovariate lambd (s\<lparr>azar := u'\<rparr>)) (\<lambda>(d, s1). timeout p d s1) =
           map_sum id (\<lambda>t. t\<lparr>azar := u'\<rparr>)
             (ligar (expovariate lambd s) (\<lambda>(d, s1). timeout p d s1))"
proof (cases "expovariate lambd s")
  case (Inl e)
  with expovariate_azar [of u' s lambd] assms show ?thesis by simp
next
  case (Inr v)
  obtain d s1 where v: "v = (d, s1)" by (cases v)
  with Inr expovariate_azar [of u' s lambd] assms show ?thesis by (simp add: timeout_azar)
qed

lemma generador_inicio_azar:
  assumes "u' (extraidos s) = azar s (extraidos s)"
  shows "generador_inicio cfg (s\<lparr>azar := u'\<rparr>) =
           map_sum id (\<lambda>t. t\<lparr>azar := u'\<rparr>) (generador_inicio cfg s)"
proof -
  have e: "s\<lparr>azar := u', gen_i := 0\<rparr> = s\<lparr>gen_i := 0, azar := u'\<rparr>" by (cases s) simp
  from espera_temporizada_azar [of u' "s\<lparr>gen_i := 0\<rparr>" "LAMBDA cfg" Generador] assms
  show ?thesis by (simp add: generador_inicio_def generar_tiempo_llegada_def e)
qed

lemma lanzar_cliente_azar:
  "lanzar_cliente modo (s\<lparr>azar := u'\<rparr>) = (lanzar_cliente modo s)\<lparr>azar := u'\<rparr>"
  by (simp add: lanzar_cliente_def schedule_def)

lemma lanzar_cliente_extraidos:
  "extraidos (lanzar_cliente modo s) = extraidos s" "azar (lanzar_cliente modo s) = azar s"
  by (simp_all add: lanzar_cliente_def schedule_def)

lemma generador_despierta_azar:
  assumes "u' (extraidos s) = azar s (extraidos s)"
  shows "generador_despierta cfg modo (s\<lparr>azar := u'\<rparr>) =
           map_sum id (\<lambda>t. t\<lparr>azar := u'\<rparr>) (generador_despierta cfg modo s)"
proof -
  let ?s1 = "lanzar_cliente modo (s\<lparr>gen_i := gen_i s + 1\<rparr>)"
  have a: "u' (extraidos ?s1) = azar ?s1 (extraidos ?s1)"
    using assms by (simp add: lanzar_cliente_extraidos)
  have e: "s\<lparr>azar := u', gen_i := Suc (gen_i s)\<rparr> = s\<lparr>gen_i := Suc (gen_i s), azar := u'\<rparr>"
    by (cases s) simp
  from espera_temporizada_azar [of u' ?s1 "LAMBDA cfg" Generador] a show ?thesis
    by (simp add: generador_despierta_def generar_tiempo_llegada_def e lanzar_cliente_azar)
qed

lemma elegir_cajero_azar:
  "elegir_cajero rut (s\<lparr>azar := u'\<rparr>) = elegir_cajero rut s"
  "elegir_cajero rut (s\<lparr>extraidos := j\<rparr>) = elegir_cajero rut s"
  by (simp_all add: elegir_cajero_def split: rutina.splits)

lemma cliente_inicio_azar:
  assumes "u' (extraidos s) = azar s (extraidos s)"
  shows "cliente_inicio cfg q (s\<lparr>azar := u'\<rparr>) =
           map_sum id (\<lambda>t. t\<lparr>azar := u'\<rparr>) (cliente_inicio cfg q s)"
proof (cases "elegir_cajero (fst q) s")
  case (Inl e)
  then show ?thesis by (simp add: cliente_inicio_def random_py_def elegir_cajero_azar)
next
  case (Inr k)
  let ?m = "\<lparr>llegada = env_now s,
             tipo = generar_tipo_transaccion (suma cfg) (TRANSACCIONES cfg) (azar s (extraidos s)),
             cajero = k, espera = None\<rparr>"
  let ?s2 = "s\<lparr>extraidos := Suc (extraidos s), marcos := (marcos s)(snd q \<mapsto> ?m)\<rparr>"
  have e: "s\<lparr>azar := u', extraidos := j, marcos := ms\<rparr> =
           s\<lparr>extraidos := j, marcos := ms, azar := u'\<rparr>" for j ms
    by (cases s) simp
  from request_azar [of k q u' ?s2] Inr assms show ?thesis
    by (simp add: cliente_inicio_def random_py_def elegir_cajero_azar e)
qed

lemma cliente_atendido_azar:
  assumes "u' (extraidos s) = azar s (extraidos s)"
  shows "cliente_atendido cfg q (s\<lparr>azar := u'\<rparr>) =
           map_sum id (\<lambda>t. t\<lparr>azar := u'\<rparr>) (cliente_atendido cfg q s)"
proof (cases "marcos s (snd q)")
  case None
  then show ?thesis by (simp add: cliente_atendido_def)
next
  case (Some m)
  let ?s1 = "s\<lparr>tiempos_espera := tiempos_espera s @ [env_now s - llegada m],
               marcos := (marcos s)(snd q \<mapsto> m\<lparr>espera := Some (env_now s - llegada m)\<rparr>)\<rparr>"
  have a: "u' (extraidos ?s1) = azar ?s1 (extraidos ?s1)" using assms by simp
  have e: "s\<lparr>azar := u', tiempos_espera := ts, marcos := ms\<rparr> =
           s\<lparr>tiempos_espera := ts, marcos := ms, azar := u'\<rparr>" for ts ms
    by (cases s) simp
  show ?thesis
  proof (cases "indice (TRANSACCIONES cfg) (tipo m)")
    case (Inl e)
    with Some show ?thesis by (simp add: cliente_atendido_def generar_tiempo_servicio_def)
  next
    case (Inr pm)
    obtain p media where pm: "pm = (p, media)" by (cases pm)
    show ?thesis
    proof (cases "media = 0")
      case True
      with Some Inr pm show ?thesis
        by (simp add: cliente_atendido_def generar_tiempo_servicio_def)
    next
      case False
      with Some Inr pm a
        espera_temporizada_azar [of u' ?s1 "1 / media" "Cliente (fst q) (snd q)"]
      show ?thesis
        by (simp add: cliente_atendido_def generar_tiempo_servicio_def e)
    qed
  qed
qed

lemma cliente_salida_azar:
  "cliente_salida q (s\<lparr>azar := u'\<rparr>) = map_sum id (\<lambda>t. t\<lparr>azar := u'\<rparr>) (cliente_salida q s)"
proof (cases "marcos s (snd q)")
  case None
  then show ?thesis by (simp add: cliente_salida_def)
next
  case (Some m)
  show ?thesis
  proof (cases "release (cajero m) q s")
    case (Inl e)
    with Some release_azar [of "cajero m" q u' s] show ?thesis
      by (simp add: cliente_salida_def)
  next
    case (Inr s1)
    with Some release_azar [of "cajero m" q u' s] show ?thesis
      by (simp add: cliente_salida_def schedule_azar)
  qed
qed

lemma despachar_azar:
  assumes "extrae ev \<longrightarrow> u' (extraidos s) = azar s (extraidos s)"
  shows "despachar cfg modo ev (s\<lparr>azar := u'\<rparr>) =
           map_sum id (\<lambda>t. t\<lparr>azar := u'\<rparr>) (despachar cfg modo ev s)"
  using assms
  by (cases "(cfg, modo, ev, s)" rule: despachar.cases)
    (simp_all add: generador_inicio_azar cliente_inicio_azar generador_despierta_azar
      cliente_salida_azar cliente_atendido_azar trigger_put_azar)

lemma trigger_put_extraidos:
  assumes "trigger_put k s = Inr t"
  shows "azar t = azar s" "extraidos t = extraidos s"
  using trigger_put_Inr(2) [OF assms] by (auto simp: schedule_def)

lemma despachar_extraidos:
  assumes "despachar cfg modo ev s = Inr t"
  shows "azar t = azar s" "extraidos t = (if extrae ev then Suc (extraidos s) else extraidos s)"
proof -
  have "azar t = azar s \<and> extraidos t = (if extrae ev then Suc (extraidos s) else extraidos s)"
  proof (cases "(cfg, modo, ev, s)" rule: despachar.cases)
    case (1 cfg' modo' s')
    with assms have "generador_inicio cfg s = Inr t" by simp
    from generador_inicio_Inr [OF this] 1 show ?thesis by (auto simp: schedule_def)
  next
    case (2 cfg' modo' rut c s')
    with assms have "cliente_inicio cfg (rut, c) s = Inr t" by simp
    from cliente_inicio_Inr [OF this] 2 show ?thesis by (auto dest: trigger_put_extraidos)
  next
    case (3 cfg' modo' s')
    with assms have "generador_despierta cfg modo s = Inr t" by simp
    from generador_despierta_Inr [OF this] 3 show ?thesis
      by (auto simp: lanzar_cliente_extraidos schedule_def)
  next
    case (4 cfg' modo' rut c s')
    with assms have "cliente_salida (rut, c) s = Inr t" by simp
    from cliente_salida_Inr [OF this] 4 show ?thesis by (auto simp: schedule_def)
  next
    case (5 cfg' modo' q s')
    with assms have "cliente_atendido cfg q s = Inr t" by simp
    from cliente_atendido_Inr [OF this] 5 show ?thesis by (auto simp: schedule_def)
  next
    case (6 cfg' modo' k s')
    with assms have "trigger_put k s = Inr t" by simp
    from trigger_put_extraidos [OF this] 6 show ?thesis by auto
  next
    case (7 cfg' modo' q s')
    with assms show ?thesis by simp
  next
    case (8 cfg' modo' s')
    with assms show ?thesis by simp
  qed
  then show "azar t = azar s"
    "extraidos t = (if extrae ev then Suc (extraidos s) else extraidos s)" by simp_all
qed


lemma paso_extraidos:
  assumes "paso cfg modo s = Inr (parar, t)"
  shows "azar t = azar s" "extraidos s \<le> extraidos t"
proof -
  from paso_Inr [OF assms] obtain m where
    c: "if evento_de m = Until
        then parar \<and> t = s\<lparr>env_now := fst m, env_queue := remove1 m (env_queue s)\<rparr>
        else \<not> parar \<and> despachar cfg modo (evento_de m)
               (s\<lparr>env_now := fst m, env_queue := remove1 m (env_queue s)\<rparr>) = Inr t"
    by blast
  have "azar t = azar s \<and> extraidos s \<le> extraidos t"
  proof (cases "evento_de m = Until")
    case True
    with c show ?thesis by simp
  next
    case False
    with c have "despachar cfg modo (evento_de m)
               (s\<lparr>env_now := fst m, env_queue := remove1 m (env_queue s)\<rparr>) = Inr t" by simp
    from despachar_extraidos [OF this] show ?thesis by simp
  qed
  then show "azar t = azar s" "extraidos s \<le> extraidos t" by simp_all
qed

lemma paso_azar:
  assumes "paso cfg modo s = Inr (parar, t)"
    and "extraidos s < extraidos t \<longrightarrow> u' (extraidos s) = azar s (extraidos s)"
  shows "paso cfg modo (s\<lparr>azar := u'\<rparr>) = Inr (parar, t\<lparr>azar := u'\<rparr>)"
proof -
  from assms(1) obtain m resto where h: "heappop (env_queue s) = Some (m, resto)"
    by (auto simp: paso_def split: option.splits)
  let ?s1 = "s\<lparr>env_now := fst m, env_queue := resto\<rparr>"
  have e: "s\<lparr>azar := u', env_now := fst m, env_queue := resto\<rparr> = ?s1\<lparr>azar := u'\<rparr>"
    by (cases s) simp
  show ?thesis
  proof (cases "evento_de m = Until")
    case True
    with assms(1) h show ?thesis by (auto simp: paso_def e)
  next
    case False
    with assms(1) h have d: "despachar cfg modo (evento_de m) ?s1 = Inr t" "\<not> parar"
      by (auto simp: paso_def ligar_Inr)
    from despachar_extraidos(2) [OF d(1)] assms(2)
    have "extrae (evento_de m) \<longrightarrow> u' (extraidos ?s1) = azar ?s1 (extraidos ?s1)"
      by simp
    with despachar_azar [of "evento_de m" u' ?s1 cfg modo] d False h show ?thesis
      by (simp add: paso_def e)
  qed
qed

lemma correr_extraidos:
  "correr n cfg modo s = Some (Inr t) \<Longrightarrow> azar t = azar s \<and> extraidos s \<le> extraidos t"
proof (induction n arbitrary: s)
  case 0
  then show ?case by simp
next
  case (Suc n)
  from Suc.prems obtain parar s1 where p: "paso cfg modo s = Inr (parar, s1)"
    by (auto split: sum.splits)
  note e = paso_extraidos [OF p]
  show ?case
  proof (cases parar)
    case True
    with p Suc.prems e show ?thesis by simp
  next
    case False
    with p Suc.prems have "correr n cfg modo s1 = Some (Inr t)" by simp
    from Suc.IH [OF this] e show ?thesis by simp
  qed
qed

lemma correr_azar:
  "correr n cfg modo s = Some (Inr t) \<Longrightarrow>
   (\<forall>j. extraidos s \<le> j \<and> j < extraidos t \<longrightarrow> u' j = azar s j) \<Longrightarrow>
   correr n cfg modo (s\<lparr>azar := u'\<rparr>) = Some (Inr (t\<lparr>azar := u'\<rparr>))"
proof (induction n arbitrary: s)
  case 0
  then show ?case by simp
next
  case (Suc n)
  from Suc.prems(1) obtain parar s1 where p: "paso cfg modo s = Inr (parar, s1)"
    by (auto split: sum.splits)
  note e = paso_extraidos [OF p]
  show ?case
  proof (cases parar)
    case True
    with p Suc.prems(1) have t: "t = s1" by simp
    from Suc.prems(2) t have "extraidos s < extraidos s1 \<longrightarrow> u' (extraidos s) = azar s (extraidos s)"
      by simp
    with paso_azar [of cfg modo s parar s1 u'] p True t show ?thesis by simp
  next
    case False
    with p Suc.prems(1) have c: "correr n cfg modo s1 = Some (Inr t)" by simp
    from correr_extraidos [OF c] have m: "extraidos s1 \<le> extraidos t" by simp
    from Suc.prems(2) m have "extraidos s < extraidos s1 \<longrightarrow> u' (extraidos s) = azar s (extraidos s)"
      by simp
    with paso_azar [of cfg modo s parar s1 u'] p
    have q: "paso cfg modo (s\<lparr>azar := u'\<rparr>) = Inr (parar, s1\<lparr>azar := u'\<rparr>)" by simp
    from Suc.prems(2) e have "\<forall>j. extraidos s1 \<le> j \<and> j < extraidos t \<longrightarrow> u' j = azar s1 j"
      by simp
    with Suc.IH [of s1] c q False show ?thesis by simp
  qed
qed

lemma preparar_azar:
  "preparar cfg modo u' k = map_sum id (\<lambda>s. s\<lparr>azar := u'\<rparr>) (preparar cfg modo u k)"
  by (cases "crear_cajeros cfg modo") (simp_all add: preparar_def entorno_def schedule_def)

lemma preparar_extraidos:
  assumes "preparar cfg modo u k = Inr s"
  shows "azar s = u" "extraidos s = k"
  using assms
  by (auto simp: preparar_def ligar_Inr entorno_def schedule_def split: if_splits)

lemma ejecutar_azar:
  assumes "ejecutar n cfg modo u k = Some (Inr s)"
    and "\<forall>j. k \<le> j \<and> j < extraidos s \<longrightarrow> u' j = u j"
  shows "ejecutar n cfg modo u' k = Some (Inr (s\<lparr>azar := u'\<rparr>))"
proof -
  from assms(1) obtain s0 where p: "preparar cfg modo u k = Inr s0"
    and c: "correr n cfg modo s0 = Some (Inr s)"
    by (auto simp: ejecutar_def split: sum.splits)
  from preparar_extraidos [OF p] assms(2)
  have "\<forall>j. extraidos s0 \<le> j \<and> j < extraidos s \<longrightarrow> u' j = azar s0 j" by simp
  with correr_azar [of n cfg modo s0 s u'] c preparar_azar [of cfg modo u' k u] p
  show ?thesis by (simp add: ejecutar_def)
qed

lemma ejecutar_mas:
  "ejecutar n cfg modo u k = Some r \<Longrightarrow> ejecutar (n + j) cfg modo u k = Some r"
  by (auto simp: ejecutar_def split: sum.splits dest: correr_mas)

lemma principal_termina:
  assumes "config_valida cfg" "azar_valido eps u"
  shows "\<exists>n p. principal n cfg u = Some (Inr p)"
proof -
  from ejecutar_termina [OF assms, of "''cola_unica''" 0] obtain n1 s1 where
    a: "ejecutar n1 cfg ''cola_unica'' u 0 = Some (Inr s1)" by blast
  from ejecutar_termina [OF assms, of "''colas_separadas''" "extraidos s1"] obtain n2 s2 where
    b: "ejecutar n2 cfg ''colas_separadas'' u (extraidos s1) = Some (Inr s2)" by blast
  from ejecutar_mas [OF a, of n2] ejecutar_mas [OF b, of n1]
  have "principal (n1 + n2) cfg u =
          Some (Inr (estadisticas ''cola_unica'' (tiempos_espera s1),
                     estadisticas ''colas_separadas'' (tiempos_espera s2)))"
    by (simp add: principal_def simular_banco_def add.commute)
  then show ?thesis by blast
qed

lemma azar_a_valido: "azar_valido (1 / 10) azar_a"
proof -
  have "1 \<le> x_a k" for k by (simp add: x_a_def)
  from exp_cota [OF this] show ?thesis by (simp add: azar_valido_def azar_a_def)
qed

lemma corrida_a2:
  "\<exists>s. ejecutar 20 config_fuente ''colas_separadas'' azar_a2 0 = Some (Inr s)
     \<and> tiempos_espera s = [0, 70, 0] \<and> extraidos s = 10"
  by (simp add: evaluar azar_a2_def azar_a_def x_a_def)

lemma determinismo_valido:
  assumes "config_valida cfg" "azar_valido eps u"
  shows "(\<exists>s. (\<exists>n. ejecutar n cfg modo u k = Some (Inr s))
           \<and> (\<forall>n r. ejecutar n cfg modo u k = Some r \<longrightarrow> r = Inr s)
           \<and> (\<forall>n r. simular_banco n cfg modo u k = Some r
                \<longrightarrow> r = Inr (estadisticas modo (tiempos_espera s), extraidos s))
           \<and> (\<forall>u'. (\<forall>j. k \<le> j \<and> j < extraidos s \<longrightarrow> u' j = u j)
                \<longrightarrow> (\<exists>n. ejecutar n cfg modo u' k = Some (Inr (s\<lparr>azar := u'\<rparr>)))
                  \<and> (\<forall>n r. ejecutar n cfg modo u' k = Some r
                        \<longrightarrow> (\<exists>s'. r = Inr s' \<and> tiempos_espera s' = tiempos_espera s
                               \<and> extraidos s' = extraidos s))
                  \<and> (\<forall>n r. simular_banco n cfg modo u' k = Some r
                        \<longrightarrow> r = Inr (estadisticas modo (tiempos_espera s), extraidos s))))
     \<and> (\<exists>p. (\<exists>n. principal n cfg u = Some (Inr p))
           \<and> (\<forall>n r. principal n cfg u = Some r \<longrightarrow> r = Inr p))"
proof (rule conjI)
  from ejecutar_termina [OF assms, of modo k] obtain n0 s where
    e: "ejecutar n0 cfg modo u k = Some (Inr s)" by blast
  have u1: "r = Inr s" if "ejecutar n cfg modo u k = Some r" for n r
    using ejecutar_unico [OF that e] .
  have u2: "r = Inr (estadisticas modo (tiempos_espera s), extraidos s)"
    if "simular_banco n cfg modo u k = Some r" for n r
  proof -
    from that obtain r0 where r0: "ejecutar n cfg modo u k = Some r0"
      "r = map_sum id (\<lambda>s. (estadisticas modo (tiempos_espera s), extraidos s)) r0"
      by (auto simp: simular_banco_def)
    from u1 [OF r0(1)] r0(2) show ?thesis by simp
  qed
  have u3: "(\<exists>n. ejecutar n cfg modo u' k = Some (Inr (s\<lparr>azar := u'\<rparr>)))
          \<and> (\<forall>n r. ejecutar n cfg modo u' k = Some r
                \<longrightarrow> (\<exists>s'. r = Inr s' \<and> tiempos_espera s' = tiempos_espera s
                       \<and> extraidos s' = extraidos s))
          \<and> (\<forall>n r. simular_banco n cfg modo u' k = Some r
                \<longrightarrow> r = Inr (estadisticas modo (tiempos_espera s), extraidos s))"
    if h: "\<forall>j. k \<le> j \<and> j < extraidos s \<longrightarrow> u' j = u j" for u'
  proof (intro conjI allI impI)
    note e' = ejecutar_azar [OF e h]
    from e' show "\<exists>n. ejecutar n cfg modo u' k = Some (Inr (s\<lparr>azar := u'\<rparr>))" by blast
    show "\<exists>s'. r = Inr s' \<and> tiempos_espera s' = tiempos_espera s \<and> extraidos s' = extraidos s"
      if "ejecutar n cfg modo u' k = Some r" for n r
      using ejecutar_unico [OF that e'] by simp
    show "r = Inr (estadisticas modo (tiempos_espera s), extraidos s)"
      if "simular_banco n cfg modo u' k = Some r" for n r
    proof -
      from that obtain r0 where r0: "ejecutar n cfg modo u' k = Some r0"
        "r = map_sum id (\<lambda>s. (estadisticas modo (tiempos_espera s), extraidos s)) r0"
        by (auto simp: simular_banco_def)
      from ejecutar_unico [OF r0(1) e'] r0(2) show ?thesis by simp
    qed
  qed
  show "\<exists>s. (\<exists>n. ejecutar n cfg modo u k = Some (Inr s))
           \<and> (\<forall>n r. ejecutar n cfg modo u k = Some r \<longrightarrow> r = Inr s)
           \<and> (\<forall>n r. simular_banco n cfg modo u k = Some r
                \<longrightarrow> r = Inr (estadisticas modo (tiempos_espera s), extraidos s))
           \<and> (\<forall>u'. (\<forall>j. k \<le> j \<and> j < extraidos s \<longrightarrow> u' j = u j)
                \<longrightarrow> (\<exists>n. ejecutar n cfg modo u' k = Some (Inr (s\<lparr>azar := u'\<rparr>)))
                  \<and> (\<forall>n r. ejecutar n cfg modo u' k = Some r
                        \<longrightarrow> (\<exists>s'. r = Inr s' \<and> tiempos_espera s' = tiempos_espera s
                               \<and> extraidos s' = extraidos s))
                  \<and> (\<forall>n r. simular_banco n cfg modo u' k = Some r
                        \<longrightarrow> r = Inr (estadisticas modo (tiempos_espera s), extraidos s)))"
  proof (intro exI [of _ s] conjI)
    show "\<exists>n. ejecutar n cfg modo u k = Some (Inr s)" using e by blast
    show "\<forall>n r. ejecutar n cfg modo u k = Some r \<longrightarrow> r = Inr s" using u1 by blast
    show "\<forall>n r. simular_banco n cfg modo u k = Some r
                \<longrightarrow> r = Inr (estadisticas modo (tiempos_espera s), extraidos s)"
      using u2 by blast
    show "\<forall>u'. (\<forall>j. k \<le> j \<and> j < extraidos s \<longrightarrow> u' j = u j)
                \<longrightarrow> (\<exists>n. ejecutar n cfg modo u' k = Some (Inr (s\<lparr>azar := u'\<rparr>)))
                  \<and> (\<forall>n r. ejecutar n cfg modo u' k = Some r
                        \<longrightarrow> (\<exists>s'. r = Inr s' \<and> tiempos_espera s' = tiempos_espera s
                               \<and> extraidos s' = extraidos s))
                  \<and> (\<forall>n r. simular_banco n cfg modo u' k = Some r
                        \<longrightarrow> r = Inr (estadisticas modo (tiempos_espera s), extraidos s))"
      by (intro allI impI) (rule u3)
  qed
next
  from principal_termina [OF assms] obtain n p where
    p: "principal n cfg u = Some (Inr p)" by blast
  have "r = Inr p" if "principal n' cfg u = Some r" for n' r
    using principal_unico [OF that p] .
  with p show "\<exists>p. (\<exists>n. principal n cfg u = Some (Inr p))
           \<and> (\<forall>n r. principal n cfg u = Some r \<longrightarrow> r = Inr p)" by blast
qed

text \<open>
  C2.  Two executions of the driver on the same configuration, mode and random stream
  (the stream that the seed fixes, read from the same position) end alike, however many
  steps each is allowed: in the same state, or with the same error; so do two executions
  of \<open>main\<close>.  For a valid configuration and stream the run returns, and all its
  executions end in one state: the same list of waits in the same order, hence the same
  summary, and the same position of the stream.  The run reads nothing but the values
  of the stream that it takes: on a stream with the same values at the positions taken,
  the run returns the same list of waits and the same summary.  \<open>main\<close>, which seeds
  the stream and runs the two simulations one after the other, returns, and always the
  same pair of summaries.
\<close>

theorem C2_determinismo:
  "(ejecutar n cfg modo u k = Some r1 \<and> ejecutar n' cfg modo u k = Some r2 \<longrightarrow> r1 = r2)
   \<and> (principal n cfg u = Some p1 \<and> principal n' cfg u = Some p2 \<longrightarrow> p1 = p2)
   \<and> (config_valida cfg \<and> azar_valido eps u \<longrightarrow>
     (\<exists>s. (\<exists>n. ejecutar n cfg modo u k = Some (Inr s))
                \<and> (\<forall>n r. ejecutar n cfg modo u k = Some r \<longrightarrow> r = Inr s)
                \<and> (\<forall>n r. simular_banco n cfg modo u k = Some r
                     \<longrightarrow> r = Inr (estadisticas modo (tiempos_espera s), extraidos s))
                \<and> (\<forall>u'. (\<forall>j. k \<le> j \<and> j < extraidos s \<longrightarrow> u' j = u j)
                     \<longrightarrow> (\<exists>n. ejecutar n cfg modo u' k = Some (Inr (s\<lparr>azar := u'\<rparr>)))
                       \<and> (\<forall>n r. ejecutar n cfg modo u' k = Some r
                             \<longrightarrow> (\<exists>s'. r = Inr s' \<and> tiempos_espera s' = tiempos_espera s
                                    \<and> extraidos s' = extraidos s))
                       \<and> (\<forall>n r. simular_banco n cfg modo u' k = Some r
                             \<longrightarrow> r = Inr (estadisticas modo (tiempos_espera s), extraidos s))))
          \<and> (\<exists>p. (\<exists>n. principal n cfg u = Some (Inr p))
                \<and> (\<forall>n r. principal n cfg u = Some r \<longrightarrow> r = Inr p)))"
proof (intro conjI impI)
  assume "ejecutar n cfg modo u k = Some r1 \<and> ejecutar n' cfg modo u k = Some r2"
  then show "r1 = r2" using ejecutar_unico by blast
next
  assume "principal n cfg u = Some p1 \<and> principal n' cfg u = Some p2"
  then show "p1 = p2" using principal_unico by blast
next
  assume a: "config_valida cfg \<and> azar_valido eps u"
  from a have v: "config_valida cfg" "azar_valido eps u" by simp_all
  from determinismo_valido [OF v, of modo k]
  show "\<exists>s. (\<exists>n. ejecutar n cfg modo u k = Some (Inr s))
           \<and> (\<forall>n r. ejecutar n cfg modo u k = Some r \<longrightarrow> r = Inr s)
           \<and> (\<forall>n r. simular_banco n cfg modo u k = Some r
                \<longrightarrow> r = Inr (estadisticas modo (tiempos_espera s), extraidos s))
           \<and> (\<forall>u'. (\<forall>j. k \<le> j \<and> j < extraidos s \<longrightarrow> u' j = u j)
                \<longrightarrow> (\<exists>n. ejecutar n cfg modo u' k = Some (Inr (s\<lparr>azar := u'\<rparr>)))
                  \<and> (\<forall>n r. ejecutar n cfg modo u' k = Some r
                        \<longrightarrow> (\<exists>s'. r = Inr s' \<and> tiempos_espera s' = tiempos_espera s
                               \<and> extraidos s' = extraidos s))
                  \<and> (\<forall>n r. simular_banco n cfg modo u' k = Some r
                        \<longrightarrow> r = Inr (estadisticas modo (tiempos_espera s), extraidos s)))"
    by (rule conjunct1)
  from determinismo_valido [OF v, of modo k]
  show "\<exists>p. (\<exists>n. principal n cfg u = Some (Inr p))
           \<and> (\<forall>n r. principal n cfg u = Some r \<longrightarrow> r = Inr p)"
    by (rule conjunct2)
qed

theorem C2_determinismo_witness:
  "config_valida config_fuente \<and> azar_valido (1 / 10) azar_a
   \<and> azar_a2 10 \<noteq> azar_a 10
   \<and> (\<exists>s s'. ejecutar 20 config_fuente ''colas_separadas'' azar_a 0 = Some (Inr s)
         \<and> ejecutar 25 config_fuente ''colas_separadas'' azar_a 0 = Some (Inr s)
         \<and> tiempos_espera s = [0, 70, 0] \<and> extraidos s = 10
         \<and> ejecutar 20 config_fuente ''colas_separadas'' azar_a2 0 = Some (Inr s')
         \<and> tiempos_espera s' = [0, 70, 0] \<and> extraidos s' = 10
         \<and> simular_banco 20 config_fuente ''colas_separadas'' azar_a2 0
             = simular_banco 25 config_fuente ''colas_separadas'' azar_a 0)"
proof -
  note t = C2_determinismo [where cfg = config_fuente and u = azar_a and eps = "1 / 10"
      and modo = "''colas_separadas''" and k = 0, THEN conjunct2, THEN conjunct2, THEN mp,
      OF conjI [OF config_fuente_valida azar_a_valido]]
  from t obtain s where
    u1: "\<forall>n r. ejecutar n config_fuente ''colas_separadas'' azar_a 0 = Some r \<longrightarrow> r = Inr s"
    and u3: "\<forall>u'. (\<forall>j. 0 \<le> j \<and> j < extraidos s \<longrightarrow> u' j = azar_a j)
          \<longrightarrow> (\<exists>n. ejecutar n config_fuente ''colas_separadas'' u' 0 = Some (Inr (s\<lparr>azar := u'\<rparr>)))
            \<and> (\<forall>n r. ejecutar n config_fuente ''colas_separadas'' u' 0 = Some r
                \<longrightarrow> (\<exists>s'. r = Inr s' \<and> tiempos_espera s' = tiempos_espera s
                       \<and> extraidos s' = extraidos s))
            \<and> (\<forall>n r. simular_banco n config_fuente ''colas_separadas'' u' 0 = Some r
                \<longrightarrow> r = Inr (estadisticas ''colas_separadas'' (tiempos_espera s), extraidos s))"
    by (elim conjE exE) (rule that; assumption)
  from corrida_a obtain sa where
    a: "ejecutar 20 config_fuente ''colas_separadas'' azar_a 0 = Some (Inr sa)"
    "tiempos_espera sa = [0, 70, 0]" "extraidos sa = 10" by blast
  from u1 a(1) have sa: "sa = s" by blast
  from ejecutar_mas [OF a(1), of 5]
  have b: "ejecutar 25 config_fuente ''colas_separadas'' azar_a 0 = Some (Inr s)"
    using sa by simp
  obtain r where
    c: "ejecutar 20 config_fuente ''colas_separadas'' azar_a2 0 = Some r"
    using corrida_a2 by blast
  have "\<forall>j. 0 \<le> j \<and> j < extraidos s \<longrightarrow> azar_a2 j = azar_a j"
    using a(3) sa by (simp add: azar_a2_def)
  with u3 [rule_format, of azar_a2] c obtain s' where
    s': "r = Inr s'" "tiempos_espera s' = tiempos_espera s" "extraidos s' = extraidos s"
    by blast
  have d: "azar_a2 10 \<noteq> azar_a 10"
    using exp_cota(1) [of 1] by (simp add: azar_a2_def azar_a_def x_a_def)
  have "simular_banco 20 config_fuente ''colas_separadas'' azar_a2 0
             = simular_banco 25 config_fuente ''colas_separadas'' azar_a 0"
    using b c s' by (simp add: simular_banco_def)
  with a sa b c s' d config_fuente_valida azar_a_valido show ?thesis by auto
qed

end
